theory Spec2Isabelle
  imports Main "HOL-Library.Word" "HOL-Library.Multiset"
begin

unbundle bit_operations_syntax

section \<open>Machine types\<close>

type_synonym byte = "8 word"
type_synonym uint16 = "16 word"
type_synonym uint32 = "32 word"
type_synonym uint64 = "64 word"

section \<open>PE/COFF reader: the debuglink CRC-32\<close>

text \<open>The lookup table \<^verbatim>\<open>crc32_table\<close> of \<^verbatim>\<open>coff_crc32\<close>, entry by entry.\<close>

definition crc32_table :: "uint32 list" where
  "crc32_table = [
     0x00000000, 0x77073096, 0xee0e612c, 0x990951ba,
     0x076dc419, 0x706af48f, 0xe963a535, 0x9e6495a3,
     0x0edb8832, 0x79dcb8a4, 0xe0d5e91e, 0x97d2d988,
     0x09b64c2b, 0x7eb17cbd, 0xe7b82d07, 0x90bf1d91,
     0x1db71064, 0x6ab020f2, 0xf3b97148, 0x84be41de,
     0x1adad47d, 0x6ddde4eb, 0xf4d4b551, 0x83d385c7,
     0x136c9856, 0x646ba8c0, 0xfd62f97a, 0x8a65c9ec,
     0x14015c4f, 0x63066cd9, 0xfa0f3d63, 0x8d080df5,
     0x3b6e20c8, 0x4c69105e, 0xd56041e4, 0xa2677172,
     0x3c03e4d1, 0x4b04d447, 0xd20d85fd, 0xa50ab56b,
     0x35b5a8fa, 0x42b2986c, 0xdbbbc9d6, 0xacbcf940,
     0x32d86ce3, 0x45df5c75, 0xdcd60dcf, 0xabd13d59,
     0x26d930ac, 0x51de003a, 0xc8d75180, 0xbfd06116,
     0x21b4f4b5, 0x56b3c423, 0xcfba9599, 0xb8bda50f,
     0x2802b89e, 0x5f058808, 0xc60cd9b2, 0xb10be924,
     0x2f6f7c87, 0x58684c11, 0xc1611dab, 0xb6662d3d,
     0x76dc4190, 0x01db7106, 0x98d220bc, 0xefd5102a,
     0x71b18589, 0x06b6b51f, 0x9fbfe4a5, 0xe8b8d433,
     0x7807c9a2, 0x0f00f934, 0x9609a88e, 0xe10e9818,
     0x7f6a0dbb, 0x086d3d2d, 0x91646c97, 0xe6635c01,
     0x6b6b51f4, 0x1c6c6162, 0x856530d8, 0xf262004e,
     0x6c0695ed, 0x1b01a57b, 0x8208f4c1, 0xf50fc457,
     0x65b0d9c6, 0x12b7e950, 0x8bbeb8ea, 0xfcb9887c,
     0x62dd1ddf, 0x15da2d49, 0x8cd37cf3, 0xfbd44c65,
     0x4db26158, 0x3ab551ce, 0xa3bc0074, 0xd4bb30e2,
     0x4adfa541, 0x3dd895d7, 0xa4d1c46d, 0xd3d6f4fb,
     0x4369e96a, 0x346ed9fc, 0xad678846, 0xda60b8d0,
     0x44042d73, 0x33031de5, 0xaa0a4c5f, 0xdd0d7cc9,
     0x5005713c, 0x270241aa, 0xbe0b1010, 0xc90c2086,
     0x5768b525, 0x206f85b3, 0xb966d409, 0xce61e49f,
     0x5edef90e, 0x29d9c998, 0xb0d09822, 0xc7d7a8b4,
     0x59b33d17, 0x2eb40d81, 0xb7bd5c3b, 0xc0ba6cad,
     0xedb88320, 0x9abfb3b6, 0x03b6e20c, 0x74b1d29a,
     0xead54739, 0x9dd277af, 0x04db2615, 0x73dc1683,
     0xe3630b12, 0x94643b84, 0x0d6d6a3e, 0x7a6a5aa8,
     0xe40ecf0b, 0x9309ff9d, 0x0a00ae27, 0x7d079eb1,
     0xf00f9344, 0x8708a3d2, 0x1e01f268, 0x6906c2fe,
     0xf762575d, 0x806567cb, 0x196c3671, 0x6e6b06e7,
     0xfed41b76, 0x89d32be0, 0x10da7a5a, 0x67dd4acc,
     0xf9b9df6f, 0x8ebeeff9, 0x17b7be43, 0x60b08ed5,
     0xd6d6a3e8, 0xa1d1937e, 0x38d8c2c4, 0x4fdff252,
     0xd1bb67f1, 0xa6bc5767, 0x3fb506dd, 0x48b2364b,
     0xd80d2bda, 0xaf0a1b4c, 0x36034af6, 0x41047a60,
     0xdf60efc3, 0xa867df55, 0x316e8eef, 0x4669be79,
     0xcb61b38c, 0xbc66831a, 0x256fd2a0, 0x5268e236,
     0xcc0c7795, 0xbb0b4703, 0x220216b9, 0x5505262f,
     0xc5ba3bbe, 0xb2bd0b28, 0x2bb45a92, 0x5cb36a04,
     0xc2d7ffa7, 0xb5d0cf31, 0x2cd99e8b, 0x5bdeae1d,
     0x9b64c2b0, 0xec63f226, 0x756aa39c, 0x026d930a,
     0x9c0906a9, 0xeb0e363f, 0x72076785, 0x05005713,
     0x95bf4a82, 0xe2b87a14, 0x7bb12bae, 0x0cb61b38,
     0x92d28e9b, 0xe5d5be0d, 0x7cdcefb7, 0x0bdbdf21,
     0x86d3d2d4, 0xf1d4e242, 0x68ddb3f8, 0x1fda836e,
     0x81be16cd, 0xf6b9265b, 0x6fb077e1, 0x18b74777,
     0x88085ae6, 0xff0f6a70, 0x66063bca, 0x11010b5c,
     0x8f659eff, 0xf862ae69, 0x616bffd3, 0x166ccf45,
     0xa00ae278, 0xd70dd2ee, 0x4e048354, 0x3903b3c2,
     0xa7672661, 0xd06016f7, 0x4969474d, 0x3e6e77db,
     0xaed16a4a, 0xd9d65adc, 0x40df0b66, 0x37d83bf0,
     0xa9bcae53, 0xdebb9ec5, 0x47b2cf7f, 0x30b5ffe9,
     0xbdbdf21c, 0xcabac28a, 0x53b39330, 0x24b4a3a6,
     0xbad03605, 0xcdd70693, 0x54de5729, 0x23d967bf,
     0xb3667a2e, 0xc4614ab8, 0x5d681b02, 0x2a6f2b94,
     0xb40bbe37, 0xc30c8ea1, 0x5a05df1b, 0x2d02ef8d]"

text \<open>The loop of \<^verbatim>\<open>coff_crc32\<close>:
  \<^verbatim>\<open>crc = crc32_table[(crc ^ *buf) & 0xff] ^ (crc >> 8)\<close> for each byte in turn.\<close>

primrec crc32_loop :: "uint32 \<Rightarrow> byte list \<Rightarrow> uint32" where
  "crc32_loop crc [] = crc"
| "crc32_loop crc (b # buf) =
     crc32_loop ((crc32_table ! unat ((crc XOR ucast b) AND 0xff)) XOR drop_bit 8 crc) buf"

text \<open>\<^verbatim>\<open>coff_crc32 (crc, buf, len)\<close>: complement on entry, the loop, complement on
  return. The buffer and its length are one byte list.\<close>

definition coff_crc32 :: "uint32 \<Rightarrow> byte list \<Rightarrow> uint32" where
  "coff_crc32 crc buf = NOT (crc32_loop (NOT crc) buf)"

text \<open>The reference routine the specification compares against: the reflected CRC-32
  with polynomial \<^verbatim>\<open>0xEDB88320\<close> by bitwise polynomial division, one bit at a time,
  with the accumulator complemented on entry and the result complemented on return.
  These definitions follow the specification's words, not the source.\<close>

definition ref_crc32_poly :: "uint32" where
  "ref_crc32_poly = 0xEDB88320"

definition ref_crc32_shift :: "uint32 \<Rightarrow> uint32" where
  "ref_crc32_shift c = (if bit c 0 then drop_bit 1 c XOR ref_crc32_poly else drop_bit 1 c)"

primrec ref_crc32_bits :: "nat \<Rightarrow> uint32 \<Rightarrow> uint32" where
  "ref_crc32_bits 0 c = c"
| "ref_crc32_bits (Suc n) c = ref_crc32_bits n (ref_crc32_shift c)"

primrec ref_crc32_loop :: "uint32 \<Rightarrow> byte list \<Rightarrow> uint32" where
  "ref_crc32_loop crc [] = crc"
| "ref_crc32_loop crc (b # buf) = ref_crc32_loop (ref_crc32_bits 8 (crc XOR ucast b)) buf"

definition ref_gnu_debuglink_crc32 :: "byte list \<Rightarrow> uint32" where
  "ref_gnu_debuglink_crc32 buf = NOT (ref_crc32_loop (NOT 0) buf)"

text \<open>A table checked entry by entry against the bitwise routine, starting at index \<open>i\<close>.\<close>

primrec table_from :: "uint32 \<Rightarrow> uint32 list \<Rightarrow> bool" where
  "table_from i [] = True"
| "table_from i (x # xs) = (ref_crc32_bits 8 i = x \<and> table_from (i + 1) xs)"

section \<open>In-place sort (sort.c)\<close>

text \<open>The array is the byte list \<open>mem\<close>; a pointer into it is its offset from
  \<^verbatim>\<open>base\<close>. An element is \<open>size\<close> consecutive bytes. The comparator reads the two
  elements it is pointed at and returns a C \<^verbatim>\<open>int\<close>, of which only the sign is used.
  The source's \<^verbatim>\<open>size\<close> and \<^verbatim>\<open>count\<close> are written \<open>sz\<close> and \<open>cnt\<close>.\<close>

type_synonym compar = "byte list \<Rightarrow> byte list \<Rightarrow> int"

definition elem :: "nat \<Rightarrow> byte list \<Rightarrow> nat \<Rightarrow> byte list" where
  "elem sz mem off = take sz (drop off mem)"

text \<open>\<^verbatim>\<open>swap (a, b, size)\<close>: exchange \<^verbatim>\<open>*a\<close> and \<^verbatim>\<open>*b\<close>, advance both pointers,
  \<open>size\<close> times.\<close>

primrec swap :: "nat \<Rightarrow> nat \<Rightarrow> nat \<Rightarrow> byte list \<Rightarrow> byte list" where
  "swap a b 0 mem = mem"
| "swap a b (Suc n) mem = swap (Suc a) (Suc b) n (mem[a := mem ! b, b := mem ! a])"

text \<open>The gap update \<^verbatim>\<open>dist = (dist / 8 * 3) | 1\<close>.\<close>

definition next_dist :: "nat \<Rightarrow> nat" where
  "next_dist dist = (dist div 8 * 3) OR 1"

text \<open>The innermost loop
  \<^verbatim>\<open>for (cur = base + i*size - d; cur >= base; cur -= d)\<close>:
  leave when \<^verbatim>\<open>cur\<close> falls below \<^verbatim>\<open>base\<close> (a negative offset) or when the comparator
  returns a value \<open>\<le> 0\<close>; otherwise swap the two elements and step down by \<open>d\<close>.
  Not returning is the value \<open>None\<close>.\<close>

partial_function (option) qsort_cur ::
  "compar \<Rightarrow> nat \<Rightarrow> nat \<Rightarrow> int \<Rightarrow> byte list \<Rightarrow> byte list option" where
  "qsort_cur compar sz d cur mem =
     (if cur < 0 then Some mem
      else if compar (elem sz mem (nat cur)) (elem sz mem (nat cur + d)) \<le> 0 then Some mem
      else qsort_cur compar sz d (cur - int d) (swap (nat cur) (nat cur + d) sz mem))"

text \<open>The loop \<^verbatim>\<open>for (i = dist; i < count; i++)\<close> around it.\<close>

function qsort_pass ::
  "compar \<Rightarrow> nat \<Rightarrow> nat \<Rightarrow> nat \<Rightarrow> nat \<Rightarrow> byte list \<Rightarrow> byte list option" where
  "qsort_pass compar sz cnt dist i mem =
     (if i < cnt
      then (case qsort_cur compar sz (dist * sz) (int (i * sz) - int (dist * sz)) mem of
              None \<Rightarrow> None
            | Some mem' \<Rightarrow> qsort_pass compar sz cnt dist (Suc i) mem')
      else Some mem)"
  by pat_completeness auto
termination
  by (relation "measure (\<lambda>(compar, sz, cnt, dist, i, mem). cnt - i)") auto

text \<open>The \<^verbatim>\<open>do ... while (dist != 1)\<close> loop: update the gap, run one pass, repeat
  unless the gap is 1.\<close>

partial_function (option) qsort_loop ::
  "compar \<Rightarrow> nat \<Rightarrow> nat \<Rightarrow> nat \<Rightarrow> byte list \<Rightarrow> byte list option" where
  "qsort_loop compar sz cnt dist mem =
     Option.bind (qsort_pass compar sz cnt (next_dist dist) (next_dist dist) mem)
       (\<lambda>mem'. if next_dist dist \<noteq> 1 then qsort_loop compar sz cnt (next_dist dist) mem'
               else Some mem')"

declare qsort_pass.simps [simp del]
declare qsort_cur.simps [code]
declare qsort_loop.simps [code]

text \<open>\<^verbatim>\<open>backtrace_qsort (basearg, count, size, compar)\<close>.\<close>

definition backtrace_qsort ::
  "byte list \<Rightarrow> nat \<Rightarrow> nat \<Rightarrow> compar \<Rightarrow> byte list option" where
  "backtrace_qsort mem cnt sz compar =
     (if cnt < 2 then Some mem else qsort_loop compar sz cnt cnt mem)"

text \<open>Vocabulary for the sort's properties: the array as its list of \<open>count\<close> elements,
  and what it means for a comparator to be a total preorder.\<close>

definition elems :: "nat \<Rightarrow> nat \<Rightarrow> byte list \<Rightarrow> byte list list" where
  "elems sz cnt mem = map (\<lambda>i. elem sz mem (i * sz)) [0..<cnt]"

definition total_preorder :: "compar \<Rightarrow> bool" where
  "total_preorder compar \<longleftrightarrow>
     (\<forall>x y. compar x y \<le> 0 \<or> compar y x \<le> 0) \<and>
     (\<forall>x y z. compar x y \<le> 0 \<and> compar y z \<le> 0 \<longrightarrow> compar x z \<le> 0)"

subsection \<open>Vocabulary for the sort's proofs\<close>

text \<open>The invariant of the gap-1 insertion loop while the element that started at
  index \<open>i\<close> sits at index \<open>k\<close>: the elements before \<open>k\<close> are in order, those from
  \<open>k\<close> to \<open>i\<close> are in order, and every element before \<open>k\<close> is at most every element
  after \<open>k\<close> up to \<open>i\<close>.\<close>

definition ins_inv :: "compar \<Rightarrow> nat \<Rightarrow> nat \<Rightarrow> byte list list \<Rightarrow> bool" where
  "ins_inv compar k i xs \<longleftrightarrow>
     (\<forall>a b. a < b \<and> b < k \<longrightarrow> compar (xs ! a) (xs ! b) \<le> 0) \<and>
     (\<forall>a b. k \<le> a \<and> a < b \<and> b \<le> i \<longrightarrow> compar (xs ! a) (xs ! b) \<le> 0) \<and>
     (\<forall>a b. a < k \<and> k < b \<and> b \<le> i \<longrightarrow> compar (xs ! a) (xs ! b) \<le> 0)"

text \<open>The elements at indices \<open>0 .. i\<close> are in non-decreasing order.\<close>

definition sorted_upto :: "compar \<Rightarrow> nat \<Rightarrow> byte list list \<Rightarrow> bool" where
  "sorted_upto compar i xs \<longleftrightarrow> (\<forall>a b. a < b \<and> b \<le> i \<longrightarrow> compar (xs ! a) (xs ! b) \<le> 0)"

text \<open>The gaps the \<^verbatim>\<open>do ... while\<close> loop runs its passes with, started from \<open>g\<close>:
  each is \<open>next_dist\<close> of the one before, and the list ends with the first gap that is 1.\<close>

function gaps :: "nat \<Rightarrow> nat list" where
  "gaps g = (if next_dist g \<noteq> 1 then next_dist g # gaps (next_dist g) else [next_dist g])"
  by pat_completeness auto

termination
proof (relation "measure (\<lambda>g. g)")
  show "wf (measure (\<lambda>g. g))" by simp
next
  fix g :: nat
  assume a: "next_dist g \<noteq> 1"
  have "g div 8 \<noteq> 0"
  proof
    assume "g div 8 = 0"
    then have "next_dist g = 1" by (simp add: next_dist_def)
    with a show False by simp
  qed
  then have "8 \<le> g" by simp
  moreover have "next_dist g \<le> g div 8 * 3 + 1"
    unfolding next_dist_def or_one_eq by simp
  ultimately have "next_dist g < g" by arith
  then show "(next_dist g, g) \<in> measure (\<lambda>g. g)" by simp
qed

text \<open>One pass per gap of a list, in order; a pass that does not return ends the run.\<close>

fun run_passes :: "compar \<Rightarrow> nat \<Rightarrow> nat \<Rightarrow> nat list \<Rightarrow> byte list \<Rightarrow> byte list option" where
  "run_passes compar sz cnt [] mem = Some mem"
| "run_passes compar sz cnt (g # gs) mem =
     Option.bind (qsort_pass compar sz cnt g g mem) (run_passes compar sz cnt gs)"

declare gaps.simps [simp del]

text \<open>A comparator for concrete runs: it compares the first byte of each element.\<close>

definition compar_u8 :: compar where
  "compar_u8 a b = (if hd a < hd b then - 1 else if hd b < hd a then 1 else 0)"

section \<open>PE/COFF reader: the symbol table\<close>

text \<open>\<^verbatim>\<open>b_coff_external_symbol\<close>: a symbol record as it lies in the file, 18 bytes, every
  field an array of \<^verbatim>\<open>unsigned char\<close>. The name is the 8-byte union of \<^verbatim>\<open>short_name\<close>
  and \<^verbatim>\<open>long_name\<close> (4 bytes \<^verbatim>\<open>zeroes\<close>, 4 bytes \<^verbatim>\<open>off\<close>).\<close>

record b_coff_external_symbol =
  ext_name :: "byte list"
  ext_value :: "byte list"
  ext_section_number :: "byte list"
  ext_type :: "byte list"
  ext_storage_class :: byte
  ext_number_of_aux_symbols :: byte

text \<open>Where the name of an internal symbol points: at the record's own \<^verbatim>\<open>short_name\<close>
  field (which has no terminator when all 8 bytes are used), or into the string table.\<close>

datatype coff_name_ptr = Short_name "byte list" | Strtab_name nat

text \<open>\<^verbatim>\<open>b_coff_internal_symbol\<close>; \<^verbatim>\<open>sec\<close> is an \<^verbatim>\<open>int16_t\<close>, read through \<open>sint\<close>.
  \<^verbatim>\<open>coff_expand_symbol\<close> leaves the field \<^verbatim>\<open>value\<close> unset, so the model has none.\<close>

record b_coff_internal_symbol =
  isym_name :: coff_name_ptr
  isym_sec :: uint16
  isym_type :: uint16
  isym_sc :: uint16

text \<open>\<^verbatim>\<open>b_coff_section_header\<close>.\<close>

record b_coff_section_header =
  sh_name :: "byte list"
  sh_virtual_size :: uint32
  sh_virtual_address :: uint32
  sh_size_of_raw_data :: uint32
  sh_pointer_to_raw_data :: uint32
  sh_pointer_to_relocations :: uint32
  sh_pointer_to_line_numbers :: uint32
  sh_number_of_relocations :: uint16
  sh_number_of_line_numbers :: uint16
  sh_characteristics :: uint32

text \<open>\<^verbatim>\<open>struct coff_symbol\<close>. The name is the string the pointer points at (\<open>None\<close> for
  \<^verbatim>\<open>NULL\<close>); the address is a \<^verbatim>\<open>uintptr_t\<close>: the type \<open>'w\<close> is a word type \<open>'a word\<close> of
  the pointer width wherever the record is used.\<close>

record 'w coff_symbol =
  sym_name :: "byte list option"
  sym_address :: 'w

text \<open>\<^verbatim>\<open>struct coff_syminfo_data\<close>: the symbol array and the number of real entries
  (\<^verbatim>\<open>next\<close> is the position in the state's list).\<close>

record 'w coff_syminfo_data =
  sd_symbols :: "'w coff_symbol list"
  sd_count :: nat

text \<open>How the compiler lays a \<^verbatim>\<open>struct coff_symbol\<close> out in memory: its \<^verbatim>\<open>sizeof\<close>, the
  bytes of a value, and the value of such bytes. The sort works on these bytes.\<close>

record 'w coff_symbol_layout =
  lay_sizeof :: nat
  lay_enc :: "'w coff_symbol \<Rightarrow> byte list"
  lay_dec :: "byte list \<Rightarrow> 'w coff_symbol"

text \<open>\<^verbatim>\<open>coff_read2\<close> and \<^verbatim>\<open>coff_read4\<close>: an unaligned word in native byte order, which
  on the hosts of PE/COFF binaries is little-endian.\<close>

definition coff_read2 :: "byte list \<Rightarrow> uint16" where
  "coff_read2 p = ucast (p ! 0) OR push_bit 8 (ucast (p ! 1))"

definition coff_read4 :: "byte list \<Rightarrow> uint32" where
  "coff_read4 p = ucast (p ! 0) OR push_bit 8 (ucast (p ! 1))
     OR push_bit 16 (ucast (p ! 2)) OR push_bit 24 (ucast (p ! 3))"

text \<open>\<^verbatim>\<open>coff_short_name_len\<close>: the index of the first NUL among the 8 bytes, or 8.\<close>

definition coff_short_name_len :: "byte list \<Rightarrow> nat" where
  "coff_short_name_len name = length (takeWhile (\<lambda>c. c \<noteq> 0) (take 8 name))"

text \<open>The NUL-terminated string at offset \<open>off\<close> of the string table.\<close>

definition strtab_string :: "byte list \<Rightarrow> nat \<Rightarrow> byte list" where
  "strtab_string strtab off = takeWhile (\<lambda>c. c \<noteq> 0) (drop off strtab)"

text \<open>\<^verbatim>\<open>coff_symbol_compare\<close>.\<close>

definition coff_symbol_compare :: "'a::len word coff_symbol \<Rightarrow> 'a word coff_symbol \<Rightarrow> int" where
  "coff_symbol_compare e1 e2 =
     (if sym_address e1 < sym_address e2 then - 1
      else if sym_address e1 > sym_address e2 then 1
      else 0)"

text \<open>\<^verbatim>\<open>coff_expand_symbol\<close>; \<open>None\<close> is the return value \<open>-1\<close>.\<close>

definition coff_expand_symbol ::
  "b_coff_external_symbol \<Rightarrow> uint16 \<Rightarrow> byte list \<Rightarrow> nat \<Rightarrow> b_coff_internal_symbol option" where
  "coff_expand_symbol esym sects_num strtab strtab_size =
     (let ty = coff_read2 (ext_type esym);
          sec = coff_read2 (ext_section_number esym);
          sc = ucast (ext_storage_class esym)
      in if 0 < sint sec \<and> sec > sects_num then None
         else if ext_name esym ! 0 \<noteq> 0
         then Some \<lparr>isym_name = Short_name (ext_name esym), isym_sec = sec, isym_type = ty,
                    isym_sc = sc\<rparr>
         else let off = coff_read4 (drop 4 (ext_name esym))
              in if unat off \<ge> strtab_size then None
                 else Some \<lparr>isym_name = Strtab_name (unat off), isym_sec = sec, isym_type = ty,
                            isym_sc = sc\<rparr>)"

text \<open>\<^verbatim>\<open>coff_is_function_symbol\<close>, with \<^verbatim>\<open>N_TBSHFT = 4\<close> and
  \<^verbatim>\<open>IMAGE_SYM_DTYPE_FUNCTION = 2\<close>.\<close>

definition coff_is_function_symbol :: "b_coff_internal_symbol \<Rightarrow> bool" where
  "coff_is_function_symbol isym \<longleftrightarrow> drop_bit 4 (isym_type isym) = 2 \<and> 0 < sint (isym_sec isym)"

text \<open>Modelled from the spec: the macro \<^verbatim>\<open>libbacktrace_add_base\<close> of \<^verbatim>\<open>internal.h\<close>, which
  is not among the sources. The specification records \<open>address + base\<close>: the 32-bit sum is
  widened to \<^verbatim>\<open>uintptr_t\<close> and the base is added.\<close>

definition libbacktrace_add_base :: "uint32 \<Rightarrow> 'a::len word \<Rightarrow> 'a word" where
  "libbacktrace_add_base pc base = ucast pc + base"

text \<open>The first loop of \<^verbatim>\<open>coff_initialize_syminfo\<close>: count the function symbols and the
  bytes their short names need. \<open>None\<close> is the failed \<^verbatim>\<open>coff_expand_symbol\<close>. The loop
  variable skips the aux records: \<^verbatim>\<open>i += asym->number_of_aux_symbols\<close>, then \<^verbatim>\<open>++i\<close>.\<close>

function coff_count_loop ::
  "b_coff_external_symbol list \<Rightarrow> nat \<Rightarrow> nat \<Rightarrow> byte list \<Rightarrow> nat \<Rightarrow> nat \<Rightarrow> nat \<Rightarrow> nat
   \<Rightarrow> (nat \<times> nat) option" where
  "coff_count_loop syms syms_count sects_num strtab strtab_size i coff_symbol_count coff_symstr_len =
     (if i < syms_count
      then (case coff_expand_symbol (syms ! i) (of_nat sects_num) strtab strtab_size of
              None \<Rightarrow> None
            | Some isym \<Rightarrow>
                if coff_is_function_symbol isym
                then coff_count_loop syms syms_count sects_num strtab strtab_size
                       (i + unat (ext_number_of_aux_symbols (syms ! i)) + 1)
                       (coff_symbol_count + 1)
                       (if ext_name (syms ! i) ! 0 \<noteq> 0
                        then coff_symstr_len + coff_short_name_len (ext_name (syms ! i)) + 1
                        else coff_symstr_len)
                else coff_count_loop syms syms_count sects_num strtab strtab_size
                       (i + unat (ext_number_of_aux_symbols (syms ! i)) + 1)
                       coff_symbol_count coff_symstr_len)
      else Some (coff_symbol_count, coff_symstr_len))"
  by pat_completeness auto
termination
  by (relation "measure (\<lambda>(syms, syms_count, sects_num, strtab, strtab_size, i, c, l). syms_count - i)")
    auto

declare coff_count_loop.simps [simp del]

text \<open>The name a copied symbol gets: a short name is copied up to its length and
  terminated, a long name is the string in the string table; for a binary that is not
  64-bit one leading \<^verbatim>\<open>'_'\<close> (0x5F) is skipped.\<close>

definition coff_symbol_name :: "bool \<Rightarrow> b_coff_external_symbol \<Rightarrow> coff_name_ptr \<Rightarrow> byte list \<Rightarrow> byte list" where
  "coff_symbol_name is_64 esym isym_nm strtab =
     (let name = (if ext_name esym ! 0 \<noteq> 0
                  then (case isym_nm of
                          Short_name bs \<Rightarrow> take (coff_short_name_len bs) bs
                        | Strtab_name off \<Rightarrow> take (coff_short_name_len (drop off strtab)) (drop off strtab))
                  else (case isym_nm of
                          Short_name bs \<Rightarrow> bs
                        | Strtab_name off \<Rightarrow> strtab_string strtab off))
      in if \<not> is_64
         then (case name of c # cs \<Rightarrow> if c = 0x5F then cs else name | [] \<Rightarrow> name)
         else name)"

text \<open>The second loop: copy the function symbols in file order. \<open>None\<close> is \<^verbatim>\<open>abort ()\<close>.
  The section's address is read at \<^verbatim>\<open>sects[secnum - 1]\<close>.\<close>

function coff_copy_loop ::
  "'a::len word \<Rightarrow> bool \<Rightarrow> b_coff_section_header list \<Rightarrow> nat \<Rightarrow> b_coff_external_symbol list
   \<Rightarrow> nat \<Rightarrow> byte list \<Rightarrow> nat \<Rightarrow> nat \<Rightarrow> 'a word coff_symbol list
   \<Rightarrow> 'a word coff_symbol list option" where
  "coff_copy_loop base_address is_64 sects sects_num syms syms_count strtab strtab_size i coff_symbols =
     (if i < syms_count
      then (case coff_expand_symbol (syms ! i) (of_nat sects_num) strtab strtab_size of
              None \<Rightarrow> None
            | Some isym \<Rightarrow>
                if coff_is_function_symbol isym
                then coff_copy_loop base_address is_64 sects sects_num syms syms_count strtab
                       strtab_size (i + unat (ext_number_of_aux_symbols (syms ! i)) + 1)
                       (coff_symbols @
                        [\<lparr>sym_name = Some (coff_symbol_name is_64 (syms ! i) (isym_name isym) strtab),
                          sym_address = libbacktrace_add_base
                            (coff_read4 (ext_value (syms ! i))
                             + sh_virtual_address
                                 (sects ! (unat (coff_read2 (ext_section_number (syms ! i))) - 1)))
                            base_address\<rparr>])
                else coff_copy_loop base_address is_64 sects sects_num syms syms_count strtab
                       strtab_size (i + unat (ext_number_of_aux_symbols (syms ! i)) + 1)
                       coff_symbols)
      else Some coff_symbols)"
  by pat_completeness auto
termination
  by (relation "measure (\<lambda>(b, is_64, sects, sects_num, syms, syms_count, strtab, strtab_size, i, acc).
        syms_count - i)") auto

declare coff_copy_loop.simps [simp del]

text \<open>What \<^verbatim>\<open>coff_initialize_syminfo\<close> reports and returns: 0 with the calls it made to
  the error callback, or 1 with the filled \<^verbatim>\<open>sdata\<close>.\<close>

datatype 'w init_result = Init_failed "(string \<times> int) list" | Init_ok "'w coff_syminfo_data"

text \<open>\<^verbatim>\<open>coff_initialize_syminfo\<close>. \<open>alloc\<close> tells whether \<^verbatim>\<open>backtrace_alloc\<close> of a size
  succeeds (the allocator reports its own failure). The array gets the copied symbols, then
  the end marker with name \<^verbatim>\<open>NULL\<close> and address \<open>-1\<close>; \<^verbatim>\<open>backtrace_qsort\<close> then sorts the
  first \<^verbatim>\<open>coff_symbol_count\<close> entries of it, as bytes. \<open>None\<close> is no return (\<^verbatim>\<open>abort ()\<close>, or
  a sort that does not end).\<close>

definition coff_initialize_syminfo ::
  "(nat \<Rightarrow> bool) \<Rightarrow> 'a::len word coff_symbol_layout \<Rightarrow> 'a word \<Rightarrow> bool
   \<Rightarrow> b_coff_section_header list \<Rightarrow> nat \<Rightarrow> b_coff_external_symbol list \<Rightarrow> nat \<Rightarrow> byte list
   \<Rightarrow> nat \<Rightarrow> 'a word init_result option" where
  "coff_initialize_syminfo alloc lay base_address is_64 sects sects_num syms syms_size strtab
     strtab_size =
     (let syms_count = syms_size div 18 in
      case coff_count_loop syms syms_count sects_num strtab strtab_size 0 0 0 of
        None \<Rightarrow> Some (Init_failed [(''invalid section or offset in coff symbol'', 0)])
      | Some (coff_symbol_count, coff_symstr_len) \<Rightarrow>
          if \<not> alloc ((coff_symbol_count + 1) * lay_sizeof lay) then Some (Init_failed [])
          else if coff_symstr_len > 0 \<and> \<not> alloc coff_symstr_len then Some (Init_failed [])
          else (case coff_copy_loop base_address is_64 sects sects_num syms syms_count strtab
                       strtab_size 0 [] of
                  None \<Rightarrow> None
                | Some coff_symbols \<Rightarrow>
                    (let arr = coff_symbols @ [\<lparr>sym_name = None, sym_address = - 1\<rparr>];
                         mem = concat (map (lay_enc lay) arr);
                         n = coff_symbol_count * lay_sizeof lay
                     in case backtrace_qsort (take n mem) coff_symbol_count (lay_sizeof lay)
                               (\<lambda>a b. coff_symbol_compare (lay_dec lay a) (lay_dec lay b)) of
                          None \<Rightarrow> None
                        | Some sorted_mem \<Rightarrow>
                            Some (Init_ok
                              \<lparr>sd_symbols = map (lay_dec lay)
                                  (elems (lay_sizeof lay) (length arr) (sorted_mem @ drop n mem)),
                               sd_count = coff_symbol_count\<rparr>))))"

text \<open>\<^verbatim>\<open>coff_symbol_search\<close>, the comparison \<^verbatim>\<open>bsearch\<close> calls with the entry at index
  \<open>i\<close>. It reads \<^verbatim>\<open>entry[1]\<close> when the key is not below the entry's address; \<open>None\<close> is
  a read past the end of the array.\<close>

definition coff_symbol_search ::
  "'a::len word \<Rightarrow> 'a word coff_symbol list \<Rightarrow> nat \<Rightarrow> int option" where
  "coff_symbol_search addr symbols i =
     (if i < length symbols
      then (if addr < sym_address (symbols ! i) then Some (- 1)
            else if Suc i < length symbols
            then (if addr \<ge> sym_address (symbols ! Suc i) then Some 1 else Some 0)
            else None)
      else None)"

text \<open>The C library's \<^verbatim>\<open>bsearch\<close> over the entries \<open>l ..< u\<close>, as the usual halving
  loop; it is not part of the repository. \<open>Search_fault\<close> is a comparison that read out of
  bounds.\<close>

datatype search_result = Search_fault | Not_found | Found nat

function bsearch_loop ::
  "'a::len word \<Rightarrow> 'a word coff_symbol list \<Rightarrow> nat \<Rightarrow> nat \<Rightarrow> search_result" where
  "bsearch_loop addr symbols l u =
     (if l < u
      then (let idx = (l + u) div 2 in
            case coff_symbol_search addr symbols idx of
              None \<Rightarrow> Search_fault
            | Some c \<Rightarrow> if c < 0 then bsearch_loop addr symbols l idx
                        else if c > 0 then bsearch_loop addr symbols (idx + 1) u
                        else Found idx)
      else Not_found)"
  by pat_completeness auto
termination
  by (relation "measure (\<lambda>(addr, symbols, l, u). u - l)") auto

declare bsearch_loop.simps [simp del]

text \<open>The search of \<^verbatim>\<open>coff_syminfo\<close> in one shard:
  \<^verbatim>\<open>bsearch (&addr, sdata->symbols, sdata->count, sizeof (struct coff_symbol), coff_symbol_search)\<close>.\<close>

definition coff_syminfo_search ::
  "'a::len word coff_syminfo_data \<Rightarrow> 'a word \<Rightarrow> search_result" where
  "coff_syminfo_search sdata addr = bsearch_loop addr (sd_symbols sdata) 0 (sd_count sdata)"

subsection \<open>The symbol table in the specification's words\<close>

text \<open>The records that are symbols of their own: each record is followed by as many aux
  records as it announces, and those are skipped.\<close>

function primary_symbols :: "b_coff_external_symbol list \<Rightarrow> b_coff_external_symbol list" where
  "primary_symbols [] = []"
| "primary_symbols (s # rest) =
     s # primary_symbols (drop (unat (ext_number_of_aux_symbols s)) rest)"
  by pat_completeness auto
termination
  by (relation "measure length") auto

text \<open>A record is function-typed with a real section index: the derived type (the type
  shifted right by 4) is 2, and the section number, a signed 16-bit value, is positive.\<close>

definition is_indexed_symbol :: "b_coff_external_symbol \<Rightarrow> bool" where
  "is_indexed_symbol s \<longleftrightarrow>
     drop_bit 4 (coff_read2 (ext_type s)) = 2 \<and> 0 < sint (coff_read2 (ext_section_number s))"

text \<open>The name a record carries: its short name up to the first NUL (at most 8 bytes),
  or, when the first byte is 0, the string at its offset in the string table.\<close>

definition record_name :: "byte list \<Rightarrow> b_coff_external_symbol \<Rightarrow> byte list" where
  "record_name strtab s =
     (if ext_name s ! 0 \<noteq> 0 then takeWhile (\<lambda>c. c \<noteq> 0) (take 8 (ext_name s))
      else strtab_string strtab (unat (coff_read4 (drop 4 (ext_name s)))))"

definition strip_underscore :: "byte list \<Rightarrow> byte list" where
  "strip_underscore name = (case name of c # cs \<Rightarrow> if c = 0x5F then cs else name | [] \<Rightarrow> [])"

text \<open>The entry an indexed record gets: for PE32 its name without one leading underscore,
  for PE32+ its name as it is; the address is the symbol's value plus its section's
  address plus the base.\<close>

definition indexed_entry ::
  "'a::len word \<Rightarrow> bool \<Rightarrow> b_coff_section_header list \<Rightarrow> byte list \<Rightarrow> b_coff_external_symbol
   \<Rightarrow> 'a word coff_symbol" where
  "indexed_entry base_address is_64 sects strtab s =
     \<lparr>sym_name = Some (if is_64 then record_name strtab s
                        else strip_underscore (record_name strtab s)),
      sym_address = ucast (coff_read4 (ext_value s)
                      + sh_virtual_address
                          (sects ! (unat (coff_read2 (ext_section_number s)) - 1)))
                    + base_address\<rparr>"

text \<open>A layout represents the symbols \<open>xs\<close> when each takes \<open>sizeof\<close> bytes, at least one,
  and is read back from its bytes.\<close>

definition layout_ok :: "'w coff_symbol_layout \<Rightarrow> 'w coff_symbol list \<Rightarrow> bool" where
  "layout_ok lay xs \<longleftrightarrow>
     0 < lay_sizeof lay \<and>
     (\<forall>s \<in> set xs. length (lay_enc lay s) = lay_sizeof lay \<and> lay_dec lay (lay_enc lay s) = s)"

subsection \<open>Concrete instances for the symbol table\<close>

text \<open>A concrete instance for checking the statements below: a 64-bit layout of 16 bytes
  (8 bytes that stand for the name pointer and tell \<^verbatim>\<open>NULL\<close> from a one-character name,
  then the address, least significant byte first), one section, and a symbol table of
  four records: \<^verbatim>\<open>_g\<close> with one aux record, that aux record, \<^verbatim>\<open>_f\<close>, and a data symbol
  \<^verbatim>\<open>_d\<close>.\<close>

definition example_layout :: "64 word coff_symbol_layout" where
  "example_layout =
     \<lparr>lay_sizeof = 16,
      lay_enc = (\<lambda>s. (case sym_name s of None \<Rightarrow> [0, 0] | Some n \<Rightarrow> [1, hd n]) @ [0, 0, 0, 0, 0, 0]
                 @ map (\<lambda>k. ucast (drop_bit (8 * k) (sym_address s))) [0..<8]),
      lay_dec = (\<lambda>bs. \<lparr>sym_name = (if bs ! 0 = 0 then None else Some [bs ! 1]),
                       sym_address = word_rcat (rev (drop 8 bs))\<rparr>)\<rparr>"

definition example_symbol ::
  "byte list \<Rightarrow> byte \<Rightarrow> byte \<Rightarrow> byte \<Rightarrow> byte \<Rightarrow> b_coff_external_symbol" where
  "example_symbol nm v sec ty aux =
     \<lparr>ext_name = nm, ext_value = [v, 0, 0, 0], ext_section_number = [sec, 0],
      ext_type = [ty, 0], ext_storage_class = 2, ext_number_of_aux_symbols = aux\<rparr>"

definition example_section :: b_coff_section_header where
  "example_section =
     \<lparr>sh_name = [0x2E, 0x74, 0x65, 0x78, 0x74, 0, 0, 0], sh_virtual_size = 0x100,
      sh_virtual_address = 0x1000, sh_size_of_raw_data = 0x200, sh_pointer_to_raw_data = 0x400,
      sh_pointer_to_relocations = 0, sh_pointer_to_line_numbers = 0,
      sh_number_of_relocations = 0, sh_number_of_line_numbers = 0, sh_characteristics = 0\<rparr>"

definition example_syms :: "b_coff_external_symbol list" where
  "example_syms =
     [example_symbol [0x5F, 0x67, 0, 0, 0, 0, 0, 0] 0x20 1 0x20 1,
      example_symbol [0x5F, 0x78, 0, 0, 0, 0, 0, 0] 0x30 1 0x20 0,
      example_symbol [0x5F, 0x66, 0, 0, 0, 0, 0, 0] 0x10 1 0x20 0,
      example_symbol [0x5F, 0x64, 0, 0, 0, 0, 0, 0] 0x08 1 0x00 0]"

text \<open>What \<^verbatim>\<open>coff_initialize_syminfo\<close> builds from the example.\<close>

definition example_sdata :: "64 word coff_syminfo_data" where
  "example_sdata =
     \<lparr>sd_symbols = [\<lparr>sym_name = Some [0x66], sym_address = 0x401010\<rparr>,
                    \<lparr>sym_name = Some [0x67], sym_address = 0x401020\<rparr>,
                    \<lparr>sym_name = None, sym_address = - 1\<rparr>],
      sd_count = 2\<rparr>"

section \<open>The external collaborators and the reader's state\<close>

text \<open>The primitives the readers consume and the repository does not define here, as an
  environment: \<^verbatim>\<open>backtrace_open\<close> (a descriptor, negative when the file cannot be opened),
  \<^verbatim>\<open>backtrace_get_view\<close> of a descriptor, offset and size (the bytes, or \<open>None\<close> when it
  fails), whether \<^verbatim>\<open>backtrace_close\<close> of a descriptor succeeds, \<^verbatim>\<open>fstat\<close>'s \<^verbatim>\<open>st_size\<close>
  (or the \<^verbatim>\<open>errno\<close> of its failure), whether \<^verbatim>\<open>backtrace_alloc\<close> of a size succeeds, the
  entries \<^verbatim>\<open>readdir\<close> yields for a directory (name, and whether \<^verbatim>\<open>d_type\<close> is \<^verbatim>\<open>DT_REG\<close>;
  \<open>None\<close> when \<^verbatim>\<open>opendir\<close> fails), whether \<^verbatim>\<open>backtrace_dwarf_add\<close> accepts a set of
  sections, and the host's byte order. \<open>'w\<close> is the type of a \<^verbatim>\<open>uintptr_t\<close>.\<close>

record 'w env =
  env_host_big_endian :: bool
  env_open :: "string \<Rightarrow> int"
  env_view :: "int \<Rightarrow> nat \<Rightarrow> nat \<Rightarrow> byte list option"
  env_close :: "int \<Rightarrow> bool"
  env_fstat_size :: "int \<Rightarrow> int + nat"
  env_alloc :: "nat \<Rightarrow> bool"
  env_readdir :: "string \<Rightarrow> (string \<times> bool) list option"
  env_dwarf_add :: "'w \<Rightarrow> (byte list option \<times> nat) list \<Rightarrow> bool \<Rightarrow> bool"

text \<open>What the readers change: the calls made to the error callback (message and
  \<^verbatim>\<open>errnum\<close>) in order, the descriptors closed, the symbol tables added to
  \<^verbatim>\<open>state->syminfo_data\<close>, and the DWARF sections registered through
  \<^verbatim>\<open>backtrace_dwarf_add\<close> (base address, sections, byte order). The primitives of the
  environment report their own failures; those calls are not recorded.\<close>

record 'w state =
  st_errors :: "(string \<times> int) list"
  st_closed :: "int list"
  st_syminfo_data :: "'w coff_syminfo_data list"
  st_dwarf :: "('w \<times> (byte list option \<times> nat) list \<times> bool) list"

definition error_callback :: "string \<Rightarrow> int \<Rightarrow> 'w state \<Rightarrow> 'w state" where
  "error_callback msg errnum st = st\<lparr>st_errors := st_errors st @ [(msg, errnum)]\<rparr>"

definition backtrace_close :: "int \<Rightarrow> 'w state \<Rightarrow> 'w state" where
  "backtrace_close descriptor st = st\<lparr>st_closed := st_closed st @ [descriptor]\<rparr>"

text \<open>A word of the host read at an offset of a view.\<close>

definition host_u32 :: "bool \<Rightarrow> byte list \<Rightarrow> nat \<Rightarrow> uint32" where
  "host_u32 be d off =
     (if be then word_rcat (take 4 (drop off d)) else word_rcat (rev (take 4 (drop off d))))"

definition host_u64 :: "bool \<Rightarrow> byte list \<Rightarrow> nat \<Rightarrow> uint64" where
  "host_u64 be d off =
     (if be then word_rcat (take 8 (drop off d)) else word_rcat (rev (take 8 (drop off d))))"

text \<open>\<^verbatim>\<open>strncmp (s, lit, n) == 0\<close> for a literal without NUL that is shorter than \<open>n\<close>:
  the first \<open>n\<close> bytes at \<open>s\<close>, up to the first NUL, are the literal.\<close>

definition strncmp_eq :: "byte list \<Rightarrow> string \<Rightarrow> nat \<Rightarrow> bool" where
  "strncmp_eq s lit n \<longleftrightarrow>
     takeWhile (\<lambda>c. c \<noteq> 0) (take n s) = map (\<lambda>c. of_nat (of_char c)) lit"

section \<open>Mach-O reader\<close>

text \<open>Constants and structure sizes of \<^verbatim>\<open><mach-o/loader.h>\<close>: the load commands
  \<^verbatim>\<open>LC_SEGMENT\<close>, \<^verbatim>\<open>LC_SEGMENT_64\<close> and \<^verbatim>\<open>LC_UUID\<close>, the four magic numbers, and
  \<^verbatim>\<open>sizeof\<close> of \<^verbatim>\<open>load_command\<close> (8), \<^verbatim>\<open>uuid_command\<close> (24), \<^verbatim>\<open>segment_command\<close> (56),
  \<^verbatim>\<open>segment_command_64\<close> (72), \<^verbatim>\<open>section\<close> (68), \<^verbatim>\<open>section_64\<close> (80), \<^verbatim>\<open>mach_header\<close> (28)
  and \<^verbatim>\<open>mach_header_64\<close> (32). Field offsets are written where a field is read.\<close>

definition LC_SEGMENT :: uint32 where "LC_SEGMENT = 0x1"
definition LC_SEGMENT_64 :: uint32 where "LC_SEGMENT_64 = 0x19"
definition LC_UUID :: uint32 where "LC_UUID = 0x1b"
definition MH_MAGIC :: uint32 where "MH_MAGIC = 0xfeedface"
definition MH_CIGAM :: uint32 where "MH_CIGAM = 0xcefaedfe"
definition MH_MAGIC_64 :: uint32 where "MH_MAGIC_64 = 0xfeedfacf"
definition MH_CIGAM_64 :: uint32 where "MH_CIGAM_64 = 0xcffaedfe"

text \<open>\<^verbatim>\<open>struct macho_commands_view\<close>.\<close>

record macho_commands_view =
  cv_view :: "byte list"
  commands_count :: uint32
  commands_total_size :: uint32
  bytes_swapped :: bool

text \<open>\<^verbatim>\<open>macho_file_to_host_u32\<close> and \<^verbatim>\<open>macho_file_to_host_u64\<close>. In the 64-bit swap the
  first operand is a \<^verbatim>\<open>uint32_t\<close>, widened by the \<open>|\<close>.\<close>

definition macho_file_to_host_u32 :: "bool \<Rightarrow> uint32 \<Rightarrow> uint32" where
  "macho_file_to_host_u32 file_bytes_swapped input =
     (if file_bytes_swapped
      then (drop_bit 24 input AND 0x000000FF) OR (drop_bit 8 input AND 0x0000FF00)
           OR (push_bit 8 input AND 0x00FF0000) OR (push_bit 24 input AND 0xFF000000)
      else input)"

definition macho_file_to_host_u64 :: "bool \<Rightarrow> uint64 \<Rightarrow> uint64" where
  "macho_file_to_host_u64 file_bytes_swapped input =
     (if file_bytes_swapped
      then ucast (macho_file_to_host_u32 file_bytes_swapped (ucast (drop_bit 32 input)))
           OR push_bit 32 (ucast (macho_file_to_host_u32 file_bytes_swapped (ucast input)))
      else input)"

text \<open>\<^verbatim>\<open>macho_get_commands\<close>: 0 and the state, or 1 with the commands view. The header
  view is released on every path.\<close>

definition macho_get_commands ::
  "uint64 env \<Rightarrow> int \<Rightarrow> uint64 state \<Rightarrow> macho_commands_view option \<times> uint64 state" where
  "macho_get_commands e descriptor st =
     (case env_view e descriptor 0 32 of
        None \<Rightarrow> (None, st)
      | Some hdr \<Rightarrow>
          (let magic = host_u32 (env_host_big_endian e) hdr 0 in
           if magic \<noteq> MH_MAGIC \<and> magic \<noteq> MH_CIGAM \<and> magic \<noteq> MH_MAGIC_64 \<and> magic \<noteq> MH_CIGAM_64
           then (None, error_callback ''executable file is not a Mach-O image'' 0 st)
           else
             (let file_bits = (if magic = MH_MAGIC \<or> magic = MH_CIGAM then 32 else 64 :: nat);
                  swapped = (magic = MH_CIGAM \<or> magic = MH_CIGAM_64);
                  ncmds = macho_file_to_host_u32 swapped (host_u32 (env_host_big_endian e) hdr 16);
                  sizeofcmds = macho_file_to_host_u32 swapped
                                 (host_u32 (env_host_big_endian e) hdr 20);
                  commands_offset = (if file_bits = 64 then 32 else 28 :: nat)
              in case env_view e descriptor commands_offset (unat sizeofcmds) of
                   None \<Rightarrow> (None, st)
                 | Some cmds \<Rightarrow>
                     (Some \<lparr>cv_view = cmds, commands_count = ncmds,
                            commands_total_size = sizeofcmds, bytes_swapped = swapped\<rparr>, st))))"

text \<open>The loop of \<^verbatim>\<open>macho_get_uuid\<close> from command \<open>i\<close> at \<open>offset\<close>: the error it
  reports with 0, or 1 with the 16 bytes of the first \<^verbatim>\<open>LC_UUID\<close> command.\<close>

function macho_get_uuid_loop ::
  "bool \<Rightarrow> macho_commands_view \<Rightarrow> nat \<Rightarrow> nat \<Rightarrow> (string \<times> int) + byte list" where
  "macho_get_uuid_loop be cv i offset =
     (if i < unat (commands_count cv)
      then (if offset + 8 > unat (commands_total_size cv)
            then Inl (''executable file is truncated'', 0)
            else if macho_file_to_host_u32 (bytes_swapped cv) (host_u32 be (cv_view cv) offset)
                    = LC_UUID
            then (if offset + 24 > unat (commands_total_size cv)
                  then Inl (''executable file is truncated'', 0)
                  else Inr (take 16 (drop (offset + 8) (cv_view cv))))
            else macho_get_uuid_loop be cv (i + 1)
                   (offset + unat (macho_file_to_host_u32 (bytes_swapped cv)
                                     (host_u32 be (cv_view cv) (offset + 4)))))
      else Inl (''executable file is missing an identifying uuid'', 0))"
  by pat_completeness auto
termination
  by (relation "measure (\<lambda>(be, cv, i, offset). unat (commands_count cv) - i)") auto

declare macho_get_uuid_loop.simps [simp del]

definition macho_get_uuid ::
  "uint64 env \<Rightarrow> macho_commands_view \<Rightarrow> uint64 state \<Rightarrow> byte list option \<times> uint64 state" where
  "macho_get_uuid e cv st =
     (case macho_get_uuid_loop (env_host_big_endian e) cv 0 0 of
        Inl (msg, errnum) \<Rightarrow> (None, error_callback msg errnum st)
      | Inr uuid \<Rightarrow> (Some uuid, st))"

text \<open>The loop of \<^verbatim>\<open>macho_get_base\<close>. For \<^verbatim>\<open>LC_SEGMENT\<close> the command is read as a
  \<^verbatim>\<open>struct segment_command\<close>: \<^verbatim>\<open>segname\<close> at 8, the 32-bit \<^verbatim>\<open>vmaddr\<close> at 24 and
  \<^verbatim>\<open>fileoff\<close> at 32. For \<^verbatim>\<open>LC_SEGMENT_64\<close> the source casts the command to
  \<^verbatim>\<open>struct segment_command *\<close> as well, so it reads the same two 32-bit fields at 24 and 32,
  widens each to 64 bits and passes it to \<^verbatim>\<open>macho_file_to_host_u64\<close>.\<close>

function macho_get_base_loop ::
  "bool \<Rightarrow> macho_commands_view \<Rightarrow> nat \<Rightarrow> nat \<Rightarrow> (string \<times> int) + uint64" where
  "macho_get_base_loop be cv i offset =
     (if i < unat (commands_count cv)
      then (if offset + 8 > unat (commands_total_size cv)
            then Inl (''executable file is truncated'', 0)
            else
              (let cmd = macho_file_to_host_u32 (bytes_swapped cv) (host_u32 be (cv_view cv) offset);
                   cmdsize = macho_file_to_host_u32 (bytes_swapped cv)
                               (host_u32 be (cv_view cv) (offset + 4))
               in if cmd = LC_SEGMENT
                  then (if offset + 56 > unat (commands_total_size cv)
                        then Inl (''executable file is truncated'', 0)
                        else if strncmp_eq (drop (offset + 8) (cv_view cv)) ''__TEXT'' 16
                        then Inr (ucast (macho_file_to_host_u32 (bytes_swapped cv)
                                           (host_u32 be (cv_view cv) (offset + 24)))
                                  - ucast (macho_file_to_host_u32 (bytes_swapped cv)
                                             (host_u32 be (cv_view cv) (offset + 32))))
                        else macho_get_base_loop be cv (i + 1) (offset + unat cmdsize))
                  else if cmd = LC_SEGMENT_64
                  then (if offset + 72 > unat (commands_total_size cv)
                        then Inl (''executable file is truncated'', 0)
                        else if strncmp_eq (drop (offset + 8) (cv_view cv)) ''__TEXT'' 16
                        then Inr (macho_file_to_host_u64 (bytes_swapped cv)
                                     (ucast (host_u32 be (cv_view cv) (offset + 24)))
                                  - macho_file_to_host_u64 (bytes_swapped cv)
                                      (ucast (host_u32 be (cv_view cv) (offset + 32))))
                        else macho_get_base_loop be cv (i + 1) (offset + unat cmdsize))
                  else macho_get_base_loop be cv (i + 1) (offset + unat cmdsize)))
      else Inl (''executable file is missing a valid __TEXT segment'', 0))"
  by pat_completeness auto
termination
  by (relation "measure (\<lambda>(be, cv, i, offset). unat (commands_count cv) - i)") auto

declare macho_get_base_loop.simps [simp del]

text \<open>\<^verbatim>\<open>macho_get_base\<close>: 0 after reporting an error, or 1 with \<^verbatim>\<open>*base_address\<close> stored.\<close>

definition macho_get_base ::
  "uint64 env \<Rightarrow> macho_commands_view \<Rightarrow> uint64 state \<Rightarrow> uint64 option \<times> uint64 state" where
  "macho_get_base e cv st =
     (case macho_get_base_loop (env_host_big_endian e) cv 0 0 of
        Inl (msg, errnum) \<Rightarrow> (None, error_callback msg errnum st)
      | Inr base_address \<Rightarrow> (Some base_address, st))"

text \<open>\<^verbatim>\<open>struct found_dwarf_section\<close> (the \<^verbatim>\<open>data\<close> pointer is computed at the end), and
  what the scan of \<^verbatim>\<open>macho_try_dwarf\<close> carries: the five entries and the smallest and
  largest file offsets seen.\<close>

record found_dwarf_section =
  file_offset :: uint32
  file_size :: uint64

record dwarf_scan =
  dwarf_sections :: "found_dwarf_section list"
  min_dwarf_offset :: uint64
  max_dwarf_offset :: uint64

definition debug_section_names :: "string list" where
  "debug_section_names =
     [''__debug_info'', ''__debug_line'', ''__debug_abbrev'', ''__debug_ranges'', ''__debug_str'']"

text \<open>The loop over \<open>k\<close>: the first name equal to \<^verbatim>\<open>sectname\<close>, if any.\<close>

fun match_debug_section :: "byte list \<Rightarrow> string list \<Rightarrow> nat \<Rightarrow> nat option" where
  "match_debug_section sectname [] k = None"
| "match_debug_section sectname (n # ns) k =
     (if strncmp_eq sectname n 16 then Some k else match_debug_section sectname ns (Suc k))"

text \<open>What a matching section does to the scan.\<close>

definition record_dwarf_section :: "nat \<Rightarrow> uint32 \<Rightarrow> uint64 \<Rightarrow> dwarf_scan \<Rightarrow> dwarf_scan" where
  "record_dwarf_section k off sz sc =
     (let dwarf_section_end = ucast off + sz in
      \<lparr>dwarf_sections = (dwarf_sections sc)[k := \<lparr>file_offset = off, file_size = sz\<rparr>],
       min_dwarf_offset = (if min_dwarf_offset sc = 0 \<or> ucast off < min_dwarf_offset sc
                           then ucast off else min_dwarf_offset sc),
       max_dwarf_offset = (if dwarf_section_end > max_dwarf_offset sc
                           then dwarf_section_end else max_dwarf_offset sc)\<rparr>)"

text \<open>The loop over the \<open>j\<close>-th section of a \<^verbatim>\<open>__DWARF\<close> segment; \<open>is64\<close> tells a
  \<^verbatim>\<open>struct section_64\<close> (80 bytes, \<^verbatim>\<open>size\<close> 64-bit at 40, \<^verbatim>\<open>offset\<close> at 48) from a
  \<^verbatim>\<open>struct section\<close> (68 bytes, \<^verbatim>\<open>size\<close> at 36, \<^verbatim>\<open>offset\<close> at 40).\<close>

function macho_scan_sections ::
  "bool \<Rightarrow> macho_commands_view \<Rightarrow> bool \<Rightarrow> nat \<Rightarrow> nat \<Rightarrow> nat \<Rightarrow> dwarf_scan
   \<Rightarrow> (string \<times> int) + dwarf_scan" where
  "macho_scan_sections be cv is64 section_count j section_offset sc =
     (if j < section_count
      then (if section_offset + (if is64 then 80 else 68) > unat (commands_total_size cv)
            then Inl (''dSYM file is truncated'', 0)
            else macho_scan_sections be cv is64 section_count (j + 1)
                   (section_offset + (if is64 then 80 else 68))
                   (case match_debug_section (drop section_offset (cv_view cv))
                           debug_section_names 0 of
                      None \<Rightarrow> sc
                    | Some k \<Rightarrow>
                        record_dwarf_section k
                          (macho_file_to_host_u32 (bytes_swapped cv)
                             (host_u32 be (cv_view cv) (section_offset + (if is64 then 48 else 40))))
                          (if is64
                           then macho_file_to_host_u64 (bytes_swapped cv)
                                  (host_u64 be (cv_view cv) (section_offset + 40))
                           else ucast (macho_file_to_host_u32 (bytes_swapped cv)
                                         (host_u32 be (cv_view cv) (section_offset + 36))))
                          sc))
      else Inr sc)"
  by pat_completeness auto
termination
  by (relation "measure (\<lambda>(be, cv, is64, section_count, j, off, sc). section_count - j)") auto

declare macho_scan_sections.simps [simp del]

text \<open>The loop over the load commands of the candidate: the sections of every segment
  named \<^verbatim>\<open>__DWARF\<close> are scanned (\<^verbatim>\<open>nsects\<close> at 48 of a \<^verbatim>\<open>segment_command\<close>, at 64 of a
  \<^verbatim>\<open>segment_command_64\<close>).\<close>

function macho_scan_commands ::
  "bool \<Rightarrow> macho_commands_view \<Rightarrow> nat \<Rightarrow> nat \<Rightarrow> dwarf_scan \<Rightarrow> (string \<times> int) + dwarf_scan" where
  "macho_scan_commands be cv i offset sc =
     (if i < unat (commands_count cv)
      then (if offset + 8 > unat (commands_total_size cv)
            then Inl (''dSYM file is truncated'', 0)
            else
              (let cmd = macho_file_to_host_u32 (bytes_swapped cv) (host_u32 be (cv_view cv) offset);
                   cmdsize = macho_file_to_host_u32 (bytes_swapped cv)
                               (host_u32 be (cv_view cv) (offset + 4))
               in if cmd = LC_SEGMENT \<or> cmd = LC_SEGMENT_64
                  then (if offset + (if cmd = LC_SEGMENT then 56 else 72)
                           > unat (commands_total_size cv)
                        then Inl (''dSYM file is truncated'', 0)
                        else if strncmp_eq (drop (offset + 8) (cv_view cv)) ''__DWARF'' 16
                        then (case macho_scan_sections be cv (cmd \<noteq> LC_SEGMENT)
                                     (unat (macho_file_to_host_u32 (bytes_swapped cv)
                                              (host_u32 be (cv_view cv)
                                                 (offset + (if cmd = LC_SEGMENT then 48 else 64)))))
                                     0 (offset + (if cmd = LC_SEGMENT then 56 else 72)) sc of
                                Inl err \<Rightarrow> Inl err
                              | Inr sc' \<Rightarrow>
                                  macho_scan_commands be cv (i + 1) (offset + unat cmdsize) sc')
                        else macho_scan_commands be cv (i + 1) (offset + unat cmdsize) sc)
                  else macho_scan_commands be cv (i + 1) (offset + unat cmdsize) sc))
      else Inr sc)"
  by pat_completeness auto
termination
  by (relation "measure (\<lambda>(be, cv, i, offset, sc). unat (commands_count cv) - i)") auto

declare macho_scan_commands.simps [simp del]

text \<open>The part of \<^verbatim>\<open>macho_try_dwarf\<close> after the UUID comparison: scan, map the span of
  the sections, and register them with \<^verbatim>\<open>backtrace_dwarf_add\<close>. The result is \<^verbatim>\<open>ret\<close>
  and whether the descriptor is still to be closed at \<^verbatim>\<open>end\<close>.\<close>

definition macho_add_dwarf ::
  "uint64 env \<Rightarrow> int \<Rightarrow> macho_commands_view \<Rightarrow> uint64 \<Rightarrow> uint64 state
   \<Rightarrow> (int \<times> bool) \<times> uint64 state" where
  "macho_add_dwarf e dwarf_descriptor cv base_address st =
     (case macho_scan_commands (env_host_big_endian e) cv 0 0
             \<lparr>dwarf_sections = replicate 5 \<lparr>file_offset = 0, file_size = 0\<rparr>,
              min_dwarf_offset = 0, max_dwarf_offset = 0\<rparr> of
        Inl (msg, errnum) \<Rightarrow> ((0, True), error_callback msg errnum st)
      | Inr sc \<Rightarrow>
          if max_dwarf_offset sc = 0 then ((0, True), st)
          else (case env_view e dwarf_descriptor (unat (min_dwarf_offset sc))
                       (unat (max_dwarf_offset sc - min_dwarf_offset sc)) of
                  None \<Rightarrow> ((0, True), st)
                | Some dwarf_view \<Rightarrow>
                    (let secs = map (\<lambda>s. (if file_offset s = 0 then None
                                            else Some (drop (unat (ucast (file_offset s)
                                                                   - min_dwarf_offset sc))
                                                         dwarf_view),
                                           unat (file_size s)))
                                  (dwarf_sections sc);
                         is_bigendian = (env_host_big_endian e \<noteq> bytes_swapped cv)
                     in if \<not> env_dwarf_add e base_address secs is_bigendian then ((0, True), st)
                        else ((1, False),
                              st\<lparr>st_dwarf := st_dwarf st @ [(base_address, secs, is_bigendian)]\<rparr>))))"

text \<open>\<^verbatim>\<open>macho_try_dwarf\<close>. The descriptor is compared with 0 after \<^verbatim>\<open>backtrace_open\<close>, as
  in the source. At \<^verbatim>\<open>end\<close> the descriptor is closed when it is still marked valid.\<close>

definition macho_try_dwarf ::
  "uint64 env \<Rightarrow> byte list \<Rightarrow> uint64 \<Rightarrow> string \<Rightarrow> uint64 state \<Rightarrow> int \<times> uint64 state" where
  "macho_try_dwarf e executable_uuid base_address dwarf_filename st =
     (let dwarf_descriptor = env_open e dwarf_filename in
      if dwarf_descriptor = 0 then (0, st)
      else (case macho_get_commands e dwarf_descriptor st of
              (None, st1) \<Rightarrow> (0, backtrace_close dwarf_descriptor st1)
            | (Some cv, st1) \<Rightarrow>
                (case macho_get_uuid e cv st1 of
                   (None, st2) \<Rightarrow>
                     (0, backtrace_close dwarf_descriptor
                           (error_callback ''dSYM file is missing an identifying uuid'' 0 st2))
                 | (Some dwarf_uuid, st2) \<Rightarrow>
                     if executable_uuid \<noteq> dwarf_uuid
                     then (0, backtrace_close dwarf_descriptor st2)
                     else (case macho_add_dwarf e dwarf_descriptor cv base_address st2 of
                             ((ret, descriptor_valid), st3) \<Rightarrow>
                               (ret, if descriptor_valid
                                     then backtrace_close dwarf_descriptor st3 else st3)))))"

text \<open>The \<^verbatim>\<open>readdir\<close> loop of \<^verbatim>\<open>macho_try_dsym\<close> over the entries still to come: entries
  that are not regular files are skipped, and the first candidate that
  \<^verbatim>\<open>macho_try_dwarf\<close> accepts ends the search with 1. Paths are strings of any length
  (\<^verbatim>\<open>PATH_MAX\<close> is not modelled).\<close>

fun macho_try_dsym_loop ::
  "uint64 env \<Rightarrow> byte list \<Rightarrow> uint64 \<Rightarrow> string \<Rightarrow> (string \<times> bool) list \<Rightarrow> uint64 state
   \<Rightarrow> int \<times> uint64 state" where
  "macho_try_dsym_loop e executable_uuid base_address dir [] st = (0, st)"
| "macho_try_dsym_loop e executable_uuid base_address dir ((d_name, is_reg) # entries) st =
     (if \<not> is_reg then macho_try_dsym_loop e executable_uuid base_address dir entries st
      else (case macho_try_dwarf e executable_uuid base_address (dir @ ''/'' @ d_name) st of
              (ret, st') \<Rightarrow>
                if ret \<noteq> 0 then (1, st')
                else macho_try_dsym_loop e executable_uuid base_address dir entries st'))"

definition macho_try_dsym ::
  "uint64 env \<Rightarrow> byte list \<Rightarrow> uint64 \<Rightarrow> string \<Rightarrow> uint64 state \<Rightarrow> int \<times> uint64 state" where
  "macho_try_dsym e executable_uuid base_address dsym_filename st =
     (let dwarf_image_dir_path = dsym_filename @ ''/Contents/Resources/DWARF'' in
      case env_readdir e dwarf_image_dir_path of
        None \<Rightarrow> (0, error_callback ''could not open DWARF directory in dSYM'' 0 st)
      | Some entries \<Rightarrow>
          macho_try_dsym_loop e executable_uuid base_address dwarf_image_dir_path entries st)"

text \<open>The \<^verbatim>\<open>LC_UUID\<close> of a candidate file, as \<^verbatim>\<open>macho_try_dwarf\<close> obtains it: \<open>None\<close>
  when the file yields no descriptor, no load commands or no \<^verbatim>\<open>LC_UUID\<close>.\<close>

definition candidate_uuid :: "uint64 env \<Rightarrow> string \<Rightarrow> uint64 state \<Rightarrow> byte list option" where
  "candidate_uuid e dwarf_filename st =
     (if env_open e dwarf_filename = 0 then None
      else (case macho_get_commands e (env_open e dwarf_filename) st of
              (None, st1) \<Rightarrow> None
            | (Some cv, st1) \<Rightarrow> fst (macho_get_uuid e cv st1)))"

subsection \<open>Concrete instances for the Mach-O reader\<close>

text \<open>Concrete files for checking the statements below: words written least significant
  byte first, a \<^verbatim>\<open>LC_SEGMENT_64\<close> command for \<^verbatim>\<open>__TEXT\<close> with \<^verbatim>\<open>vmaddr = 0x100000000\<close>,
  \<^verbatim>\<open>vmsize = 0x4000\<close>, \<^verbatim>\<open>fileoff = 0\<close> and \<^verbatim>\<open>filesize = 0x4000\<close> (the usual first segment
  of a 64-bit executable), an \<^verbatim>\<open>LC_UUID\<close> command, a 64-bit little-endian Mach-O file
  made of a header and load commands, and an environment in which every file name opens
  that file as descriptor 3 on a little-endian host.\<close>

definition le32 :: "uint32 \<Rightarrow> byte list" where
  "le32 w = map (\<lambda>k. ucast (drop_bit (8 * k) w)) [0..<4]"

definition le64 :: "uint64 \<Rightarrow> byte list" where
  "le64 w = map (\<lambda>k. ucast (drop_bit (8 * k) w)) [0..<8]"

definition example_text_segment_64 :: "byte list" where
  "example_text_segment_64 =
     le32 0x19 @ le32 72 @ [0x5F, 0x5F, 0x54, 0x45, 0x58, 0x54, 0, 0, 0, 0, 0, 0, 0, 0, 0, 0]
     @ le64 0x100000000 @ le64 0x4000 @ le64 0 @ le64 0x4000
     @ le32 5 @ le32 5 @ le32 0 @ le32 0"

definition example_uuid_command :: "byte list \<Rightarrow> byte list" where
  "example_uuid_command uuid = le32 0x1b @ le32 24 @ uuid"

definition example_macho_file :: "byte list \<Rightarrow> byte list" where
  "example_macho_file cmds =
     le32 0xfeedfacf @ le32 0x01000007 @ le32 3 @ le32 2 @ le32 1 @ le32 (of_nat (length cmds))
     @ le32 0 @ le32 0 @ cmds"

definition example_env :: "byte list \<Rightarrow> uint64 env" where
  "example_env file =
     \<lparr>env_host_big_endian = False,
      env_open = (\<lambda>name. 3),
      env_view = (\<lambda>descriptor off n. if off + n \<le> length file then Some (take n (drop off file)) else None),
      env_close = (\<lambda>descriptor. True),
      env_fstat_size = (\<lambda>descriptor. Inr (length file)),
      env_alloc = (\<lambda>n. True),
      env_readdir = (\<lambda>dir. Some [(''a.out'', True)]),
      env_dwarf_add = (\<lambda>base secs be. True)\<rparr>"

definition empty_state :: "'w state" where
  "empty_state = \<lparr>st_errors = [], st_closed = [], st_syminfo_data = [], st_dwarf = []\<rparr>"

definition example_uuid_a :: "byte list" where
  "example_uuid_a = [1, 2, 3, 4, 5, 6, 7, 8, 9, 10, 11, 12, 13, 14, 15, 16]"

definition example_uuid_b :: "byte list" where
  "example_uuid_b = [16, 15, 14, 13, 12, 11, 10, 9, 8, 7, 6, 5, 4, 3, 2, 1]"

section \<open>PE/COFF reader: finding and opening the separate debug file\<close>

text \<open>C strings: the characters at a pointer up to the first NUL, as a string; the
  position of the last occurrence of a character (\<^verbatim>\<open>strrchr\<close>); and \<^verbatim>\<open>%08x\<close> of a
  32-bit value.\<close>

definition c_string :: "byte list \<Rightarrow> string" where
  "c_string p = map (\<lambda>b. char_of (unat b)) (takeWhile (\<lambda>c. c \<noteq> 0) p)"

fun strrchr :: "string \<Rightarrow> char \<Rightarrow> nat option" where
  "strrchr [] c = None"
| "strrchr (x # xs) c =
     (case strrchr xs c of
        Some i \<Rightarrow> Some (Suc i)
      | None \<Rightarrow> if x = c then Some 0 else None)"

definition hex_digit :: "nat \<Rightarrow> char" where
  "hex_digit n = (if n < 10 then char_of (48 + n) else char_of (87 + n))"

definition hex8 :: "uint32 \<Rightarrow> string" where
  "hex8 w = map (\<lambda>k. hex_digit (unat (drop_bit (4 * (7 - k)) w AND 0xF))) [0..<8]"

text \<open>\<^verbatim>\<open>coff_try_debugfile\<close>: the descriptor \<^verbatim>\<open>backtrace_open\<close> returns for
  \<^verbatim>\<open>prefix\<close>, \<^verbatim>\<open>prefix2\<close> and the name joined, or \<open>-1\<close> when the buffer for the path
  cannot be allocated; and the paths passed to \<^verbatim>\<open>backtrace_open\<close> (one or none).\<close>

definition coff_try_debugfile ::
  "'w env \<Rightarrow> string \<Rightarrow> string \<Rightarrow> string \<Rightarrow> int \<times> string list" where
  "coff_try_debugfile e prefix prefix2 debuglink_name =
     (let try_len = length prefix + length prefix2 + length debuglink_name + 1 in
      if \<not> env_alloc e try_len then (- 1, [])
      else (env_open e (prefix @ prefix2 @ debuglink_name),
            [prefix @ prefix2 @ debuglink_name]))"

text \<open>The prefix of \<^verbatim>\<open>coff_find_debugfile_by_debuglink\<close>: the file name up to and
  including its last \<^verbatim>\<open>'/'\<close> or \<^verbatim>\<open>'\\'\<close>, whichever comes later; empty when it has
  neither.\<close>

definition debuglink_prefix :: "string \<Rightarrow> string" where
  "debuglink_prefix filename =
     (case (strrchr filename CHR ''/'', strrchr filename (CHR 0x5C)) of
        (None, None) \<Rightarrow> []
      | (Some last_slash, None) \<Rightarrow> take (last_slash + 1) filename
      | (None, Some last_bslash) \<Rightarrow> take (last_bslash + 1) filename
      | (Some last_slash, Some last_bslash) \<Rightarrow>
          take ((if last_bslash > last_slash then last_bslash else last_slash) + 1) filename)"

text \<open>\<^verbatim>\<open>coff_find_debugfile_by_debuglink\<close>, with the configuration macro
  \<^verbatim>\<open>HAVE_WINDOWS_H\<close> as the parameter \<open>have_windows_h\<close>: the descriptor or \<open>-1\<close>, and the
  paths passed to \<^verbatim>\<open>backtrace_open\<close>, in order.\<close>

definition coff_find_debugfile_by_debuglink ::
  "bool \<Rightarrow> 'w env \<Rightarrow> string \<Rightarrow> string \<Rightarrow> int \<times> string list" where
  "coff_find_debugfile_by_debuglink have_windows_h e filename debuglink_name =
     (let prefix = debuglink_prefix filename;
          (d1, p1) = coff_try_debugfile e prefix [] debuglink_name
      in if d1 \<ge> 0 then (d1, p1)
         else if \<not> have_windows_h
         then (let (d2, p2) = coff_try_debugfile e prefix ''.debug/'' debuglink_name
               in if d2 \<ge> 0 then (d2, p1 @ p2)
                  else (let (d3, p3) = coff_try_debugfile e ''/usr/lib/debug/'' prefix
                                         debuglink_name
                        in (if d3 \<ge> 0 then d3 else - 1, p1 @ p2 @ p3)))
         else (let (d2, p2) = coff_try_debugfile e prefix (''.debug'' @ [CHR 0x5C]) debuglink_name
               in (if d2 \<ge> 0 then d2 else - 1, p1 @ p2)))"

text \<open>\<^verbatim>\<open>coff_crc32_file\<close>: 0 when \<^verbatim>\<open>fstat\<close> fails (reported with its \<^verbatim>\<open>errno\<close>) or the
  file cannot be mapped, otherwise the CRC of the file's \<^verbatim>\<open>st_size\<close> bytes.\<close>

definition coff_crc32_file :: "'w env \<Rightarrow> int \<Rightarrow> 'w state \<Rightarrow> uint32 \<times> 'w state" where
  "coff_crc32_file e descriptor st =
     (case env_fstat_size e descriptor of
        Inl errno \<Rightarrow> (0, error_callback ''fstat'' errno st)
      | Inr st_size \<Rightarrow>
          (case env_view e descriptor 0 st_size of
             None \<Rightarrow> (0, st)
           | Some file_view \<Rightarrow> (coff_crc32 0 file_view, st)))"

text \<open>\<^verbatim>\<open>coff_open_debugfile_by_debuglink\<close>. The message is what \<^verbatim>\<open>snprintf\<close> leaves in
  its 256-byte buffer.\<close>

definition coff_open_debugfile_by_debuglink ::
  "bool \<Rightarrow> 'w env \<Rightarrow> string \<Rightarrow> string \<Rightarrow> uint32 \<Rightarrow> 'w state \<Rightarrow> int \<times> 'w state" where
  "coff_open_debugfile_by_debuglink have_windows_h e filename debuglink_name debuglink_crc st =
     (let ddescriptor = fst (coff_find_debugfile_by_debuglink have_windows_h e filename
                               debuglink_name)
      in if ddescriptor < 0 then (- 1, st)
         else if debuglink_crc \<noteq> 0
         then (case coff_crc32_file e ddescriptor st of
                 (got_crc, st1) \<Rightarrow>
                   if got_crc \<noteq> debuglink_crc
                   then (- 1, backtrace_close ddescriptor
                                (error_callback
                                   (take 255 (''CRC mismatch for '' @ filename @ '': got 0x''
                                              @ hex8 got_crc @ '' expected 0x''
                                              @ hex8 debuglink_crc))
                                   0 st1))
                   else (ddescriptor, st1))
         else (ddescriptor, st))"

text \<open>The candidates in the specification's words, for a directory prefix and a name;
  and the probes of a list of candidates, in order, up to and including the first that
  opens.\<close>

definition spec_debuglink_candidates :: "string \<Rightarrow> string \<Rightarrow> string list" where
  "spec_debuglink_candidates dir name =
     [dir @ name, dir @ ''.debug/'' @ name, ''/usr/lib/debug/'' @ dir @ name]"

fun probes_until_open :: "(string \<Rightarrow> int) \<Rightarrow> string list \<Rightarrow> string list" where
  "probes_until_open opn [] = []"
| "probes_until_open opn (p # ps) = (if opn p \<ge> 0 then [p] else p # probes_until_open opn ps)"

text \<open>The candidates of a build: with \<^verbatim>\<open>HAVE_WINDOWS_H\<close> there are two, the second under
  \<^verbatim>\<open>.debug\\\<close>.\<close>

definition build_debuglink_candidates :: "bool \<Rightarrow> string \<Rightarrow> string \<Rightarrow> string list" where
  "build_debuglink_candidates have_windows_h dir name =
     (if have_windows_h then [dir @ name, dir @ ''.debug'' @ [CHR 0x5C] @ name]
      else spec_debuglink_candidates dir name)"

text \<open>The descriptor of the first candidate that opens, or \<open>-1\<close>.\<close>

fun first_open :: "(string \<Rightarrow> int) \<Rightarrow> string list \<Rightarrow> int" where
  "first_open opn [] = - 1"
| "first_open opn (p # ps) = (if opn p \<ge> 0 then opn p else first_open opn ps)"

subsection \<open>PE/COFF reader: adding the data of a file\<close>

text \<open>An environment over files given by name and by descriptor: \<open>opn\<close> is
  \<^verbatim>\<open>backtrace_open\<close>, \<open>files\<close> the bytes behind each descriptor; every allocation
  succeeds.\<close>

definition file_env :: "(string \<Rightarrow> int) \<Rightarrow> (int \<Rightarrow> byte list) \<Rightarrow> uint64 env" where
  "file_env opn files =
     \<lparr>env_host_big_endian = False,
      env_open = opn,
      env_view = (\<lambda>descriptor off n.
                    if off + n \<le> length (files descriptor)
                    then Some (take n (drop off (files descriptor))) else None),
      env_close = (\<lambda>descriptor. True),
      env_fstat_size = (\<lambda>descriptor. Inr (length (files descriptor))),
      env_alloc = (\<lambda>n. True),
      env_readdir = (\<lambda>dir. None),
      env_dwarf_add = (\<lambda>base secs be. True)\<rparr>"

text \<open>\<^verbatim>\<open>b_coff_file_header\<close>, and its fields read from the 20 bytes \<^verbatim>\<open>memcpy\<close> copies into
  it; the host is little-endian, as for \<^verbatim>\<open>coff_read2\<close> and \<^verbatim>\<open>coff_read4\<close>.\<close>

record b_coff_file_header =
  fh_machine :: uint16
  fh_number_of_sections :: uint16
  fh_time_date_stamp :: uint32
  fh_pointer_to_symbol_table :: uint32
  fh_number_of_symbols :: uint32
  fh_size_of_optional_header :: uint16
  fh_characteristics :: uint16

definition coff_file_header_of :: "byte list \<Rightarrow> b_coff_file_header" where
  "coff_file_header_of p =
     \<lparr>fh_machine = coff_read2 p,
      fh_number_of_sections = coff_read2 (drop 2 p),
      fh_time_date_stamp = coff_read4 (drop 4 p),
      fh_pointer_to_symbol_table = coff_read4 (drop 8 p),
      fh_number_of_symbols = coff_read4 (drop 12 p),
      fh_size_of_optional_header = coff_read2 (drop 16 p),
      fh_characteristics = coff_read2 (drop 18 p)\<rparr>"

text \<open>The section header (40 bytes) at an offset of the view of the optional header and
  the section headers, and the symbol (18 bytes) at an offset of the view of the symbol
  table.\<close>

definition coff_section_header_at :: "byte list \<Rightarrow> nat \<Rightarrow> b_coff_section_header" where
  "coff_section_header_at v off =
     \<lparr>sh_name = take 8 (drop off v),
      sh_virtual_size = coff_read4 (drop (off + 8) v),
      sh_virtual_address = coff_read4 (drop (off + 12) v),
      sh_size_of_raw_data = coff_read4 (drop (off + 16) v),
      sh_pointer_to_raw_data = coff_read4 (drop (off + 20) v),
      sh_pointer_to_relocations = coff_read4 (drop (off + 24) v),
      sh_pointer_to_line_numbers = coff_read4 (drop (off + 28) v),
      sh_number_of_relocations = coff_read2 (drop (off + 32) v),
      sh_number_of_line_numbers = coff_read2 (drop (off + 34) v),
      sh_characteristics = coff_read4 (drop (off + 36) v)\<rparr>"

definition coff_external_symbol_at :: "byte list \<Rightarrow> nat \<Rightarrow> b_coff_external_symbol" where
  "coff_external_symbol_at v off =
     \<lparr>ext_name = take 8 (drop off v),
      ext_value = take 4 (drop (off + 8) v),
      ext_section_number = take 2 (drop (off + 12) v),
      ext_type = take 2 (drop (off + 14) v),
      ext_storage_class = v ! (off + 16),
      ext_number_of_aux_symbols = v ! (off + 17)\<rparr>"

text \<open>\<^verbatim>\<open>atoi\<close> of the C library on the bytes at a pointer: white space, an optional sign,
  decimal digits. The value is an unbounded integer here; the caller converts it to
  \<^verbatim>\<open>unsigned int\<close>.\<close>

definition isspace_c :: "byte \<Rightarrow> bool" where
  "isspace_c c \<longleftrightarrow> c = 0x20 \<or> (0x09 \<le> c \<and> c \<le> 0x0D)"

definition isdigit_c :: "byte \<Rightarrow> bool" where
  "isdigit_c c \<longleftrightarrow> 0x30 \<le> c \<and> c \<le> 0x39"

definition atoi :: "byte list \<Rightarrow> int" where
  "atoi p =
     (let q = dropWhile isspace_c p;
          neg = (q \<noteq> [] \<and> hd q = 0x2D);
          r = (if q \<noteq> [] \<and> (hd q = 0x2D \<or> hd q = 0x2B) then tl q else q);
          n = foldl (\<lambda>acc c. acc * 10 + (uint c - 48)) 0 (takeWhile isdigit_c r)
      in if neg then - n else n)"

text \<open>A string literal of the source as the bytes of the C string, with its NUL.\<close>

definition c_literal :: "string \<Rightarrow> byte list" where
  "c_literal s = map (\<lambda>c. of_nat (of_char c)) s @ [0]"

text \<open>\<^verbatim>\<open>coff_short_name_eq\<close>: the loop from index \<open>i\<close>, and the function.\<close>

function coff_short_name_eq_loop :: "byte list \<Rightarrow> byte list \<Rightarrow> nat \<Rightarrow> bool" where
  "coff_short_name_eq_loop name cname i =
     (if i < 8
      then (if name ! i \<noteq> cname ! i then False
            else if name ! i = 0 then True
            else coff_short_name_eq_loop name cname (i + 1))
      else name ! 8 = 0)"
  by pat_completeness auto

termination
  by (relation "measure (\<lambda>(name, cname, i). 8 - i)") auto

declare coff_short_name_eq_loop.simps [simp del]

definition coff_short_name_eq :: "string \<Rightarrow> byte list \<Rightarrow> bool" where
  "coff_short_name_eq name cname = coff_short_name_eq_loop (c_literal name) cname 0"

text \<open>\<^verbatim>\<open>coff_long_name_eq\<close>. The view of the string table is \<open>None\<close> when the table was
  not mapped: \<^verbatim>\<open>str_view\<close> is then uninitialized, and the result is undefined
  (\<open>None\<close>).\<close>

definition coff_long_name_eq :: "string \<Rightarrow> uint32 \<Rightarrow> byte list option \<Rightarrow> bool option" where
  "coff_long_name_eq name off str_view =
     (case str_view of
        None \<Rightarrow> None
      | Some v \<Rightarrow>
          if unat off \<ge> length v then Some False
          else Some (strtab_string v (unat off) @ [0] = c_literal name))"

text \<open>The test \<^verbatim>\<open>str_off != 0 ? coff_long_name_eq (...) : coff_short_name_eq (...)\<close> of the
  section loop.\<close>

definition coff_section_name_eq ::
  "string \<Rightarrow> uint32 \<Rightarrow> byte list option \<Rightarrow> byte list \<Rightarrow> bool option" where
  "coff_section_name_eq name str_off str_view cname =
     (if str_off \<noteq> 0 then coff_long_name_eq name str_off str_view
      else Some (coff_short_name_eq name cname))"

text \<open>\<^verbatim>\<open>debug_section_names\<close> of the PE/COFF reader (\<^verbatim>\<open>DEBUG_MAX\<close> is 9).\<close>

definition coff_debug_section_names :: "string list" where
  "coff_debug_section_names =
     [''.debug_info'', ''.debug_line'', ''.debug_abbrev'', ''.debug_ranges'', ''.debug_str'',
      ''.debug_addr'', ''.debug_str_offsets'', ''.debug_line_str'', ''.debug_rnglists'']"

text \<open>What the section loop of \<^verbatim>\<open>coff_add\<close> gathers: offset and size of each debug
  section, and the names and CRC of the two link sections (\<open>None\<close> for \<^verbatim>\<open>NULL\<close>).\<close>

record coff_scan =
  sc_sections :: "(nat \<times> nat) list"
  sc_debuglink_name :: "string option"
  sc_debuglink_crc :: uint32
  sc_debuglink_view_valid :: bool
  sc_debugaltlink_name :: "string option"
  sc_debugaltlink_view_valid :: bool

text \<open>The size \<^verbatim>\<open>s->virtual_size <= s->size_of_raw_data ? s->virtual_size :
  s->size_of_raw_data\<close>.\<close>

definition coff_section_size :: "b_coff_section_header \<Rightarrow> nat" where
  "coff_section_size s =
     (if sh_virtual_size s \<le> sh_size_of_raw_data s then unat (sh_virtual_size s)
      else unat (sh_size_of_raw_data s))"

text \<open>The part of the inner loop that reads \<^verbatim>\<open>.gnu_debuglink\<close>: map the section, and take
  the name and the CRC when the CRC, at the next multiple of 4 after the name, lies within
  the section. The result is \<open>None\<close> when it is undefined, \<open>Inl\<close> at \<^verbatim>\<open>goto fail\<close>.\<close>

definition coff_read_debuglink ::
  "'w env \<Rightarrow> string \<Rightarrow> int \<Rightarrow> byte list option \<Rightarrow> b_coff_section_header \<Rightarrow> uint32
   \<Rightarrow> coff_scan \<Rightarrow> 'w state \<Rightarrow> ('w state + coff_scan \<times> 'w state) option" where
  "coff_read_debuglink e filename descriptor str_view s str_off sc st =
     (if sc_debuglink_view_valid sc then Some (Inr (sc, st))
      else (case coff_section_name_eq ''.gnu_debuglink'' str_off str_view (sh_name s) of
              None \<Rightarrow> None
            | Some False \<Rightarrow> Some (Inr (sc, st))
            | Some True \<Rightarrow>
                (case env_view e descriptor (unat (sh_pointer_to_raw_data s))
                        (coff_section_size s) of
                   None \<Rightarrow> Some (Inl st)
                 | Some debuglink_data \<Rightarrow>
                     (let crc_offset = length (takeWhile (\<lambda>c. c \<noteq> 0)
                                                 (take (coff_section_size s) debuglink_data));
                          crc_offset = (crc_offset + 3) div 4 * 4
                      in if crc_offset + 4 \<le> coff_section_size s
                         then (let debuglink_name = c_string debuglink_data;
                                   debuglink_crc = coff_read4 (drop crc_offset debuglink_data)
                               in Some (Inr (sc\<lparr>sc_debuglink_view_valid := True,
                                                sc_debuglink_name := Some debuglink_name,
                                                sc_debuglink_crc := debuglink_crc\<rparr>,
                                             error_callback
                                               (take 511 (''Found .gnu_debuglink: ''
                                                  @ debuglink_name @ '' CRC: 0x''
                                                  @ hex8 debuglink_crc @ '' (original: ''
                                                  @ filename @ '')''))
                                               0 st)))
                         else Some (Inr (sc\<lparr>sc_debuglink_view_valid := True\<rparr>, st))))))"

text \<open>The part that reads \<^verbatim>\<open>.gnu_debugaltlink\<close>.\<close>

definition coff_read_debugaltlink ::
  "'w env \<Rightarrow> int \<Rightarrow> byte list option \<Rightarrow> b_coff_section_header \<Rightarrow> uint32
   \<Rightarrow> coff_scan \<Rightarrow> 'w state \<Rightarrow> ('w state + coff_scan \<times> 'w state) option" where
  "coff_read_debugaltlink e descriptor str_view s str_off sc st =
     (if sc_debugaltlink_view_valid sc then Some (Inr (sc, st))
      else (case coff_section_name_eq ''.gnu_debugaltlink'' str_off str_view (sh_name s) of
              None \<Rightarrow> None
            | Some False \<Rightarrow> Some (Inr (sc, st))
            | Some True \<Rightarrow>
                (case env_view e descriptor (unat (sh_pointer_to_raw_data s))
                        (coff_section_size s) of
                   None \<Rightarrow> Some (Inl st)
                 | Some debugaltlink_data \<Rightarrow>
                     Some (Inr (sc\<lparr>sc_debugaltlink_view_valid := True,
                                   sc_debugaltlink_name := Some (c_string debugaltlink_data)\<rparr>,
                                st)))))"

text \<open>The inner loop over \<open>j\<close> for one section header: a debug section that matches is
  recorded and ends the loop; otherwise the two link sections are looked for, at every
  \<open>j\<close>. \<^verbatim>\<open>str_off\<close> is assigned the same value again inside the loop.\<close>

function coff_section_j_loop ::
  "'w env \<Rightarrow> string \<Rightarrow> int \<Rightarrow> byte list option \<Rightarrow> b_coff_section_header \<Rightarrow> uint32 \<Rightarrow> nat
   \<Rightarrow> coff_scan \<Rightarrow> 'w state \<Rightarrow> ('w state + coff_scan \<times> 'w state) option" where
  "coff_section_j_loop e filename descriptor str_view s str_off j sc st =
     (if j < 9
      then (case coff_section_name_eq (coff_debug_section_names ! j) str_off str_view
                   (sh_name s) of
              None \<Rightarrow> None
            | Some True \<Rightarrow>
                Some (Inr (sc\<lparr>sc_sections := (sc_sections sc)
                                [j := (unat (sh_pointer_to_raw_data s), coff_section_size s)]\<rparr>,
                           st))
            | Some False \<Rightarrow>
                (case coff_read_debuglink e filename descriptor str_view s str_off sc st of
                   None \<Rightarrow> None
                 | Some (Inl st1) \<Rightarrow> Some (Inl st1)
                 | Some (Inr (sc1, st1)) \<Rightarrow>
                     (case coff_read_debugaltlink e descriptor str_view s str_off sc1 st1 of
                        None \<Rightarrow> None
                      | Some (Inl st2) \<Rightarrow> Some (Inl st2)
                      | Some (Inr (sc2, st2)) \<Rightarrow>
                          coff_section_j_loop e filename descriptor str_view s str_off
                            (j + 1) sc2 st2)))
      else Some (Inr (sc, st)))"
  by pat_completeness auto

termination
  by (relation "measure (\<lambda>(e, filename, descriptor, str_view, s, str_off, j, sc, st). 9 - j)")
    auto

declare coff_section_j_loop.simps [simp del]

text \<open>The loop over the section headers, which start \<open>opt_size\<close> bytes into the view. A
  name that starts with \<^verbatim>\<open>/\<close> is an offset into the string table, read by \<^verbatim>\<open>atoi\<close> from
  the bytes after the \<^verbatim>\<open>/\<close>.\<close>

function coff_sections_loop ::
  "'w env \<Rightarrow> string \<Rightarrow> int \<Rightarrow> byte list \<Rightarrow> nat \<Rightarrow> nat \<Rightarrow> byte list option \<Rightarrow> nat
   \<Rightarrow> coff_scan \<Rightarrow> 'w state \<Rightarrow> ('w state + coff_scan \<times> 'w state) option" where
  "coff_sections_loop e filename descriptor sects_view opt_size sects_num str_view i sc st =
     (if i < sects_num
      then (let s = coff_section_header_at sects_view (opt_size + i * 40);
                str_off = (if sh_name s ! 0 = 0x2F
                           then word_of_int (atoi (drop (opt_size + i * 40 + 1) sects_view))
                           else 0)
            in case coff_section_j_loop e filename descriptor str_view s str_off 0 sc st of
                 None \<Rightarrow> None
               | Some (Inl st1) \<Rightarrow> Some (Inl st1)
               | Some (Inr (sc1, st1)) \<Rightarrow>
                   coff_sections_loop e filename descriptor sects_view opt_size sects_num
                     str_view (i + 1) sc1 st1)
      else Some (Inr (sc, st)))"
  by pat_completeness auto

termination
  by (relation "measure (\<lambda>(e, filename, descriptor, sects_view, opt_size, sects_num, str_view,
                           i, sc, st). sects_num - i)")
    auto

declare coff_sections_loop.simps [simp del]

text \<open>The start of \<^verbatim>\<open>coff_add\<close>: the offset of the file header from the MS-DOS stub
  (\<^verbatim>\<open>MZ\<close> and the word at \<^verbatim>\<open>0x3c\<close>, else 0), the \<^verbatim>\<open>PE\\0\\0\<close> signature and the file header.
  The result is the state at \<^verbatim>\<open>goto fail\<close>, or the header and the offset after the
  signature. Offsets are natural numbers: \<^verbatim>\<open>off_t\<close> holds every 32-bit offset.\<close>

definition coff_read_file_header ::
  "'w env \<Rightarrow> int \<Rightarrow> 'w state \<Rightarrow> 'w state + b_coff_file_header \<times> nat" where
  "coff_read_file_header e descriptor st =
     (case env_view e descriptor 0 0x40 of
        None \<Rightarrow> Inl st
      | Some vptr \<Rightarrow>
          (let fhdr_off = (if vptr ! 0 = 0x4D \<and> vptr ! 1 = 0x5A
                           then unat (coff_read4 (drop 0x3c vptr)) else 0)
           in case env_view e descriptor fhdr_off (20 + 4) of
                None \<Rightarrow> Inl st
              | Some fhdr_view \<Rightarrow>
                  (let magic_ok = (fhdr_off \<noteq> 0 \<and> take 4 fhdr_view = [0x50, 0x45, 0, 0]);
                       fhdr = coff_file_header_of
                                (if fhdr_off \<noteq> 0 then drop 4 fhdr_view else fhdr_view)
                   in if \<not> magic_ok
                      then Inl (error_callback ''executable file is not COFF'' 0 st)
                      else Inr (fhdr, fhdr_off + 4))))"

text \<open>The optional header and the section headers: their view, \<^verbatim>\<open>is_64\<close> and the image
  base. \<^verbatim>\<open>sizeof (b_coff_optional_header)\<close> is 32, with \<^verbatim>\<open>u.pe.image_base\<close> at offset 28
  and \<^verbatim>\<open>u.pep.image_base\<close> at offset 24.\<close>

definition coff_read_optional_header ::
  "'a::len word env \<Rightarrow> int \<Rightarrow> b_coff_file_header \<Rightarrow> nat \<Rightarrow> 'a word state
   \<Rightarrow> 'a word state + byte list \<times> bool \<times> 'a word" where
  "coff_read_optional_header e descriptor fhdr fhdr_off st =
     (let sects_num = unat (fh_number_of_sections fhdr);
          opt_sects_off = fhdr_off + 20;
          opt_sects_size = unat (fh_size_of_optional_header fhdr) + sects_num * 40
      in case env_view e descriptor opt_sects_off opt_sects_size of
           None \<Rightarrow> Inl st
         | Some sects_view \<Rightarrow>
             if unat (fh_size_of_optional_header fhdr) > 32
             then (if coff_read2 sects_view = 0x10b
                   then Inr (sects_view, False, ucast (coff_read4 (drop 28 sects_view)))
                   else if coff_read2 sects_view = 0x20b
                   then Inr (sects_view, True, ucast (host_u64 False sects_view 24))
                   else Inl (error_callback ''bad magic in PE optional header'' 0 st))
             else Inr (sects_view, False, 0))"

text \<open>The symbol table and the string table: \<^verbatim>\<open>syms_num\<close>, \<^verbatim>\<open>syms_size\<close> (the product
  \<^verbatim>\<open>syms_num * SYM_SZ\<close> is computed in \<^verbatim>\<open>unsigned int\<close>, 32 bits), the view of the symbols,
  \<^verbatim>\<open>str_size\<close> and the view of the string table when it is mapped.\<close>

definition coff_read_tables ::
  "'w env \<Rightarrow> int \<Rightarrow> b_coff_file_header \<Rightarrow> 'w state
   \<Rightarrow> 'w state + nat \<times> nat \<times> byte list \<times> nat \<times> byte list option" where
  "coff_read_tables e descriptor fhdr st =
     (if fh_pointer_to_symbol_table fhdr = 0 then Inr (0, 0, [], 0, None)
      else (let syms_off = unat (fh_pointer_to_symbol_table fhdr);
                syms_size = unat (fh_number_of_symbols fhdr * 18)
            in case env_view e descriptor syms_off (syms_size + 4) of
                 None \<Rightarrow> Inl st
               | Some syms_view \<Rightarrow>
                   (let str_size = unat (coff_read4 (drop syms_size syms_view))
                    in if str_size > 4
                       then (case env_view e descriptor (syms_off + syms_size) str_size of
                               None \<Rightarrow> Inl st
                             | Some str_view \<Rightarrow>
                                 Inr (unat (fh_number_of_symbols fhdr), syms_size, syms_view,
                                      str_size, Some str_view))
                       else Inr (unat (fh_number_of_symbols fhdr), syms_size, syms_view,
                                 str_size, None))))"

text \<open>The symbol table stage of \<^verbatim>\<open>coff_add\<close>: when the file has symbols, allocate
  \<^verbatim>\<open>struct coff_syminfo_data\<close> (three words of the pointer width), fill it with
  \<^verbatim>\<open>coff_initialize_syminfo\<close> and append it to the list of the state
  (\<^verbatim>\<open>coff_add_syminfo_data\<close>). The result is \<^verbatim>\<open>*found_sym\<close> and the state, \<open>Inl\<close> at
  \<^verbatim>\<open>goto fail\<close>, \<open>None\<close> when \<^verbatim>\<open>coff_initialize_syminfo\<close> does not return. A string table
  that was not mapped is passed as the empty list.\<close>

definition coff_syminfo_stage ::
  "'a::len word env \<Rightarrow> 'a word coff_symbol_layout \<Rightarrow> 'a word \<Rightarrow> bool \<Rightarrow> byte list \<Rightarrow> nat
   \<Rightarrow> nat \<Rightarrow> nat \<Rightarrow> nat \<Rightarrow> byte list \<Rightarrow> nat \<Rightarrow> byte list option \<Rightarrow> 'a word state
   \<Rightarrow> ('a word state + bool \<times> 'a word state) option" where
  "coff_syminfo_stage e lay image_base is_64 sects_view opt_size sects_num syms_num syms_size
     syms_view str_size str_view st =
     (if syms_num \<noteq> 0
      then (if \<not> env_alloc e (3 * (LENGTH('a) div 8)) then Some (Inl st)
            else (case coff_initialize_syminfo (env_alloc e) lay image_base is_64
                         (map (\<lambda>i. coff_section_header_at sects_view (opt_size + i * 40))
                            [0..<sects_num])
                         sects_num
                         (map (\<lambda>i. coff_external_symbol_at syms_view (i * 18))
                            [0..<syms_size div 18])
                         syms_size
                         (case str_view of None \<Rightarrow> [] | Some v \<Rightarrow> v)
                         str_size of
                    None \<Rightarrow> None
                  | Some (Init_failed errs) \<Rightarrow> Some (Inl (st\<lparr>st_errors := st_errors st @ errs\<rparr>))
                  | Some (Init_ok sdata) \<Rightarrow>
                      Some (Inr (True, st\<lparr>st_syminfo_data := st_syminfo_data st @ [sdata]\<rparr>))))
      else Some (Inr (False, st)))"

text \<open>\<^verbatim>\<open>coff_add\<close> up to the release of the views of the section headers and of the
  symbols: headers, tables, section loop, symbol table. The result is what the later
  stages use: the gathered sections and links, the image base and \<^verbatim>\<open>*found_sym\<close>.\<close>

definition coff_scan_file ::
  "'a::len word env \<Rightarrow> 'a word coff_symbol_layout \<Rightarrow> string \<Rightarrow> int \<Rightarrow> 'a word state
   \<Rightarrow> ('a word state + coff_scan \<times> 'a word \<times> bool \<times> 'a word state) option" where
  "coff_scan_file e lay filename descriptor st =
     (case coff_read_file_header e descriptor st of
        Inl st1 \<Rightarrow> Some (Inl st1)
      | Inr (fhdr, fhdr_off) \<Rightarrow>
          (case coff_read_optional_header e descriptor fhdr fhdr_off st of
             Inl st1 \<Rightarrow> Some (Inl st1)
           | Inr (sects_view, is_64, image_base) \<Rightarrow>
               (case coff_read_tables e descriptor fhdr st of
                  Inl st1 \<Rightarrow> Some (Inl st1)
                | Inr (syms_num, syms_size, syms_view, str_size, str_view) \<Rightarrow>
                    (case coff_sections_loop e filename descriptor sects_view
                            (unat (fh_size_of_optional_header fhdr))
                            (unat (fh_number_of_sections fhdr)) str_view 0
                            \<lparr>sc_sections = replicate 9 (0, 0), sc_debuglink_name = None,
                             sc_debuglink_crc = 0, sc_debuglink_view_valid = False,
                             sc_debugaltlink_name = None,
                             sc_debugaltlink_view_valid = False\<rparr> st of
                       None \<Rightarrow> None
                     | Some (Inl st1) \<Rightarrow> Some (Inl st1)
                     | Some (Inr (sc, st1)) \<Rightarrow>
                         (case coff_syminfo_stage e lay image_base is_64 sects_view
                                 (unat (fh_size_of_optional_header fhdr))
                                 (unat (fh_number_of_sections fhdr)) syms_num syms_size
                                 syms_view str_size str_view st1 of
                            None \<Rightarrow> None
                          | Some (Inl st2) \<Rightarrow> Some (Inl st2)
                          | Some (Inr (found_sym, st2)) \<Rightarrow>
                              Some (Inr (sc, image_base, found_sym, st2)))))))"

text \<open>The values \<^verbatim>\<open>coff_add\<close> stores through its pointers: \<^verbatim>\<open>*fileline_fn\<close> (\<open>None\<close> while
  nothing is stored), \<^verbatim>\<open>*found_sym\<close> and \<^verbatim>\<open>*found_dwarf\<close>.\<close>

datatype fileline = Coff_nodebug | Dwarf_fileline

record coff_outputs =
  out_fileline_fn :: "fileline option"
  out_found_sym :: bool
  out_found_dwarf :: bool

text \<open>The label \<^verbatim>\<open>fail\<close> of \<^verbatim>\<open>coff_add\<close>: releasing views leaves the state as it is; the
  descriptor is closed unless it is \<open>-1\<close>.\<close>

definition coff_fail :: "int \<Rightarrow> 'w state \<Rightarrow> 'w state" where
  "coff_fail descriptor st = (if descriptor \<noteq> - 1 then backtrace_close descriptor st else st)"

text \<open>The smallest offset and the largest end of the debug sections that are not
  empty.\<close>

definition coff_debug_range :: "(nat \<times> nat) list \<Rightarrow> nat \<times> nat" where
  "coff_debug_range sections =
     foldl (\<lambda>(min_offset, max_offset) (off, sz).
              if sz = 0 then (min_offset, max_offset)
              else (if min_offset = 0 \<or> off < min_offset then off else min_offset,
                    if off + sz > max_offset then off + sz else max_offset))
       (0, 0) sections"

text \<open>The end of \<^verbatim>\<open>coff_add\<close>, on the debug sections embedded in the file itself. Without
  debug sections the file line function is \<^verbatim>\<open>coff_nodebug\<close>. Otherwise the sections are
  mapped in one view, the descriptor is closed and the sections are passed to
  \<^verbatim>\<open>backtrace_dwarf_add\<close>, with the base address \<^verbatim>\<open>module_handle - image_base\<close> under
  \<^verbatim>\<open>HAVE_WINDOWS_H\<close> and 0 otherwise. \<^verbatim>\<open>backtrace_close\<close> records its call whether or not
  it succeeds.\<close>

definition coff_add_embedded ::
  "bool \<Rightarrow> 'a::len word env \<Rightarrow> int \<Rightarrow> coff_scan \<Rightarrow> 'a word \<Rightarrow> coff_outputs \<Rightarrow> 'a word
   \<Rightarrow> 'a word state \<Rightarrow> int \<times> coff_outputs \<times> 'a word state" where
  "coff_add_embedded have_windows_h e descriptor sc image_base outs module_handle st =
     (case coff_debug_range (sc_sections sc) of
        (min_offset, max_offset) \<Rightarrow>
          if min_offset = 0 \<or> max_offset = 0
          then (if \<not> env_close e descriptor
                then (0, outs, coff_fail descriptor (backtrace_close descriptor st))
                else (1, outs\<lparr>out_fileline_fn := Some Coff_nodebug\<rparr>,
                      backtrace_close descriptor st))
          else (case env_view e descriptor min_offset (max_offset - min_offset) of
                  None \<Rightarrow> (0, outs, coff_fail descriptor st)
                | Some debug_view \<Rightarrow>
                    if \<not> env_close e descriptor
                    then (0, outs, coff_fail descriptor (backtrace_close descriptor st))
                    else (let st1 = backtrace_close descriptor st;
                              secs = map (\<lambda>(off, sz).
                                            (if sz = 0 then None
                                             else Some (drop (off - min_offset) debug_view), sz))
                                       (sc_sections sc);
                              base_address = (if have_windows_h then module_handle - image_base
                                              else 0)
                          in if \<not> env_dwarf_add e base_address secs False then (0, outs, st1)
                             else (1, outs\<lparr>out_fileline_fn := Some Dwarf_fileline,
                                            out_found_dwarf := True\<rparr>,
                                   st1\<lparr>st_dwarf := st_dwarf st1
                                          @ [(base_address, secs, False)]\<rparr>))))"

text \<open>The \<^verbatim>\<open>.gnu_debugaltlink\<close> stage. \<open>rec\<close> is the recursive call of \<^verbatim>\<open>coff_add\<close> on a
  file name, a descriptor, the outputs and the state. The file is opened without a CRC
  check (the CRC passed is 0). When it is parsed with success its result is returned and
  the descriptor of the primary file is closed; otherwise the embedded sections are
  used.\<close>

definition coff_debugaltlink_stage ::
  "(string \<Rightarrow> int \<Rightarrow> coff_outputs \<Rightarrow> 'a word state \<Rightarrow> (int \<times> coff_outputs \<times> 'a word state) option)
   \<Rightarrow> bool \<Rightarrow> 'a::len word env \<Rightarrow> string \<Rightarrow> int \<Rightarrow> coff_scan \<Rightarrow> 'a word \<Rightarrow> coff_outputs
   \<Rightarrow> 'a word \<Rightarrow> 'a word state \<Rightarrow> (int \<times> coff_outputs \<times> 'a word state) option" where
  "coff_debugaltlink_stage rec have_windows_h e filename descriptor sc image_base outs
     module_handle st =
     (case sc_debugaltlink_name sc of
        None \<Rightarrow>
          Some (coff_add_embedded have_windows_h e descriptor sc image_base outs module_handle st)
      | Some debugaltlink_name \<Rightarrow>
          (case coff_open_debugfile_by_debuglink have_windows_h e filename debugaltlink_name 0
                  st of
             (d, st1) \<Rightarrow>
               if d \<ge> 0
               then (case rec filename d outs st1 of
                       None \<Rightarrow> None
                     | Some (ret, outs2, st2) \<Rightarrow>
                         if ret \<le> 0
                         then Some (coff_add_embedded have_windows_h e descriptor sc image_base
                                      outs2 module_handle
                                      (backtrace_close d
                                         (error_callback
                                            (take 511
                                               (''Failed to parse external debugaltlink file ''
                                                @ [CHR 0x27] @ debugaltlink_name @ [CHR 0x27]
                                                @ '' for '' @ filename
                                                @ ''; falling back to embedded DWARF''))
                                            0 st2)))
                         else Some (ret, outs2,
                                    if descriptor \<ge> 0 then backtrace_close descriptor st2
                                    else st2))
               else Some (coff_add_embedded have_windows_h e descriptor sc image_base outs
                            module_handle
                            (error_callback
                               (take 511
                                  (''Could not open/validate external debugaltlink file ''
                                   @ [CHR 0x27] @ debugaltlink_name @ [CHR 0x27] @ '' for ''
                                   @ filename
                                   @ ''; falling back to embedded DWARF if present''))
                               0 st1))))"

text \<open>The \<^verbatim>\<open>.gnu_debuglink\<close> stage: the file is opened with the CRC of the section; when
  that fails, or the file is not parsed with success, the next stage follows.\<close>

definition coff_debuglink_stage ::
  "(string \<Rightarrow> int \<Rightarrow> coff_outputs \<Rightarrow> 'a word state \<Rightarrow> (int \<times> coff_outputs \<times> 'a word state) option)
   \<Rightarrow> bool \<Rightarrow> 'a::len word env \<Rightarrow> string \<Rightarrow> int \<Rightarrow> coff_scan \<Rightarrow> 'a word \<Rightarrow> coff_outputs
   \<Rightarrow> 'a word \<Rightarrow> 'a word state \<Rightarrow> (int \<times> coff_outputs \<times> 'a word state) option" where
  "coff_debuglink_stage rec have_windows_h e filename descriptor sc image_base outs
     module_handle st =
     (case sc_debuglink_name sc of
        None \<Rightarrow>
          coff_debugaltlink_stage rec have_windows_h e filename descriptor sc image_base outs
            module_handle st
      | Some debuglink_name \<Rightarrow>
          (case coff_open_debugfile_by_debuglink have_windows_h e filename debuglink_name
                  (sc_debuglink_crc sc) st of
             (d, st1) \<Rightarrow>
               if d \<ge> 0
               then (case rec debuglink_name d outs
                            (error_callback
                               (take 511
                                  (''Using external debug file specified in .gnu_debuglink: ''
                                   @ debuglink_name))
                               0 st1) of
                       None \<Rightarrow> None
                     | Some (ret, outs2, st2) \<Rightarrow>
                         if ret \<le> 0
                         then coff_debugaltlink_stage rec have_windows_h e filename descriptor
                                sc image_base outs2 module_handle
                                (backtrace_close d
                                   (error_callback
                                      (take 511
                                         (''Failed to parse external debug file ''
                                          @ [CHR 0x27] @ debuglink_name @ [CHR 0x27]
                                          @ '' specified in .gnu_debuglink for '' @ filename
                                          @ ''; falling back to embedded DWARF''))
                                      0 st2))
                         else Some (ret, outs2,
                                    if descriptor \<ge> 0 then backtrace_close descriptor st2
                                    else st2))
               else coff_debugaltlink_stage rec have_windows_h e filename descriptor sc
                      image_base outs module_handle
                      (error_callback
                         (take 511
                            (''Could not open/validate external debug file ''
                             @ [CHR 0x27] @ debuglink_name @ [CHR 0x27]
                             @ '' from .gnu_debuglink for '' @ filename
                             @ ''; falling back to embedded DWARF if present''))
                         0 st1)))"

text \<open>\<^verbatim>\<open>coff_add\<close>. It calls itself on the separate debug files, which can name further
  files without end: the first argument after the layout bounds the depth of these calls,
  and \<open>None\<close> is no return within that depth (or an undefined read, or \<^verbatim>\<open>abort\<close>). The
  result is the value returned, what was stored through the pointers, and the state.\<close>

fun coff_add ::
  "bool \<Rightarrow> 'a::len word env \<Rightarrow> 'a word coff_symbol_layout \<Rightarrow> nat \<Rightarrow> string \<Rightarrow> int
   \<Rightarrow> coff_outputs \<Rightarrow> 'a word \<Rightarrow> 'a word state \<Rightarrow> (int \<times> coff_outputs \<times> 'a word state) option" where
  "coff_add have_windows_h e lay 0 filename descriptor outs module_handle st = None"
| "coff_add have_windows_h e lay (Suc depth) filename descriptor outs module_handle st =
     (case coff_scan_file e lay filename descriptor st of
        None \<Rightarrow> None
      | Some (Inl st1) \<Rightarrow>
          Some (0, outs\<lparr>out_found_sym := False, out_found_dwarf := False\<rparr>,
                coff_fail descriptor st1)
      | Some (Inr (sc, image_base, found_sym, st1)) \<Rightarrow>
          coff_debuglink_stage
            (\<lambda>name d outs1 st2. coff_add have_windows_h e lay depth name d outs1 module_handle st2)
            have_windows_h e filename descriptor sc image_base
            (outs\<lparr>out_found_sym := found_sym, out_found_dwarf := False\<rparr>) module_handle st1)"

text \<open>Example files: an MS-DOS stub that points at offset \<open>0x40\<close>, the signature and the
  file header, and an executable with one section named \<^verbatim>\<open>/4\<close>, that is
  \<^verbatim>\<open>.gnu_debuglink\<close> through the string table, which holds the name \<^verbatim>\<open>a.debug\<close> and a
  CRC; its symbol table has the function \<^verbatim>\<open>_f\<close>. The candidate \<^verbatim>\<open>a.debug\<close> opens with
  descriptor 5 and holds the byte \<^verbatim>\<open>a\<close>, of CRC \<open>0xe8b7be43\<close>.\<close>

definition le16 :: "uint16 \<Rightarrow> byte list" where
  "le16 w = map (\<lambda>k. ucast (drop_bit (8 * k) w)) [0..<2]"

definition ascii :: "string \<Rightarrow> byte list" where
  "ascii s = map (\<lambda>c. of_nat (of_char c)) s"

definition example_dos_stub :: "byte list" where
  "example_dos_stub = ascii ''MZ'' @ replicate 58 0 @ le32 0x40"

definition example_pe_header :: "uint16 \<Rightarrow> uint32 \<Rightarrow> uint32 \<Rightarrow> uint16 \<Rightarrow> byte list" where
  "example_pe_header sects_num syms_off syms_num opt_size =
     ascii ''PE'' @ [0, 0] @ le16 0x8664 @ le16 sects_num @ le32 0 @ le32 syms_off
     @ le32 syms_num @ le16 opt_size @ le16 0"

definition example_debuglink_exe :: "uint32 \<Rightarrow> byte list" where
  "example_debuglink_exe crc =
     example_dos_stub @ example_pe_header 1 0x8C 1 0
     @ ascii ''/4'' @ replicate 6 0 @ le32 12 @ le32 0x1000 @ le32 12 @ le32 0x80 @ le32 0
     @ le32 0 @ le16 0 @ le16 0 @ le32 0
     @ ascii ''a.debug'' @ [0] @ le32 crc
     @ ascii ''_f'' @ replicate 6 0 @ le32 0x10 @ le16 1 @ le16 0x20 @ [2, 0]
     @ le32 19 @ ascii ''.gnu_debuglink'' @ [0]"

definition example_debuglink_env :: "uint32 \<Rightarrow> uint64 env" where
  "example_debuglink_env crc =
     file_env (\<lambda>name. if name = ''a.debug'' then 5 else - 1)
       (\<lambda>descriptor. if descriptor = 3 then example_debuglink_exe crc
                      else if descriptor = 5 then [0x61] else [])"

definition example_outputs :: coff_outputs where
  "example_outputs = \<lparr>out_fileline_fn = None, out_found_sym = False, out_found_dwarf = False\<rparr>"

text \<open>What the scan of the example finds, and the table it builds.\<close>

definition example_debuglink_scan :: "uint32 \<Rightarrow> coff_scan" where
  "example_debuglink_scan crc =
     \<lparr>sc_sections = replicate 9 (0, 0), sc_debuglink_name = Some ''a.debug'',
      sc_debuglink_crc = crc, sc_debuglink_view_valid = True, sc_debugaltlink_name = None,
      sc_debugaltlink_view_valid = False\<rparr>"

definition example_debuglink_sdata :: "64 word coff_syminfo_data" where
  "example_debuglink_sdata =
     \<lparr>sd_symbols = [\<lparr>sym_name = Some [0x66], sym_address = 0x1010\<rparr>,
                    \<lparr>sym_name = None, sym_address = - 1\<rparr>],
      sd_count = 1\<rparr>"

text \<open>The state after the scan of the example, and the state after the candidate is
  rejected.\<close>

definition example_debuglink_scanned :: "uint64 state" where
  "example_debuglink_scanned =
     \<lparr>st_errors = [(''Found .gnu_debuglink: a.debug CRC: 0x12345678 (original: a.exe)'', 0)],
      st_closed = [], st_syminfo_data = [example_debuglink_sdata], st_dwarf = []\<rparr>"

definition example_debuglink_rejected :: "uint64 state" where
  "example_debuglink_rejected =
     \<lparr>st_errors = [(''Found .gnu_debuglink: a.debug CRC: 0x12345678 (original: a.exe)'', 0),
                   (''CRC mismatch for a.exe: got 0xe8b7be43 expected 0x12345678'', 0),
                   (''Could not open/validate external debug file '' @ [CHR 0x27] @ ''a.debug''
                    @ [CHR 0x27] @ '' from .gnu_debuglink for a.exe; falling back to embedded ''
                    @ ''DWARF if present'', 0)],
      st_closed = [5], st_syminfo_data = [example_debuglink_sdata], st_dwarf = []\<rparr>"

text \<open>Two files without a valid header: a stub that points at bytes that are not the
  signature, and a file whose optional header, of 40 bytes, starts with \<open>0x999\<close>.\<close>

definition example_bad_signature :: "byte list" where
  "example_bad_signature = example_dos_stub @ replicate 24 0"

definition example_bad_magic :: "byte list" where
  "example_bad_magic = example_dos_stub @ example_pe_header 0 0 0 40 @ le16 0x999 @ replicate 38 0"

text \<open>A file with a valid signature whose optional header, of 32 bytes, starts with
  \<open>0x999\<close>.\<close>

definition example_small_optional_header :: "byte list" where
  "example_small_optional_header =
     example_dos_stub @ example_pe_header 0 0 0 32 @ le16 0x999 @ replicate 30 0"

text \<open>The CRC a \<^verbatim>\<open>.gnu_debuglink\<close> section records, by the layout of the section: the
  file name, its NUL, padding up to the next multiple of 4, and then the CRC word.\<close>

definition gnu_debuglink_recorded_crc :: "byte list \<Rightarrow> uint32" where
  "gnu_debuglink_recorded_crc debuglink_data =
     coff_read4 (drop ((length (takeWhile (\<lambda>c. c \<noteq> 0) debuglink_data) + 1 + 3) div 4 * 4)
                   debuglink_data)"

text \<open>An executable whose \<^verbatim>\<open>.gnu_debuglink\<close> section holds a name of 8 characters,
  \<^verbatim>\<open>main.dbg\<close>, its NUL and three bytes of padding, and the CRC; and a candidate
  \<^verbatim>\<open>main.dbg\<close>, a PE file without sections, which opens with descriptor 5.\<close>

definition example_debuglink_section_8 :: "uint32 \<Rightarrow> byte list" where
  "example_debuglink_section_8 crc = ascii ''main.dbg'' @ [0, 0, 0, 0] @ le32 crc"

definition example_debuglink_exe_8 :: "uint32 \<Rightarrow> byte list" where
  "example_debuglink_exe_8 crc =
     example_dos_stub @ example_pe_header 1 0x90 0 0
     @ ascii ''/4'' @ replicate 6 0 @ le32 16 @ le32 0x1000 @ le32 16 @ le32 0x80 @ le32 0
     @ le32 0 @ le16 0 @ le16 0 @ le32 0
     @ example_debuglink_section_8 crc
     @ le32 19 @ ascii ''.gnu_debuglink'' @ [0]"

definition example_plain_pe :: "byte list" where
  "example_plain_pe = example_dos_stub @ example_pe_header 0 0 0 0"

definition example_debuglink_env_8 :: "uint32 \<Rightarrow> uint64 env" where
  "example_debuglink_env_8 crc =
     file_env (\<lambda>name. if name = ''main.dbg'' then 5 else - 1)
       (\<lambda>descriptor. if descriptor = 3 then example_debuglink_exe_8 crc
                      else if descriptor = 5 then example_plain_pe else [])"

text \<open>What the scan of that executable finds, the state after the scan, and the state
  when \<^verbatim>\<open>coff_add\<close> returns.\<close>

definition example_debuglink_scan_8 :: coff_scan where
  "example_debuglink_scan_8 =
     \<lparr>sc_sections = replicate 9 (0, 0), sc_debuglink_name = Some ''main.dbg'',
      sc_debuglink_crc = 0, sc_debuglink_view_valid = True, sc_debugaltlink_name = None,
      sc_debugaltlink_view_valid = False\<rparr>"

definition example_debuglink_scanned_8 :: "uint64 state" where
  "example_debuglink_scanned_8 =
     \<lparr>st_errors = [(''Found .gnu_debuglink: main.dbg CRC: 0x00000000 (original: a.exe)'', 0)],
      st_closed = [], st_syminfo_data = [], st_dwarf = []\<rparr>"

definition example_debuglink_used_8 :: "uint64 state" where
  "example_debuglink_used_8 =
     \<lparr>st_errors = [(''Found .gnu_debuglink: main.dbg CRC: 0x00000000 (original: a.exe)'', 0),
                   (''Using external debug file specified in .gnu_debuglink: main.dbg'', 0)],
      st_closed = [5, 3], st_syminfo_data = [], st_dwarf = []\<rparr>"

section \<open>Proofs: the debuglink CRC-32\<close>

lemma ref_crc32_bits_8:
  "ref_crc32_bits 8 c =
     ref_crc32_shift (ref_crc32_shift (ref_crc32_shift (ref_crc32_shift
       (ref_crc32_shift (ref_crc32_shift (ref_crc32_shift (ref_crc32_shift c)))))))"
  by (simp add: eval_nat_numeral)

lemma ref_crc32_shift_xor: "ref_crc32_shift (x XOR y) = ref_crc32_shift x XOR ref_crc32_shift y"
  by (simp add: ref_crc32_shift_def drop_bit_xor bit_xor_iff bit_eq_iff) (auto simp: bit_xor_iff)

lemma ref_crc32_bits_xor: "ref_crc32_bits n (x XOR y) = ref_crc32_bits n x XOR ref_crc32_bits n y"
  by (induction n arbitrary: x y) (simp_all add: ref_crc32_shift_xor)

lemma ref_crc32_bits_low_zero:
  "(\<forall>j<n. \<not> bit x j) \<Longrightarrow> ref_crc32_bits n x = drop_bit n x"
proof (induction n arbitrary: x)
  case 0
  then show ?case by simp
next
  case (Suc n)
  have s: "ref_crc32_shift x = drop_bit 1 x"
    using Suc.prems by (simp add: ref_crc32_shift_def)
  have "\<forall>j<n. \<not> bit (drop_bit 1 x) j"
    using Suc.prems by (simp add: bit_drop_bit_eq)
  then have "ref_crc32_bits n (drop_bit 1 x) = drop_bit n (drop_bit 1 x)"
    by (rule Suc.IH)
  then show ?case by (simp add: s)
qed

lemma split_low_byte: "(x :: uint32) = (x AND 0xff) XOR push_bit 8 (drop_bit 8 x)"
proof -
  have m: "(0xff :: uint32) = mask 8" by (simp add: mask_eq_exp_minus_1)
  show ?thesis
    unfolding m
    by (rule bit_eqI)
      (auto simp: bit_xor_iff bit_and_iff bit_mask_iff bit_push_bit_iff bit_drop_bit_eq)
qed

lemma ref_crc32_bits_8_split:
  "ref_crc32_bits 8 x = ref_crc32_bits 8 (x AND 0xff) XOR drop_bit 8 x"
proof -
  have "ref_crc32_bits 8 (push_bit 8 (drop_bit 8 x)) = drop_bit 8 (push_bit 8 (drop_bit 8 x))"
    by (rule ref_crc32_bits_low_zero) (simp add: bit_push_bit_iff)
  also have "\<dots> = drop_bit 8 x"
    by (rule bit_eqI) (auto simp: bit_drop_bit_eq bit_push_bit_iff dest: bit_imp_le_length)
  finally have h: "ref_crc32_bits 8 (push_bit 8 (drop_bit 8 x)) = drop_bit 8 x" .
  have "ref_crc32_bits 8 x = ref_crc32_bits 8 ((x AND 0xff) XOR push_bit 8 (drop_bit 8 x))"
    using split_low_byte [of x] by simp
  then show ?thesis by (simp add: ref_crc32_bits_xor h)
qed

lemma table_from_nth:
  "table_from i xs \<Longrightarrow> k < length xs \<Longrightarrow> xs ! k = ref_crc32_bits 8 (i + of_nat k)"
proof (induction xs arbitrary: i k)
  case Nil
  then show ?case by simp
next
  case (Cons x xs)
  show ?case
  proof (cases k)
    case 0
    with Cons.prems show ?thesis by simp
  next
    case (Suc k')
    with Cons.prems have "xs ! k' = ref_crc32_bits 8 (i + 1 + of_nat k')"
      by (intro Cons.IH) simp_all
    with Suc show ?thesis by (simp add: ac_simps)
  qed
qed

text \<open>Every one of the 256 entries of the source's table is the bitwise routine's
  result on its index.\<close>

lemma crc32_table_from_0: "table_from 0 crc32_table"
  unfolding crc32_table_def
  by (simp add: ref_crc32_shift_def ref_crc32_poly_def ref_crc32_bits_8)

lemma crc32_table_nth: "crc32_table ! unat (w AND 0xff) = ref_crc32_bits 8 (w AND 0xff)"
proof -
  have "unat (w AND 0xff) \<le> unat (0xff :: uint32)"
    by (rule word_and_le1 [THEN word_le_nat_alt [THEN iffD1]])
  then have "unat (w AND 0xff) < length crc32_table"
    by (simp add: crc32_table_def)
  from table_from_nth [OF crc32_table_from_0 this] show ?thesis by simp
qed

lemma drop_bit_8_ucast_byte: "drop_bit 8 (ucast (b :: byte) :: uint32) = 0"
  by (rule bit_eqI) (auto simp: bit_drop_bit_eq bit_ucast_iff dest: bit_imp_le_length)

lemma crc32_step:
  "(crc32_table ! unat ((crc XOR ucast b) AND 0xff)) XOR drop_bit 8 crc
     = ref_crc32_bits 8 (crc XOR ucast (b :: byte))"
proof -
  have "drop_bit 8 (crc XOR ucast b) = drop_bit 8 crc"
    by (simp add: drop_bit_xor drop_bit_8_ucast_byte)
  then show ?thesis
    using ref_crc32_bits_8_split [of "crc XOR ucast b"] by (simp add: crc32_table_nth)
qed

lemma crc32_loop_ref: "crc32_loop crc buf = ref_crc32_loop crc buf"
  by (induction buf arbitrary: crc) (simp_all add: crc32_step)

text \<open>Claim C2. For every byte string, \<^verbatim>\<open>coff_crc32\<close> started from \<open>crc = 0\<close> returns
  exactly the GNU debuglink CRC-32 of the string: the table-driven loop of the source,
  with the accumulator complemented on entry and the result complemented on return,
  equals the reference bitwise polynomial division with the reflected polynomial
  \<^verbatim>\<open>0xEDB88320\<close> on the same string.\<close>

theorem coff_crc32_is_gnu_debuglink_crc32:
  "coff_crc32 0 buf = ref_gnu_debuglink_crc32 buf"
  by (simp add: coff_crc32_def ref_gnu_debuglink_crc32_def crc32_loop_ref)

theorem coff_crc32_is_gnu_debuglink_crc32_witness:
  "coff_crc32 0 [0x61, 0x62, 0x63] = 0x352441C2"
  using coff_crc32_is_gnu_debuglink_crc32 [of "[0x61, 0x62, 0x63]"]
  by (simp add: ref_gnu_debuglink_crc32_def ref_crc32_bits_8 ref_crc32_shift_def
      ref_crc32_poly_def)

section \<open>Proofs: the in-place sort\<close>

lemma swap_length: "length (swap a b n m) = length m"
  by (induction n arbitrary: a b m) simp_all

lemma swap_nth_other:
  "a + n \<le> b \<Longrightarrow> b + n \<le> length m \<Longrightarrow> k < length m \<Longrightarrow>
   \<not> (a \<le> k \<and> k < a + n) \<Longrightarrow> \<not> (b \<le> k \<and> k < b + n) \<Longrightarrow>
   swap a b n m ! k = m ! k"
proof (induction n arbitrary: a b m)
  case 0
  then show ?case by simp
next
  case (Suc n)
  let ?m1 = "m[a := m ! b, b := m ! a]"
  have "swap (Suc a) (Suc b) n ?m1 ! k = ?m1 ! k"
    using Suc.prems by (intro Suc.IH) auto
  moreover have "k \<noteq> a" "k \<noteq> b" using Suc.prems by auto
  ultimately show ?case by simp
qed

lemma swap_nth_fst:
  "a + n \<le> b \<Longrightarrow> b + n \<le> length m \<Longrightarrow> t < n \<Longrightarrow> swap a b n m ! (a + t) = m ! (b + t)"
proof (induction n arbitrary: a b m t)
  case 0
  then show ?case by simp
next
  case (Suc n)
  let ?m1 = "m[a := m ! b, b := m ! a]"
  show ?case
  proof (cases t)
    case 0
    have "swap (Suc a) (Suc b) n ?m1 ! a = ?m1 ! a"
      using Suc.prems by (intro swap_nth_other) auto
    also have "\<dots> = m ! b" using Suc.prems by (simp add: nth_list_update)
    finally show ?thesis using 0 by simp
  next
    case (Suc t')
    have "swap (Suc a) (Suc b) n ?m1 ! (Suc a + t') = ?m1 ! (Suc b + t')"
      using Suc.prems Suc by (intro Suc.IH) auto
    also have "\<dots> = m ! (Suc b + t')" using Suc.prems Suc by (simp add: nth_list_update)
    finally show ?thesis using Suc by simp
  qed
qed

lemma swap_nth_snd:
  "a + n \<le> b \<Longrightarrow> b + n \<le> length m \<Longrightarrow> t < n \<Longrightarrow> swap a b n m ! (b + t) = m ! (a + t)"
proof (induction n arbitrary: a b m t)
  case 0
  then show ?case by simp
next
  case (Suc n)
  let ?m1 = "m[a := m ! b, b := m ! a]"
  show ?case
  proof (cases t)
    case 0
    have "swap (Suc a) (Suc b) n ?m1 ! b = ?m1 ! b"
      using Suc.prems by (intro swap_nth_other) auto
    also have "\<dots> = m ! a" using Suc.prems by (simp add: nth_list_update)
    finally show ?thesis using 0 by simp
  next
    case (Suc t')
    have "swap (Suc a) (Suc b) n ?m1 ! (Suc b + t') = ?m1 ! (Suc a + t')"
      using Suc.prems Suc by (intro Suc.IH) auto
    also have "\<dots> = m ! (Suc a + t')" using Suc.prems Suc by (simp add: nth_list_update)
    finally show ?thesis using Suc by simp
  qed
qed

lemma idx_bound: "(k::nat) < cnt \<Longrightarrow> k * sz + sz \<le> cnt * sz"
proof -
  assume "k < cnt"
  then have "Suc k * sz \<le> cnt * sz" by (intro mult_le_mono1) simp
  then show ?thesis by (simp add: ac_simps)
qed

lemma idx_range:
  "(t::nat) < sz \<Longrightarrow> (i * sz \<le> k * sz + t \<and> k * sz + t < i * sz + sz) \<longleftrightarrow> k = i"
proof -
  assume t: "t < sz"
  consider "k < i" | "k = i" | "i < k" by linarith
  then show ?thesis
  proof cases
    case 1
    then have "k * sz + sz \<le> i * sz" by (rule idx_bound)
    with t 1 show ?thesis by simp
  next
    case 2
    with t show ?thesis by simp
  next
    case 3
    then have "i * sz + sz \<le> k * sz" by (rule idx_bound)
    with t 3 show ?thesis by simp
  qed
qed

lemma length_elem: "off + sz \<le> length m \<Longrightarrow> length (elem sz m off) = sz"
  by (simp add: elem_def)

lemma nth_elem: "off + sz \<le> length m \<Longrightarrow> t < sz \<Longrightarrow> elem sz m off ! t = m ! (off + t)"
  by (simp add: elem_def)

lemma length_elems: "length (elems sz cnt m) = cnt"
  by (simp add: elems_def)

lemma nth_elems: "k < cnt \<Longrightarrow> elems sz cnt m ! k = elem sz m (k * sz)"
  by (simp add: elems_def)

lemma elem_swap:
  assumes "i < j" "j < cnt" "length m = cnt * sz" "k < cnt"
  shows "elem sz (swap (i * sz) (j * sz) sz m) (k * sz) =
     (if k = i then elem sz m (j * sz) else if k = j then elem sz m (i * sz)
      else elem sz m (k * sz))"
proof -
  let ?m' = "swap (i * sz) (j * sz) sz m"
  have bk: "k * sz + sz \<le> length m" and bi: "i * sz + sz \<le> length m"
    and bj: "j * sz + sz \<le> length m" and bij: "i * sz + sz \<le> j * sz"
    using assms by (simp_all add: idx_bound)
  have len: "length ?m' = length m" by (rule swap_length)
  show ?thesis
  proof (rule nth_equalityI)
    show "length (elem sz ?m' (k * sz)) =
       length (if k = i then elem sz m (j * sz) else if k = j then elem sz m (i * sz)
               else elem sz m (k * sz))"
      using bk bi bj len by (simp add: length_elem)
  next
    fix t assume "t < length (elem sz ?m' (k * sz))"
    then have t: "t < sz" using bk len by (simp add: length_elem)
    have "elem sz ?m' (k * sz) ! t = ?m' ! (k * sz + t)"
      using bk len t by (simp add: nth_elem)
    also have "\<dots> = (if k = i then m ! (j * sz + t) else if k = j then m ! (i * sz + t)
                      else m ! (k * sz + t))"
    proof -
      consider "k = i" | "k = j" | "k \<noteq> i" "k \<noteq> j" by blast
      then show ?thesis
      proof cases
        case 1
        then show ?thesis using swap_nth_fst [OF bij bj t] by simp
      next
        case 2
        then show ?thesis using swap_nth_snd [OF bij bj t] assms by simp
      next
        case 3
        have "?m' ! (k * sz + t) = m ! (k * sz + t)"
          using bij bj bk t 3 by (intro swap_nth_other) (simp_all add: idx_range [OF t])
        with 3 show ?thesis by simp
      qed
    qed
    also have "\<dots> = (if k = i then elem sz m (j * sz) else if k = j then elem sz m (i * sz)
               else elem sz m (k * sz)) ! t"
      using bk bi bj t by (simp add: nth_elem)
    finally show "elem sz ?m' (k * sz) ! t =
       (if k = i then elem sz m (j * sz) else if k = j then elem sz m (i * sz)
               else elem sz m (k * sz)) ! t" .
  qed
qed

lemma elems_swap:
  assumes "i < j" "j < cnt" "length m = cnt * sz"
  shows "elems sz cnt (swap (i * sz) (j * sz) sz m) =
     (elems sz cnt m)[i := elems sz cnt m ! j, j := elems sz cnt m ! i]"
proof (rule nth_equalityI)
  show "length (elems sz cnt (swap (i * sz) (j * sz) sz m)) =
     length ((elems sz cnt m)[i := elems sz cnt m ! j, j := elems sz cnt m ! i])"
    by (simp add: length_elems)
next
  fix k assume "k < length (elems sz cnt (swap (i * sz) (j * sz) sz m))"
  then have k: "k < cnt" by (simp add: length_elems)
  have i: "i < cnt" using assms by simp
  show "elems sz cnt (swap (i * sz) (j * sz) sz m) ! k =
     (elems sz cnt m)[i := elems sz cnt m ! j, j := elems sz cnt m ! i] ! k"
    using k i assms elem_swap [OF assms k]
    by (auto simp: nth_elems nth_list_update length_elems)
qed

lemma mset_elems_swap:
  assumes "i < j" "j < cnt" "length m = cnt * sz"
  shows "mset (elems sz cnt (swap (i * sz) (j * sz) sz m)) = mset (elems sz cnt m)"
proof -
  have "i < length (elems sz cnt m)" "j < length (elems sz cnt m)"
    using assms by (simp_all add: length_elems)
  then have "mset ((elems sz cnt m)[i := elems sz cnt m ! j, j := elems sz cnt m ! i])
      = mset (elems sz cnt m)"
    by (simp add: mset_swap)
  then show ?thesis by (simp add: elems_swap [OF assms])
qed

lemma next_dist_le: "next_dist d \<le> d div 8 * 3 + 1"
  unfolding next_dist_def or_one_eq by simp

lemma next_dist_pos: "0 < next_dist d"
  unfolding next_dist_def or_one_eq by (cases "even (d div 8 * 3)") (auto elim: oddE)

lemma next_dist_less: "2 \<le> d \<Longrightarrow> next_dist d < d"
  using next_dist_le [of d] by arith

lemma next_dist_less': "next_dist d \<noteq> 1 \<Longrightarrow> next_dist d < d"
proof -
  assume a: "next_dist d \<noteq> 1"
  have "2 \<le> d"
  proof (rule ccontr)
    assume "\<not> 2 \<le> d"
    then have "d div 8 = 0" by simp
    then have "next_dist d = 1" by (simp add: next_dist_def)
    with a show False by simp
  qed
  then show ?thesis by (rule next_dist_less)
qed

lemma qsort_cur_neg: "cur < 0 \<Longrightarrow> qsort_cur compar sz d cur mem = Some mem"
  by (subst qsort_cur.simps) simp

lemma qsort_cur_le:
  "0 \<le> cur \<Longrightarrow> compar (elem sz mem (nat cur)) (elem sz mem (nat cur + d)) \<le> 0 \<Longrightarrow>
   qsort_cur compar sz d cur mem = Some mem"
  by (subst qsort_cur.simps) simp

lemma qsort_cur_gt:
  "0 \<le> cur \<Longrightarrow> \<not> compar (elem sz mem (nat cur)) (elem sz mem (nat cur + d)) \<le> 0 \<Longrightarrow>
   qsort_cur compar sz d cur mem =
     qsort_cur compar sz d (cur - int d) (swap (nat cur) (nat cur + d) sz mem)"
  by (subst qsort_cur.simps) simp


lemma qsort_cur_stop:
  assumes "0 < sz" "k < dist"
  shows "qsort_cur compar sz (dist * sz) (int (k * sz) - int (dist * sz)) mem = Some mem"
proof -
  have "k * sz < dist * sz" using assms by simp
  then show ?thesis by (intro qsort_cur_neg) simp
qed

lemma qsort_cur_step:
  assumes "dist \<le> k" "k < cnt"
  shows "qsort_cur compar sz (dist * sz) (int (k * sz) - int (dist * sz)) mem =
     (if compar (elems sz cnt mem ! (k - dist)) (elems sz cnt mem ! k) \<le> 0 then Some mem
      else qsort_cur compar sz (dist * sz) (int ((k - dist) * sz) - int (dist * sz))
             (swap ((k - dist) * sz) (k * sz) sz mem))"
proof -
  let ?j = "(k - dist) * sz"
  have k: "?j + dist * sz = k * sz"
    using assms by (simp add: diff_mult_distrib)
  then have "int ?j + int (dist * sz) = int (k * sz)"
    by (simp only: of_nat_add [symmetric])
  then have c: "int (k * sz) - int (dist * sz) = int ?j" by simp
  have e: "elems sz cnt mem ! (k - dist) = elem sz mem ?j" "elems sz cnt mem ! k = elem sz mem (k * sz)"
    using assms by (simp_all add: nth_elems)
  have nonneg: "0 \<le> int ?j" by simp
  show ?thesis
  proof (cases "compar (elem sz mem ?j) (elem sz mem (k * sz)) \<le> 0")
    case True
    then have "compar (elem sz mem (nat (int ?j))) (elem sz mem (nat (int ?j) + dist * sz)) \<le> 0"
      unfolding nat_int k .
    from qsort_cur_le [of "int ?j" compar sz mem "dist * sz", OF nonneg this] True show ?thesis
      by (simp only: c e if_True)
  next
    case False
    then have "\<not> compar (elem sz mem (nat (int ?j))) (elem sz mem (nat (int ?j) + dist * sz)) \<le> 0"
      unfolding nat_int k .
    from qsort_cur_gt [of "int ?j" compar sz mem "dist * sz", OF nonneg this] False show ?thesis
      by (simp only: c e if_False nat_int k)
  qed
qed

lemma qsort_cur_perm:
  assumes sz: "0 < sz" and dist: "0 < dist"
  shows "length mem = cnt * sz \<Longrightarrow> k < cnt \<Longrightarrow>
    \<exists>mem'. qsort_cur compar sz (dist * sz) (int (k * sz) - int (dist * sz)) mem = Some mem'
       \<and> length mem' = length mem
       \<and> mset (elems sz cnt mem') = mset (elems sz cnt mem)"
proof (induction k arbitrary: mem rule: less_induct)
  case (less k)
  show ?case
  proof (cases "k < dist")
    case True
    then show ?thesis using qsort_cur_stop [OF sz True, of compar mem] by (simp del: of_nat_mult)
  next
    case False
    then have dk: "dist \<le> k" by simp
    show ?thesis
    proof (cases "compar (elems sz cnt mem ! (k - dist)) (elems sz cnt mem ! k) \<le> 0")
      case True
      then show ?thesis using qsort_cur_step [OF dk less.prems(2), of compar sz mem]
        by (simp del: of_nat_mult)
    next
      case gt: False
      let ?m2 = "swap ((k - dist) * sz) (k * sz) sz mem"
      have lt: "k - dist < k" using dk dist by simp
      have l2: "length ?m2 = cnt * sz" using less.prems by (simp add: swap_length)
      have "k - dist < cnt" using less.prems by simp
      from less.IH [OF lt l2 this] obtain mem' where
        r: "qsort_cur compar sz (dist * sz) (int ((k - dist) * sz) - int (dist * sz)) ?m2 = Some mem'"
        and l: "length mem' = length ?m2"
        and m: "mset (elems sz cnt mem') = mset (elems sz cnt ?m2)"
        by blast
      have "mset (elems sz cnt ?m2) = mset (elems sz cnt mem)"
        using lt less.prems by (intro mset_elems_swap) simp_all
      with r l m gt show ?thesis
        using qsort_cur_step [OF dk less.prems(2), of compar sz mem]
        by (simp add: swap_length del: of_nat_mult)
    qed
  qed
qed

lemma ins_inv_start: "sorted_upto compar (i - 1) xs \<Longrightarrow> ins_inv compar i i xs"
  unfolding sorted_upto_def ins_inv_def by auto

lemma ins_inv_done: "ins_inv compar 0 i xs \<Longrightarrow> sorted_upto compar i xs"
  unfolding sorted_upto_def ins_inv_def by auto

lemma ins_inv_le:
  assumes tp: "total_preorder compar" and inv: "ins_inv compar k i xs" and k: "0 < k"
    and le: "compar (xs ! (k - 1)) (xs ! k) \<le> 0"
  shows "sorted_upto compar i xs"
  unfolding sorted_upto_def
proof (intro allI impI)
  fix a b assume ab: "a < b \<and> b \<le> i"
  have trans: "\<And>x y z. compar x y \<le> 0 \<Longrightarrow> compar y z \<le> 0 \<Longrightarrow> compar x z \<le> 0"
    using tp unfolding total_preorder_def by blast
  consider "b < k" | "k \<le> a" | "a < k" "k < b" | "a < k" "b = k" using ab by linarith
  then show "compar (xs ! a) (xs ! b) \<le> 0"
  proof cases
    case 1
    then show ?thesis using inv ab unfolding ins_inv_def by blast
  next
    case 2
    then show ?thesis using inv ab unfolding ins_inv_def by blast
  next
    case 3
    then show ?thesis using inv ab unfolding ins_inv_def by blast
  next
    case 4
    show ?thesis
    proof (cases "a = k - 1")
      case True
      with 4 le show ?thesis by simp
    next
      case False
      then have "a < k - 1" "k - 1 < k" using 4 k by simp_all
      then have "compar (xs ! a) (xs ! (k - 1)) \<le> 0" using inv unfolding ins_inv_def by blast
      from trans [OF this le] 4 show ?thesis by simp
    qed
  qed
qed

lemma ins_inv_swap:
  assumes tp: "total_preorder compar" and inv: "ins_inv compar k i xs" and k: "0 < k" "k \<le> i"
    and i: "i < length xs"
    and gt: "\<not> compar (xs ! (k - 1)) (xs ! k) \<le> 0"
  shows "ins_inv compar (k - 1) i (xs[k - 1 := xs ! k, k := xs ! (k - 1)])"
proof -
  obtain j where j: "k = Suc j" using k by (cases k) simp_all
  let ?ys = "xs[j := xs ! Suc j, Suc j := xs ! j]"
  have "compar (xs ! j) (xs ! Suc j) \<le> 0 \<or> compar (xs ! Suc j) (xs ! j) \<le> 0"
    using tp unfolding total_preorder_def by blast
  then have le: "compar (xs ! Suc j) (xs ! j) \<le> 0"
    using gt j by simp
  have i1: "\<And>a b. a < b \<Longrightarrow> b < Suc j \<Longrightarrow> compar (xs ! a) (xs ! b) \<le> 0"
    and i2: "\<And>a b. Suc j \<le> a \<Longrightarrow> a < b \<Longrightarrow> b \<le> i \<Longrightarrow> compar (xs ! a) (xs ! b) \<le> 0"
    and i3: "\<And>a b. a < Suc j \<Longrightarrow> Suc j < b \<Longrightarrow> b \<le> i \<Longrightarrow> compar (xs ! a) (xs ! b) \<le> 0"
    using inv unfolding ins_inv_def j by (blast, blast, blast)
  have len: "j < length xs" "Suc j < length xs" using k i j by simp_all
  have nj: "?ys ! j = xs ! Suc j" using len by (simp add: nth_list_update)
  have nk: "?ys ! Suc j = xs ! j" using len by (simp add: nth_list_update)
  have no: "\<And>a. a \<noteq> j \<Longrightarrow> a \<noteq> Suc j \<Longrightarrow> ?ys ! a = xs ! a" by simp
  have c1: "\<forall>a b. a < b \<and> b < j \<longrightarrow> compar (?ys ! a) (?ys ! b) \<le> 0"
  proof (intro allI impI)
    fix a b assume ab: "a < b \<and> b < j"
    then have "compar (xs ! a) (xs ! b) \<le> 0" using i1 [of a b] by simp
    with ab show "compar (?ys ! a) (?ys ! b) \<le> 0" by (simp add: no)
  qed
  have c2: "\<forall>a b. j \<le> a \<and> a < b \<and> b \<le> i \<longrightarrow> compar (?ys ! a) (?ys ! b) \<le> 0"
  proof (intro allI impI)
    fix a b assume ab: "j \<le> a \<and> a < b \<and> b \<le> i"
    consider "a = j" "b = Suc j" | "a = j" "Suc j < b" | "a = Suc j" | "Suc j < a"
      using ab by linarith
    then show "compar (?ys ! a) (?ys ! b) \<le> 0"
    proof cases
      case 1
      then show ?thesis using le by (simp only: nj nk)
    next
      case 2
      then have "compar (xs ! Suc j) (xs ! b) \<le> 0" using i2 [of "Suc j" b] ab by simp
      with 2 show ?thesis by (simp add: nj no)
    next
      case 3
      then have "compar (xs ! j) (xs ! b) \<le> 0" using i3 [of j b] ab by simp
      with 3 ab show ?thesis by (simp add: nk no)
    next
      case 4
      then have "compar (xs ! a) (xs ! b) \<le> 0" using i2 [of a b] ab by simp
      with 4 ab show ?thesis by (simp add: no)
    qed
  qed
  have c3: "\<forall>a b. a < j \<and> j < b \<and> b \<le> i \<longrightarrow> compar (?ys ! a) (?ys ! b) \<le> 0"
  proof (intro allI impI)
    fix a b assume ab: "a < j \<and> j < b \<and> b \<le> i"
    show "compar (?ys ! a) (?ys ! b) \<le> 0"
    proof (cases "b = Suc j")
      case True
      have "compar (xs ! a) (xs ! j) \<le> 0" using i1 [of a j] ab by simp
      with True ab show ?thesis by (simp add: nk no)
    next
      case False
      then have "compar (xs ! a) (xs ! b) \<le> 0" using i3 [of a b] ab by simp
      with False ab show ?thesis by (simp add: no)
    qed
  qed
  show ?thesis
    unfolding ins_inv_def j using c1 c2 c3 by simp
qed

lemma qsort_cur_sorted:
  assumes tp: "total_preorder compar" and sz: "0 < sz" and i: "i < cnt"
  shows "length mem = cnt * sz \<Longrightarrow> k \<le> i \<Longrightarrow> ins_inv compar k i (elems sz cnt mem) \<Longrightarrow>
    \<exists>mem'. qsort_cur compar sz (1 * sz) (int (k * sz) - int (1 * sz)) mem = Some mem'
       \<and> length mem' = length mem
       \<and> mset (elems sz cnt mem') = mset (elems sz cnt mem)
       \<and> sorted_upto compar i (elems sz cnt mem')"
proof (induction k arbitrary: mem)
  case 0
  have "qsort_cur compar sz (1 * sz) (int (0 * sz) - int (1 * sz)) mem = Some mem"
    using sz by (intro qsort_cur_stop) simp_all
  moreover have "sorted_upto compar i (elems sz cnt mem)"
    using "0.prems" by (intro ins_inv_done) simp
  ultimately show ?case by simp
next
  case (Suc j)
  let ?xs = "elems sz cnt mem"
  have kc: "Suc j < cnt" using Suc.prems i by simp
  have step: "qsort_cur compar sz (1 * sz) (int (Suc j * sz) - int (1 * sz)) mem =
     (if compar (?xs ! (Suc j - 1)) (?xs ! Suc j) \<le> 0 then Some mem
      else qsort_cur compar sz (1 * sz) (int ((Suc j - 1) * sz) - int (1 * sz))
             (swap ((Suc j - 1) * sz) (Suc j * sz) sz mem))"
    using kc by (intro qsort_cur_step) simp_all
  show ?case
  proof (cases "compar (?xs ! (Suc j - 1)) (?xs ! Suc j) \<le> 0")
    case True
    have "sorted_upto compar i ?xs"
      using tp Suc.prems(3) True by (intro ins_inv_le [where k = "Suc j"]) simp_all
    with True step show ?thesis by (simp del: of_nat_mult of_nat_Suc)
  next
    case False
    let ?m2 = "swap (j * sz) (Suc j * sz) sz mem"
    have e2: "elems sz cnt ?m2 = ?xs[j := ?xs ! Suc j, Suc j := ?xs ! j]"
      using kc Suc.prems(1) by (intro elems_swap) simp_all
    have "ins_inv compar (Suc j - 1) i (?xs[Suc j - 1 := ?xs ! Suc j, Suc j := ?xs ! (Suc j - 1)])"
      using tp Suc.prems False i by (intro ins_inv_swap) (simp_all add: length_elems)
    then have inv2: "ins_inv compar j i (elems sz cnt ?m2)" unfolding e2 by simp
    have l2: "length ?m2 = cnt * sz" using Suc.prems by (simp add: swap_length)
    have "j \<le> i" using Suc.prems by simp
    from Suc.IH [OF l2 this inv2] obtain mem' where
      r: "qsort_cur compar sz (1 * sz) (int (j * sz) - int (1 * sz)) ?m2 = Some mem'"
      and l: "length mem' = length ?m2"
      and m: "mset (elems sz cnt mem') = mset (elems sz cnt ?m2)"
      and s: "sorted_upto compar i (elems sz cnt mem')"
      by blast
    have "mset (elems sz cnt ?m2) = mset (elems sz cnt mem)"
      using kc Suc.prems(1) by (intro mset_elems_swap) simp_all
    with r l m s False step show ?thesis
      by (simp add: swap_length del: of_nat_mult of_nat_Suc)
  qed
qed

lemma qsort_pass_perm:
  assumes sz: "0 < sz" and dist: "0 < dist"
  shows "length mem = cnt * sz \<Longrightarrow>
    \<exists>mem'. qsort_pass compar sz cnt dist i mem = Some mem'
       \<and> length mem' = length mem
       \<and> mset (elems sz cnt mem') = mset (elems sz cnt mem)"
proof (induction "cnt - i" arbitrary: i mem)
  case 0
  then show ?case by (subst qsort_pass.simps) simp
next
  case (Suc n)
  then have i: "i < cnt" by simp
  from qsort_cur_perm [OF sz dist Suc.prems i, of compar] obtain m1 where
    r: "qsort_cur compar sz (dist * sz) (int (i * sz) - int (dist * sz)) mem = Some m1"
    and l: "length m1 = length mem"
    and m: "mset (elems sz cnt m1) = mset (elems sz cnt mem)"
    by blast
  have "n = cnt - Suc i" using Suc.hyps(2) by simp
  moreover have "length m1 = cnt * sz" using l Suc.prems by simp
  ultimately obtain mem' where
    "qsort_pass compar sz cnt dist (Suc i) m1 = Some mem'"
    "length mem' = length m1" "mset (elems sz cnt mem') = mset (elems sz cnt m1)"
    using Suc.hyps(1) by blast
  with r l m i show ?case by (subst qsort_pass.simps) (simp del: of_nat_mult)
qed

lemma qsort_pass_sorted:
  assumes tp: "total_preorder compar" and sz: "0 < sz"
  shows "length mem = cnt * sz \<Longrightarrow> 0 < i \<Longrightarrow> i \<le> cnt \<Longrightarrow>
    sorted_upto compar (i - 1) (elems sz cnt mem) \<Longrightarrow>
    \<exists>mem'. qsort_pass compar sz cnt 1 i mem = Some mem'
       \<and> length mem' = length mem
       \<and> mset (elems sz cnt mem') = mset (elems sz cnt mem)
       \<and> sorted_upto compar (cnt - 1) (elems sz cnt mem')"
proof (induction "cnt - i" arbitrary: i mem)
  case 0
  then have "i = cnt" by simp
  with 0 show ?case by (subst qsort_pass.simps) simp
next
  case (Suc n)
  then have i: "i < cnt" by simp
  have "ins_inv compar i i (elems sz cnt mem)"
    using Suc.prems by (intro ins_inv_start)
  from qsort_cur_sorted [OF tp sz i Suc.prems(1) order_refl this] obtain m1 where
    r: "qsort_cur compar sz (1 * sz) (int (i * sz) - int (1 * sz)) mem = Some m1"
    and l: "length m1 = length mem"
    and m: "mset (elems sz cnt m1) = mset (elems sz cnt mem)"
    and s: "sorted_upto compar i (elems sz cnt m1)"
    by blast
  have "n = cnt - Suc i" using Suc.hyps(2) by simp
  moreover have "length m1 = cnt * sz" using l Suc.prems by simp
  moreover have "0 < Suc i" "Suc i \<le> cnt" using i by simp_all
  moreover have "sorted_upto compar (Suc i - 1) (elems sz cnt m1)" using s by simp
  ultimately obtain mem' where
    "qsort_pass compar sz cnt 1 (Suc i) m1 = Some mem'"
    "length mem' = length m1" "mset (elems sz cnt mem') = mset (elems sz cnt m1)"
    "sorted_upto compar (cnt - 1) (elems sz cnt mem')"
    using Suc.hyps(1) by blast
  with r l m i show ?case by (subst qsort_pass.simps) (simp del: of_nat_mult)
qed


lemma qsort_loop_sorted:
  assumes tp: "total_preorder compar" and sz: "0 < sz" and cnt: "0 < cnt"
  shows "length mem = cnt * sz \<Longrightarrow>
    \<exists>mem'. qsort_loop compar sz cnt dist mem = Some mem'
       \<and> length mem' = length mem
       \<and> mset (elems sz cnt mem') = mset (elems sz cnt mem)
       \<and> sorted_upto compar (cnt - 1) (elems sz cnt mem')"
proof (induction dist arbitrary: mem rule: less_induct)
  case (less dist)
  let ?d = "next_dist dist"
  show ?case
  proof (cases "?d = 1")
    case True
    have "sorted_upto compar (1 - 1) (elems sz cnt mem)"
      by (simp add: sorted_upto_def)
    from qsort_pass_sorted [OF tp sz less.prems _ _ this] cnt obtain m1 where
      "qsort_pass compar sz cnt 1 1 mem = Some m1" "length m1 = length mem"
      "mset (elems sz cnt m1) = mset (elems sz cnt mem)"
      "sorted_upto compar (cnt - 1) (elems sz cnt m1)"
      by auto
    with True show ?thesis by (subst qsort_loop.simps) simp
  next
    case False
    from qsort_pass_perm [OF sz next_dist_pos less.prems, of compar dist ?d] obtain m1 where
      p: "qsort_pass compar sz cnt ?d ?d mem = Some m1" and l: "length m1 = length mem"
      and m: "mset (elems sz cnt m1) = mset (elems sz cnt mem)"
      by blast
    have "length m1 = cnt * sz" using l less.prems by simp
    from less.IH [OF next_dist_less' [OF False] this] obtain mem' where
      "qsort_loop compar sz cnt ?d m1 = Some mem'" "length mem' = length m1"
      "mset (elems sz cnt mem') = mset (elems sz cnt m1)"
      "sorted_upto compar (cnt - 1) (elems sz cnt mem')"
      by blast
    with False p l m show ?thesis by (subst qsort_loop.simps) simp
  qed
qed

lemma qsort_cur_sz0: "compar [] [] \<le> 0 \<Longrightarrow> qsort_cur compar 0 d 0 mem = Some mem"
  by (subst qsort_cur.simps) (simp add: elem_def)

lemma qsort_pass_sz0: "compar [] [] \<le> 0 \<Longrightarrow> qsort_pass compar 0 cnt dist i mem = Some mem"
proof (induction "cnt - i" arbitrary: i)
  case 0
  then show ?case by (subst qsort_pass.simps) simp
next
  case (Suc n)
  then have "qsort_pass compar 0 cnt dist (Suc i) mem = Some mem" by simp
  with Suc.prems show ?case by (subst qsort_pass.simps) (simp add: qsort_cur_sz0)
qed


lemma qsort_loop_gaps:
  "qsort_loop compar sz cnt dist mem = run_passes compar sz cnt (gaps dist) mem"
proof (induction dist arbitrary: mem rule: gaps.induct)
  case (1 g)
  show ?case
  proof (cases "next_dist g = 1")
    case True
    then show ?thesis
      by (subst qsort_loop.simps, subst gaps.simps) (simp split: Option.bind_split)
  next
    case False
    then show ?thesis
      by (subst qsort_loop.simps, subst gaps.simps) (simp add: 1 cong: Option.bind_cong)
  qed
qed







lemma run_passes_sz0: "compar [] [] \<le> 0 \<Longrightarrow> run_passes compar 0 cnt gs mem = Some mem"
  by (induction gs) (simp_all add: qsort_pass_sz0)

lemma sorted_upto_sorted_wrt:
  "length xs = cnt \<Longrightarrow> sorted_upto compar (cnt - 1) xs \<Longrightarrow>
   sorted_wrt (\<lambda>x y. compar x y \<le> 0) xs"
  unfolding sorted_upto_def sorted_wrt_iff_nth_less
proof (intro allI impI)
  fix i j assume a: "length xs = cnt" "\<forall>a b. a < b \<and> b \<le> cnt - 1 \<longrightarrow> compar (xs ! a) (xs ! b) \<le> 0"
    "i < j" "j < length xs"
  then have "i < j \<and> j \<le> cnt - 1" by simp
  with a(2) show "compar (xs ! i) (xs ! j) \<le> 0" by blast
qed

lemma compar_u8_total_preorder: "total_preorder compar_u8"
  unfolding total_preorder_def compar_u8_def by auto

lemma backtrace_qsort_sorts:
  assumes tp: "total_preorder compar" and len: "length mem = cnt * sz"
  shows "\<exists>mem'. backtrace_qsort mem cnt sz compar = Some mem'
           \<and> length mem' = length mem
           \<and> mset (elems sz cnt mem') = mset (elems sz cnt mem)
           \<and> sorted_wrt (\<lambda>x y. compar x y \<le> 0) (elems sz cnt mem')
           \<and> (cnt < 2 \<longrightarrow> mem' = mem)"
proof (cases "cnt < 2")
  case True
  then have "sorted_wrt (\<lambda>x y. compar x y \<le> 0) (elems sz cnt mem)"
    by (simp add: sorted_wrt_iff_nth_less length_elems)
  with True show ?thesis by (simp add: backtrace_qsort_def)
next
  case False
  then have cnt: "0 < cnt" by simp
  have refl: "compar [] [] \<le> 0" using tp unfolding total_preorder_def by blast
  show ?thesis
  proof (cases "sz = 0")
    case True
    then have "qsort_loop compar sz cnt cnt mem = Some mem"
      using refl by (simp add: qsort_loop_gaps run_passes_sz0)
    moreover have "sorted_wrt (\<lambda>x y. compar x y \<le> 0) (elems sz cnt mem)"
      using True refl by (simp add: sorted_wrt_iff_nth_less length_elems nth_elems elem_def)
    ultimately show ?thesis using False by (simp add: backtrace_qsort_def)
  next
    case nz: False
    then have sz: "0 < sz" by simp
    from qsort_loop_sorted [OF tp sz cnt len, of cnt] obtain mem' where
      r: "qsort_loop compar sz cnt cnt mem = Some mem'" and l: "length mem' = length mem"
      and m: "mset (elems sz cnt mem') = mset (elems sz cnt mem)"
      and s: "sorted_upto compar (cnt - 1) (elems sz cnt mem')"
      by blast
    have "sorted_wrt (\<lambda>x y. compar x y \<le> 0) (elems sz cnt mem')"
      using s by (intro sorted_upto_sorted_wrt [where cnt = cnt]) (simp_all add: length_elems)
    with r l m False show ?thesis by (simp add: backtrace_qsort_def)
  qed
qed

text \<open>Claim C1. For every array of \<open>cnt\<close> elements of \<open>sz\<close> bytes each and every
  comparator that is a total preorder, \<^verbatim>\<open>backtrace_qsort\<close> returns, and the array it leaves
  has the same length, holds a permutation of the input's elements, and is sorted
  non-decreasingly with respect to the comparator; for \<open>cnt < 2\<close> (so for 0 and 1) the
  array is unchanged.\<close>

theorem backtrace_qsort_sorted_permutation:
  assumes "total_preorder compar" and "length mem = cnt * sz"
  shows "\<exists>mem'. backtrace_qsort mem cnt sz compar = Some mem'
           \<and> length mem' = length mem
           \<and> mset (elems sz cnt mem') = mset (elems sz cnt mem)
           \<and> sorted_wrt (\<lambda>x y. compar x y \<le> 0) (elems sz cnt mem')
           \<and> (cnt < 2 \<longrightarrow> mem' = mem)"
  using assms by (rule backtrace_qsort_sorts)

theorem backtrace_qsort_sorted_permutation_witness:
  "total_preorder compar_u8 \<and> length [3, 1, 2 :: byte] = 3 * 1
   \<and> backtrace_qsort [3, 1, 2] 3 1 compar_u8 = Some [1, 2, 3]
   \<and> (\<exists>mem'. backtrace_qsort [3, 1, 2] 3 1 compar_u8 = Some mem'
           \<and> length mem' = length [3, 1, 2 :: byte]
           \<and> mset (elems 1 3 mem') = mset (elems 1 3 [3, 1, 2])
           \<and> sorted_wrt (\<lambda>x y. compar_u8 x y \<le> 0) (elems 1 3 mem'))"
proof -
  have len: "length [3, 1, 2 :: byte] = 3 * 1" by simp
  have run: "backtrace_qsort [3, 1, 2] 3 1 compar_u8 = Some [1, 2, 3]"
    by (simp add: backtrace_qsort_def qsort_loop.simps qsort_pass.simps qsort_cur.simps
        next_dist_def elem_def compar_u8_def)
  from backtrace_qsort_sorted_permutation [OF compar_u8_total_preorder len]
  show ?thesis using compar_u8_total_preorder run by auto
qed









section \<open>Proofs: the PE/COFF symbol table\<close>

lemma primary_symbols_drop:
  "i < length syms \<Longrightarrow>
   primary_symbols (drop i syms) =
     syms ! i # primary_symbols (drop (i + unat (ext_number_of_aux_symbols (syms ! i)) + 1) syms)"
proof -
  assume "i < length syms"
  then have "drop i syms = syms ! i # drop (Suc i) syms" by (simp add: Cons_nth_drop_Suc)
  then show ?thesis by (simp add: ac_simps)
qed

lemma primary_symbols_drop_end: "\<not> i < length syms \<Longrightarrow> primary_symbols (drop i syms) = []"
  by simp

lemma expand_function_symbol:
  "coff_expand_symbol s n strtab strtab_size = Some isym \<Longrightarrow>
   coff_is_function_symbol isym = is_indexed_symbol s"
  by (auto simp: coff_expand_symbol_def coff_is_function_symbol_def is_indexed_symbol_def Let_def
      split: if_splits)

lemma take_short_name:
  "take (coff_short_name_len bs) bs = takeWhile (\<lambda>c. c \<noteq> 0) (take 8 bs)"
proof -
  let ?p = "takeWhile (\<lambda>c. c \<noteq> 0) (take 8 bs)"
  have "?p = take (length ?p) (take 8 bs)" by (rule takeWhile_eq_take)
  also have "\<dots> = take (min (length ?p) 8) bs" by (simp add: min.commute)
  also have "min (length ?p) 8 = length ?p"
    using length_takeWhile_le [of "\<lambda>c. c \<noteq> 0" "take 8 bs"] by simp
  finally show ?thesis by (simp add: coff_short_name_len_def)
qed

lemma expand_symbol_name:
  "coff_expand_symbol s n strtab strtab_size = Some isym \<Longrightarrow>
   coff_symbol_name is_64 s (isym_name isym) strtab =
     (if is_64 then record_name strtab s else strip_underscore (record_name strtab s))"
  by (auto simp: coff_expand_symbol_def coff_symbol_name_def record_name_def strip_underscore_def
      take_short_name Let_def split: if_splits list.splits)

lemma coff_count_loop_Some:
  "coff_count_loop syms (length syms) sects_num strtab strtab_size i c l = Some (c', l') \<Longrightarrow>
   (\<forall>s \<in> set (primary_symbols (drop i syms)).
      coff_expand_symbol s (of_nat sects_num) strtab strtab_size \<noteq> None)
   \<and> c' = c + length (filter is_indexed_symbol (primary_symbols (drop i syms)))"
proof (induction syms "length syms" sects_num strtab strtab_size i c l rule: coff_count_loop.induct)
  case (1 syms sects_num strtab strtab_size i c l)
  show ?case
  proof (cases "i < length syms")
    case False
    with "1.prems" show ?thesis by (simp add: coff_count_loop.simps)
  next
    case True
    let ?s = "syms ! i"
    let ?i' = "i + unat (ext_number_of_aux_symbols ?s) + 1"
    from "1.prems" True obtain isym where
      e: "coff_expand_symbol ?s (of_nat sects_num) strtab strtab_size = Some isym"
      by (subst (asm) coff_count_loop.simps) (auto split: option.splits)
    have f: "coff_is_function_symbol isym = is_indexed_symbol ?s"
      using e by (rule expand_function_symbol)
    show ?thesis
    proof (cases "is_indexed_symbol ?s")
      case fn: True
      let ?l' = "if ext_name ?s ! 0 \<noteq> 0 then l + coff_short_name_len (ext_name ?s) + 1 else l"
      have fi: "coff_is_function_symbol isym" using f fn by simp
      have lp: "coff_count_loop syms (length syms) sects_num strtab strtab_size ?i' (c + 1) ?l'
              = Some (c', l')"
        using "1.prems" True e fi by (subst (asm) coff_count_loop.simps) simp
      have "(\<forall>s \<in> set (primary_symbols (drop ?i' syms)).
              coff_expand_symbol s (of_nat sects_num) strtab strtab_size \<noteq> None)
            \<and> c' = c + 1 + length (filter is_indexed_symbol (primary_symbols (drop ?i' syms)))"
        by (rule "1.hyps"(1) [OF True e fi lp])
      with True e fn show ?thesis by (simp add: primary_symbols_drop [OF True])
    next
      case nf: False
      have fi: "\<not> coff_is_function_symbol isym" using f nf by simp
      have lp: "coff_count_loop syms (length syms) sects_num strtab strtab_size ?i' c l = Some (c', l')"
        using "1.prems" True e fi by (subst (asm) coff_count_loop.simps) simp
      have "(\<forall>s \<in> set (primary_symbols (drop ?i' syms)).
              coff_expand_symbol s (of_nat sects_num) strtab strtab_size \<noteq> None)
            \<and> c' = c + length (filter is_indexed_symbol (primary_symbols (drop ?i' syms)))"
        by (rule "1.hyps"(2) [OF True e fi lp])
      with True e nf show ?thesis by (simp add: primary_symbols_drop [OF True])
    qed
  qed
qed

lemma coff_copy_loop_Some:
  "\<forall>s \<in> set (primary_symbols (drop i syms)).
      coff_expand_symbol s (of_nat sects_num) strtab strtab_size \<noteq> None \<Longrightarrow>
   coff_copy_loop base_address is_64 sects sects_num syms (length syms) strtab strtab_size i acc =
     Some (acc @ map (indexed_entry base_address is_64 sects strtab)
                   (filter is_indexed_symbol (primary_symbols (drop i syms))))"
proof (induction base_address is_64 sects sects_num syms "length syms" strtab strtab_size i acc
    rule: coff_copy_loop.induct)
  case (1 base_address is_64 sects sects_num syms strtab strtab_size i acc)
  show ?case
  proof (cases "i < length syms")
    case False
    then show ?thesis by (subst coff_copy_loop.simps) simp
  next
    case True
    let ?s = "syms ! i"
    let ?i' = "i + unat (ext_number_of_aux_symbols ?s) + 1"
    have p: "primary_symbols (drop i syms) = ?s # primary_symbols (drop ?i' syms)"
      by (rule primary_symbols_drop [OF True])
    from "1.prems" obtain isym where
      e: "coff_expand_symbol ?s (of_nat sects_num) strtab strtab_size = Some isym"
      unfolding p by auto
    have rest: "\<forall>s \<in> set (primary_symbols (drop ?i' syms)).
      coff_expand_symbol s (of_nat sects_num) strtab strtab_size \<noteq> None"
      using "1.prems" unfolding p by simp
    have f: "coff_is_function_symbol isym = is_indexed_symbol ?s"
      using e by (rule expand_function_symbol)
    show ?thesis
    proof (cases "is_indexed_symbol ?s")
      case fn: True
      have fi: "coff_is_function_symbol isym" using f fn by simp
      let ?e = "\<lparr>sym_name = Some (coff_symbol_name is_64 ?s (isym_name isym) strtab),
                 sym_address = libbacktrace_add_base
                   (coff_read4 (ext_value ?s)
                    + sh_virtual_address (sects ! (unat (coff_read2 (ext_section_number ?s)) - 1)))
                   base_address\<rparr>"
      have ent: "?e = indexed_entry base_address is_64 sects strtab ?s"
        by (simp add: indexed_entry_def libbacktrace_add_base_def expand_symbol_name [OF e])
      have "coff_copy_loop base_address is_64 sects sects_num syms (length syms) strtab strtab_size
              i acc =
            coff_copy_loop base_address is_64 sects sects_num syms (length syms) strtab strtab_size
              ?i' (acc @ [?e])"
        using True e fi by (subst coff_copy_loop.simps) simp
      also have "\<dots> = Some ((acc @ [?e]) @ map (indexed_entry base_address is_64 sects strtab)
                   (filter is_indexed_symbol (primary_symbols (drop ?i' syms))))"
        by (rule "1.hyps"(1) [OF True e fi rest])
      also have "(acc @ [?e]) @ map (indexed_entry base_address is_64 sects strtab)
                   (filter is_indexed_symbol (primary_symbols (drop ?i' syms))) =
                 acc @ map (indexed_entry base_address is_64 sects strtab)
                   (filter is_indexed_symbol (primary_symbols (drop i syms)))"
        unfolding p ent using fn by simp
      finally show ?thesis .
    next
      case nf: False
      have fi: "\<not> coff_is_function_symbol isym" using f nf by simp
      have "coff_copy_loop base_address is_64 sects sects_num syms (length syms) strtab strtab_size
              ?i' acc =
            Some (acc @ map (indexed_entry base_address is_64 sects strtab)
                   (filter is_indexed_symbol (primary_symbols (drop ?i' syms))))"
        by (rule "1.hyps"(2) [OF True e fi rest])
      then show ?thesis
        using True e fi nf unfolding p by (subst coff_copy_loop.simps) simp
    qed
  qed
qed

lemma elems_Cons:
  "length x = sz \<Longrightarrow> elems sz (Suc n) (x @ rest) = x # elems sz n rest"
proof -
  assume x: "length x = sz"
  have "[0..<Suc n] = 0 # map Suc [0..<n]"
    by (simp add: upt_conv_Cons map_Suc_upt del: upt_Suc)
  then have "elems sz (Suc n) (x @ rest) =
      elem sz (x @ rest) 0 # map (\<lambda>i. elem sz (x @ rest) (Suc i * sz)) [0..<n]"
    unfolding elems_def by (simp add: comp_def del: upt_Suc)
  moreover have "elem sz (x @ rest) 0 = x" using x by (simp add: elem_def)
  moreover have "\<And>i. elem sz (x @ rest) (Suc i * sz) = elem sz rest (i * sz)"
    using x by (simp add: elem_def)
  ultimately show ?thesis by (simp add: elems_def)
qed

lemma elems_concat:
  "\<forall>x \<in> set xs. length x = sz \<Longrightarrow> elems sz (length xs) (concat xs) = xs"
proof (induction xs)
  case Nil
  then show ?case by (simp add: elems_def)
next
  case (Cons x xs)
  then show ?case by (simp add: elems_Cons)
qed

lemma length_concat_fixed: "\<forall>x \<in> set xs. length x = sz \<Longrightarrow> length (concat xs) = length xs * sz"
  by (induction xs) simp_all

lemma concat_elems: "length m = cnt * sz \<Longrightarrow> concat (elems sz cnt m) = m"
proof (induction cnt arbitrary: m)
  case 0
  then show ?case by (simp add: elems_def)
next
  case (Suc cnt)
  have "elems sz (Suc cnt) (take sz m @ drop sz m) = take sz m # elems sz cnt (drop sz m)"
    using Suc.prems by (intro elems_Cons) simp
  moreover have "concat (elems sz cnt (drop sz m)) = drop sz m"
    using Suc.prems by (intro Suc.IH) simp
  ultimately show ?case by simp
qed

lemma length_elems_each: "length m = cnt * sz \<Longrightarrow> \<forall>x \<in> set (elems sz cnt m). length x = sz"
proof (induction cnt arbitrary: m)
  case 0
  then show ?case by (simp add: elems_def)
next
  case (Suc cnt)
  have "elems sz (Suc cnt) (take sz m @ drop sz m) = take sz m # elems sz cnt (drop sz m)"
    using Suc.prems by (intro elems_Cons) simp
  moreover have "\<forall>x \<in> set (elems sz cnt (drop sz m)). length x = sz"
    using Suc.prems by (intro Suc.IH) simp
  ultimately show ?case using Suc.prems by simp
qed

lemma coff_symbol_compare_le:
  "coff_symbol_compare a b \<le> 0 \<longleftrightarrow> sym_address a \<le> sym_address b"
  by (auto simp: coff_symbol_compare_def)

lemma coff_symbol_compare_total_preorder:
  "total_preorder (\<lambda>a b. coff_symbol_compare (dec a) (dec b))"
  unfolding total_preorder_def coff_symbol_compare_le by auto

lemma coff_initialize_syminfo_ok:
  fixes lay :: "'a::len word coff_symbol_layout"
  defines "sentinel \<equiv> \<lparr>sym_name = None, sym_address = (- 1 :: 'a word)\<rparr>"
  assumes size: "syms_size = 18 * length syms"
    and r: "coff_initialize_syminfo alloc lay base_address is_64 sects sects_num syms syms_size
              strtab strtab_size = Some (Init_ok sdata)"
    and lay: "layout_ok lay
       (map (indexed_entry base_address is_64 sects strtab)
          (filter is_indexed_symbol (primary_symbols syms)) @ [sentinel])"
  shows "sd_count sdata = length (filter is_indexed_symbol (primary_symbols syms)) \<and>
     (\<exists>ss. sd_symbols sdata = ss @ [sentinel]
        \<and> mset ss = mset (map (indexed_entry base_address is_64 sects strtab)
                           (filter is_indexed_symbol (primary_symbols syms)))
        \<and> sorted_wrt (\<lambda>s t. sym_address s \<le> sym_address t) ss)"
proof -
  let ?fs = "map (indexed_entry base_address is_64 sects strtab)
               (filter is_indexed_symbol (primary_symbols syms))"
  let ?sz = "lay_sizeof lay"
  let ?cmp = "\<lambda>a b. coff_symbol_compare (lay_dec lay a) (lay_dec lay b)"
  have cnt: "syms_size div 18 = length syms" using size by simp
  from r obtain c l where
    cl: "coff_count_loop syms (length syms) sects_num strtab strtab_size 0 0 0 = Some (c, l)"
    unfolding coff_initialize_syminfo_def cnt Let_def by (auto split: option.splits)
  from coff_count_loop_Some [OF cl] have
    ok: "\<forall>s \<in> set (primary_symbols syms).
           coff_expand_symbol s (of_nat sects_num) strtab strtab_size \<noteq> None"
    and c: "c = length ?fs"
    by simp_all
  have cp: "coff_copy_loop base_address is_64 sects sects_num syms (length syms) strtab
              strtab_size 0 [] = Some ?fs"
    using coff_copy_loop_Some [of 0 syms sects_num strtab strtab_size base_address is_64 sects "[]"] ok
    by simp
  have sz: "0 < ?sz" and enc_len: "\<forall>s \<in> set ?fs. length (lay_enc lay s) = ?sz"
    and dec_enc: "\<forall>s \<in> set ?fs. lay_dec lay (lay_enc lay s) = s"
    and sent_len: "length (lay_enc lay sentinel) = ?sz"
    and sent_dec: "lay_dec lay (lay_enc lay sentinel) = sentinel"
    using lay unfolding layout_ok_def by simp_all
  let ?m = "concat (map (lay_enc lay) ?fs)"
  have lm: "length ?m = c * ?sz"
    unfolding c using enc_len length_concat_fixed [of "map (lay_enc lay) ?fs" ?sz] by simp
  have mem: "concat (map (lay_enc lay) (?fs @ [sentinel])) = ?m @ lay_enc lay sentinel"
    by simp
  from r obtain sorted_mem where
    q: "backtrace_qsort ?m c ?sz ?cmp = Some sorted_mem"
    and sd: "sdata = \<lparr>sd_symbols = map (lay_dec lay)
                (elems ?sz (Suc c) (sorted_mem @ lay_enc lay sentinel)),
              sd_count = c\<rparr>"
    unfolding coff_initialize_syminfo_def cnt Let_def cl cp sentinel_def [symmetric] mem
    using lm c by (auto split: option.splits if_splits)
  from backtrace_qsort_sorts [OF coff_symbol_compare_total_preorder lm, of "lay_dec lay"] q
  have ls: "length sorted_mem = c * ?sz"
    and ms: "mset (elems ?sz c sorted_mem) = mset (elems ?sz c ?m)"
    and so: "sorted_wrt (\<lambda>x y. ?cmp x y \<le> 0) (elems ?sz c sorted_mem)"
    using lm by auto
  let ?es = "elems ?sz c sorted_mem"
  have em: "elems ?sz c ?m = map (lay_enc lay) ?fs"
    using elems_concat [of "map (lay_enc lay) ?fs" ?sz] enc_len c by simp
  have each: "\<forall>x \<in> set (?es @ [lay_enc lay sentinel]). length x = ?sz"
    using length_elems_each [OF ls] sent_len by simp
  have "sorted_mem @ lay_enc lay sentinel = concat (?es @ [lay_enc lay sentinel])"
    using concat_elems [OF ls] by simp
  then have "elems ?sz (Suc c) (sorted_mem @ lay_enc lay sentinel) = ?es @ [lay_enc lay sentinel]"
    using elems_concat [OF each] by (simp add: length_elems)
  then have syms: "sd_symbols sdata = map (lay_dec lay) ?es @ [sentinel]"
    using sd sent_dec by simp
  have "mset (map (lay_dec lay) ?es) = image_mset (lay_dec lay) (mset ?es)" by simp
  also have "\<dots> = image_mset (lay_dec lay) (mset (map (lay_enc lay) ?fs))"
    using ms em by simp
  also have "\<dots> = mset (map (\<lambda>s. lay_dec lay (lay_enc lay s)) ?fs)"
    by (simp add: comp_def multiset.map_comp)
  also have "map (\<lambda>s. lay_dec lay (lay_enc lay s)) ?fs = ?fs"
    using dec_enc by (intro map_idI) blast
  finally have perm: "mset (map (lay_dec lay) ?es) = mset ?fs" .
  have "sorted_wrt (\<lambda>s t. sym_address s \<le> sym_address t) (map (lay_dec lay) ?es)"
    using so by (simp add: sorted_wrt_map coff_symbol_compare_le)
  with syms perm sd c show ?thesis by auto
qed

lemma bsearch_loop_safe:
  "u < length symbols \<Longrightarrow>
   bsearch_loop addr symbols l u \<noteq> Search_fault \<and>
   (\<forall>i. bsearch_loop addr symbols l u = Found i \<longrightarrow>
      l \<le> i \<and> i < u \<and> sym_address (symbols ! i) \<le> addr \<and> addr < sym_address (symbols ! Suc i))"
proof (induction addr symbols l u rule: bsearch_loop.induct)
  case (1 addr symbols l u)
  show ?case
  proof (cases "l < u")
    case False
    then show ?thesis by (subst bsearch_loop.simps, subst (2) bsearch_loop.simps) simp
  next
    case True
    let ?idx = "(l + u) div 2"
    have idx: "l \<le> ?idx" "?idx < u" using True by simp_all
    then have inb: "?idx < length symbols" "Suc ?idx < length symbols" using "1.prems" by simp_all
    consider (lt) "addr < sym_address (symbols ! ?idx)"
      | (ge) "\<not> addr < sym_address (symbols ! ?idx)" "addr \<ge> sym_address (symbols ! Suc ?idx)"
      | (eq) "\<not> addr < sym_address (symbols ! ?idx)" "\<not> addr \<ge> sym_address (symbols ! Suc ?idx)"
      by blast
    then show ?thesis
    proof cases
      case lt
      then have c: "coff_symbol_search addr symbols ?idx = Some (- 1)"
        using inb by (simp add: coff_symbol_search_def)
      have "?idx < length symbols" by (rule inb)
      from "1.IH"(1) [OF True refl c _ this]
      have "bsearch_loop addr symbols l ?idx \<noteq> Search_fault \<and>
        (\<forall>i. bsearch_loop addr symbols l ?idx = Found i \<longrightarrow>
          l \<le> i \<and> i < ?idx \<and> sym_address (symbols ! i) \<le> addr
          \<and> addr < sym_address (symbols ! Suc i))"
        by simp
      moreover have "bsearch_loop addr symbols l u = bsearch_loop addr symbols l ?idx"
        using True c by (subst bsearch_loop.simps) simp
      ultimately show ?thesis using idx by auto
    next
      case ge
      then have c: "coff_symbol_search addr symbols ?idx = Some 1"
        using inb by (simp add: coff_symbol_search_def)
      from "1.IH"(2) [OF True refl c _ _ "1.prems"]
      have "bsearch_loop addr symbols (?idx + 1) u \<noteq> Search_fault \<and>
        (\<forall>i. bsearch_loop addr symbols (?idx + 1) u = Found i \<longrightarrow>
          ?idx + 1 \<le> i \<and> i < u \<and> sym_address (symbols ! i) \<le> addr
          \<and> addr < sym_address (symbols ! Suc i))"
        by simp
      moreover have "bsearch_loop addr symbols l u = bsearch_loop addr symbols (?idx + 1) u"
        using True c by (subst bsearch_loop.simps) simp
      ultimately show ?thesis using idx by auto
    next
      case eq
      then have c: "coff_symbol_search addr symbols ?idx = Some 0"
        using inb by (simp add: coff_symbol_search_def)
      have "bsearch_loop addr symbols l u = Found ?idx"
        using True c by (subst bsearch_loop.simps) simp
      with eq idx show ?thesis by (simp add: not_less not_le)
    qed
  qed
qed

lemma coff_symbol_search_in_bounds:
  "i < n \<Longrightarrow> n < length symbols \<Longrightarrow> \<exists>c. coff_symbol_search addr symbols i = Some c"
  by (simp add: coff_symbol_search_def)

lemma ex_layout:
  "layout_ok example_layout
     (map (indexed_entry 0x400000 False [example_section] [])
        (filter is_indexed_symbol (primary_symbols example_syms))
      @ [\<lparr>sym_name = None, sym_address = - 1\<rparr>])"
  by code_simp

lemma example_init:
  "coff_initialize_syminfo (\<lambda>n. True) example_layout 0x400000 False [example_section] 1
     example_syms 72 [] 0 = Some (Init_ok example_sdata)"
  by code_simp

lemma example_size: "72 = 18 * length example_syms"
  by (simp add: example_syms_def)

text \<open>Claim C9. When \<^verbatim>\<open>coff_initialize_syminfo\<close> builds the symbol table, the entries it
  indexes are exactly those of the records that are not aux records (each record's aux
  records are skipped), whose derived type is function and whose section number is
  strictly positive: as many entries as such records, and the same entries with the same
  multiplicities. The name of an entry is the record's name with a single leading
  underscore removed for a 32-bit (PE32) binary, and the record's name unchanged for a
  64-bit (PE32+) one.\<close>

theorem coff_initialize_syminfo_indexes_function_symbols:
  fixes lay :: "'a::len word coff_symbol_layout"
  assumes "syms_size = 18 * length syms"
    and "coff_initialize_syminfo alloc lay base_address is_64 sects sects_num syms syms_size
           strtab strtab_size = Some (Init_ok sdata)"
    and "layout_ok lay
       (map (indexed_entry base_address is_64 sects strtab)
          (filter is_indexed_symbol (primary_symbols syms))
        @ [\<lparr>sym_name = None, sym_address = - 1\<rparr>])"
  shows "sd_count sdata = length (filter is_indexed_symbol (primary_symbols syms))
     \<and> mset (take (sd_count sdata) (sd_symbols sdata)) =
         mset (map (indexed_entry base_address is_64 sects strtab)
                 (filter is_indexed_symbol (primary_symbols syms)))
     \<and> (\<forall>s. sym_name (indexed_entry base_address is_64 sects strtab s) =
              Some (if is_64 then record_name strtab s
                    else strip_underscore (record_name strtab s)))
     \<and> (\<forall>n. strip_underscore (0x5F # n) = n)
     \<and> (\<forall>c n. c \<noteq> 0x5F \<longrightarrow> strip_underscore (c # n) = c # n)"
proof -
  from coff_initialize_syminfo_ok [OF assms] obtain ss where
    c: "sd_count sdata = length (filter is_indexed_symbol (primary_symbols syms))"
    and s: "sd_symbols sdata = ss @ [\<lparr>sym_name = None, sym_address = - 1\<rparr>]"
    and m: "mset ss = mset (map (indexed_entry base_address is_64 sects strtab)
                           (filter is_indexed_symbol (primary_symbols syms)))"
    by blast
  have "length ss = sd_count sdata"
    using m c by (metis length_map size_mset)
  then have "take (sd_count sdata) (sd_symbols sdata) = ss" using s by simp
  with c m show ?thesis by (simp add: indexed_entry_def strip_underscore_def)
qed

theorem coff_initialize_syminfo_indexes_function_symbols_witness:
  "72 = 18 * length example_syms
   \<and> coff_initialize_syminfo (\<lambda>n. True) example_layout 0x400000 False [example_section] 1
       example_syms 72 [] 0 = Some (Init_ok example_sdata)
   \<and> layout_ok example_layout
       (map (indexed_entry 0x400000 False [example_section] [])
          (filter is_indexed_symbol (primary_symbols example_syms))
        @ [\<lparr>sym_name = None, sym_address = - 1\<rparr>])
   \<and> sd_count example_sdata = length (filter is_indexed_symbol (primary_symbols example_syms))
   \<and> mset (take (sd_count example_sdata) (sd_symbols example_sdata)) =
       mset (map (indexed_entry 0x400000 False [example_section] [])
               (filter is_indexed_symbol (primary_symbols example_syms)))
   \<and> map (record_name []) (filter is_indexed_symbol (primary_symbols example_syms))
       = [[0x5F, 0x67], [0x5F, 0x66]]
   \<and> map sym_name (take (sd_count example_sdata) (sd_symbols example_sdata))
       = [Some [0x66], Some [0x67]]"
proof -
  have n: "map (record_name []) (filter is_indexed_symbol (primary_symbols example_syms))
       = [[0x5F, 0x67], [0x5F, 0x66]]"
    by code_simp
  have t: "map sym_name (take (sd_count example_sdata) (sd_symbols example_sdata))
       = [Some [0x66], Some [0x67]]"
    by (simp add: example_sdata_def)
  from coff_initialize_syminfo_indexes_function_symbols [OF example_size example_init ex_layout]
  show ?thesis using example_size example_init ex_layout n t by blast
qed

text \<open>Claim C10. After \<^verbatim>\<open>coff_initialize_syminfo\<close> succeeds, the array holds exactly the
  indexed function symbols, sorted non-decreasingly by address, followed by one end marker
  at index \<open>count\<close> with address \<open>-1\<close> (the largest \<^verbatim>\<open>uintptr_t\<close>) and name
  \<^verbatim>\<open>NULL\<close>. So every comparison \<^verbatim>\<open>coff_symbol_search\<close> makes at an index below \<open>count\<close>
  reads inside the array, the binary search over the \<open>count\<close> real entries never reads
  out of bounds, and an entry it returns satisfies
  \<open>entry.address \<le> addr < entry[1].address\<close>.\<close>

theorem coff_initialize_syminfo_sorted_with_sentinel:
  fixes lay :: "'a::len word coff_symbol_layout"
  assumes "syms_size = 18 * length syms"
    and "coff_initialize_syminfo alloc lay base_address is_64 sects sects_num syms syms_size
           strtab strtab_size = Some (Init_ok sdata)"
    and "layout_ok lay
       (map (indexed_entry base_address is_64 sects strtab)
          (filter is_indexed_symbol (primary_symbols syms))
        @ [\<lparr>sym_name = None, sym_address = - 1\<rparr>])"
  shows "length (sd_symbols sdata) = sd_count sdata + 1
     \<and> mset (take (sd_count sdata) (sd_symbols sdata)) =
         mset (map (indexed_entry base_address is_64 sects strtab)
                 (filter is_indexed_symbol (primary_symbols syms)))
     \<and> sorted_wrt (\<lambda>s t. sym_address s \<le> sym_address t)
         (take (sd_count sdata) (sd_symbols sdata))
     \<and> sd_symbols sdata ! sd_count sdata = \<lparr>sym_name = None, sym_address = - 1\<rparr>
     \<and> (\<forall>addr i. i < sd_count sdata \<longrightarrow>
           (\<exists>c. coff_symbol_search addr (sd_symbols sdata) i = Some c))
     \<and> (\<forall>addr. coff_syminfo_search sdata addr \<noteq> Search_fault)
     \<and> (\<forall>addr i. coff_syminfo_search sdata addr = Found i \<longrightarrow>
           i < sd_count sdata
           \<and> sym_address (sd_symbols sdata ! i) \<le> addr
           \<and> addr < sym_address (sd_symbols sdata ! Suc i))"
proof -
  from coff_initialize_syminfo_ok [OF assms] obtain ss where
    c: "sd_count sdata = length (filter is_indexed_symbol (primary_symbols syms))"
    and s: "sd_symbols sdata = ss @ [\<lparr>sym_name = None, sym_address = - 1\<rparr>]"
    and m: "mset ss = mset (map (indexed_entry base_address is_64 sects strtab)
                           (filter is_indexed_symbol (primary_symbols syms)))"
    and so: "sorted_wrt (\<lambda>s t. sym_address s \<le> sym_address t) ss"
    by blast
  have l: "length ss = sd_count sdata"
    using m c by (metis length_map size_mset)
  then have t: "take (sd_count sdata) (sd_symbols sdata) = ss" using s by simp
  have len: "length (sd_symbols sdata) = sd_count sdata + 1" using s l by simp
  then have inb: "sd_count sdata < length (sd_symbols sdata)" by simp
  have last: "sd_symbols sdata ! sd_count sdata = \<lparr>sym_name = None, sym_address = - 1\<rparr>"
    using s l by (simp add: nth_append)
  have probe: "\<forall>addr i. i < sd_count sdata \<longrightarrow>
           (\<exists>c. coff_symbol_search addr (sd_symbols sdata) i = Some c)"
    using coff_symbol_search_in_bounds [OF _ inb] by blast
  have search: "\<forall>addr. coff_syminfo_search sdata addr \<noteq> Search_fault"
    "\<forall>addr i. coff_syminfo_search sdata addr = Found i \<longrightarrow>
           i < sd_count sdata
           \<and> sym_address (sd_symbols sdata ! i) \<le> addr
           \<and> addr < sym_address (sd_symbols sdata ! Suc i)"
    using bsearch_loop_safe [OF inb, of _ 0] unfolding coff_syminfo_search_def by blast+
  show ?thesis
    using len t m so last probe search by simp
qed

theorem coff_initialize_syminfo_sorted_with_sentinel_witness:
  "72 = 18 * length example_syms
   \<and> coff_initialize_syminfo (\<lambda>n. True) example_layout 0x400000 False [example_section] 1
       example_syms 72 [] 0 = Some (Init_ok example_sdata)
   \<and> layout_ok example_layout
       (map (indexed_entry 0x400000 False [example_section] [])
          (filter is_indexed_symbol (primary_symbols example_syms))
        @ [\<lparr>sym_name = None, sym_address = - 1\<rparr>])
   \<and> length (sd_symbols example_sdata) = sd_count example_sdata + 1
   \<and> sorted_wrt (\<lambda>s t. sym_address s \<le> sym_address t)
         (take (sd_count example_sdata) (sd_symbols example_sdata))
   \<and> sd_symbols example_sdata ! sd_count example_sdata = \<lparr>sym_name = None, sym_address = - 1\<rparr>
   \<and> coff_syminfo_search example_sdata 0x401015 = Found 0
   \<and> coff_syminfo_search example_sdata 0x401020 = Found 1
   \<and> coff_syminfo_search example_sdata 0x401000 = Not_found"
proof -
  have s: "coff_syminfo_search example_sdata 0x401015 = Found 0"
    "coff_syminfo_search example_sdata 0x401020 = Found 1"
    "coff_syminfo_search example_sdata 0x401000 = Not_found"
    by code_simp+
  from coff_initialize_syminfo_sorted_with_sentinel [OF example_size example_init ex_layout]
  show ?thesis using example_size example_init ex_layout s by blast
qed

section \<open>Proofs: the Mach-O reader\<close>

text \<open>Claim C5, on the code as it is. For a \<^verbatim>\<open>__TEXT\<close> segment given by an
  \<^verbatim>\<open>LC_SEGMENT_64\<close> command, \<^verbatim>\<open>macho_get_base\<close> does not store \<open>vmaddr - fileoff\<close>: on the
  example, whose 64-bit \<^verbatim>\<open>vmaddr\<close> (at offset 24) is \<^verbatim>\<open>0x100000000\<close> and whose 64-bit
  \<^verbatim>\<open>fileoff\<close> (at offset 40) is 0, it returns 1 with the base address
  \<^verbatim>\<open>0xFFFFFFFFFFFFC000\<close>, which is the low half of \<^verbatim>\<open>vmaddr\<close> minus the low half of
  \<^verbatim>\<open>vmsize\<close>, where the claim requires \<^verbatim>\<open>0x100000000\<close>.\<close>

theorem macho_get_base_segment_64_wrong_fields:
  "host_u64 False example_text_segment_64 24 = 0x100000000
   \<and> host_u64 False example_text_segment_64 40 = 0
   \<and> macho_get_base (example_env (example_macho_file example_text_segment_64))
        \<lparr>cv_view = example_text_segment_64, commands_count = 1, commands_total_size = 72,
         bytes_swapped = False\<rparr> empty_state
       = (Some 0xFFFFFFFFFFFFC000, empty_state)"
  by code_simp

lemma st_dwarf_error_callback [simp]: "st_dwarf (error_callback msg errnum st) = st_dwarf st"
  by (simp add: error_callback_def)

lemma st_dwarf_backtrace_close [simp]: "st_dwarf (backtrace_close d st) = st_dwarf st"
  by (simp add: backtrace_close_def)

lemma st_dwarf_macho_get_commands:
  "macho_get_commands e d st = (r, st') \<Longrightarrow> st_dwarf st' = st_dwarf st"
  by (auto simp: macho_get_commands_def Let_def split: option.splits if_splits)

lemma st_dwarf_macho_get_uuid:
  "macho_get_uuid e cv st = (r, st') \<Longrightarrow> st_dwarf st' = st_dwarf st"
  by (auto simp: macho_get_uuid_def split: sum.splits prod.splits)

lemma macho_try_dwarf_rejects:
  assumes "candidate_uuid e dwarf_filename st \<noteq> Some executable_uuid"
  shows "fst (macho_try_dwarf e executable_uuid base_address dwarf_filename st) = 0
     \<and> st_dwarf (snd (macho_try_dwarf e executable_uuid base_address dwarf_filename st))
         = st_dwarf st"
proof (cases "env_open e dwarf_filename = 0")
  case True
  then show ?thesis by (simp add: macho_try_dwarf_def)
next
  case op: False
  obtain r1 st1 where c: "macho_get_commands e (env_open e dwarf_filename) st = (r1, st1)"
    by (cases "macho_get_commands e (env_open e dwarf_filename) st")
  have d1: "st_dwarf st1 = st_dwarf st" using c by (rule st_dwarf_macho_get_commands)
  show ?thesis
  proof (cases r1)
    case None
    with op c d1 show ?thesis by (simp add: macho_try_dwarf_def)
  next
    case (Some cv)
    obtain r2 st2 where u: "macho_get_uuid e cv st1 = (r2, st2)"
      by (cases "macho_get_uuid e cv st1")
    have d2: "st_dwarf st2 = st_dwarf st" using u d1 st_dwarf_macho_get_uuid by metis
    have "r2 \<noteq> Some executable_uuid"
      using assms op c Some u by (simp add: candidate_uuid_def)
    with op c Some u d2 show ?thesis
      by (cases r2) (auto simp: macho_try_dwarf_def)
  qed
qed

lemma macho_get_commands_result:
  "fst (macho_get_commands e d st) = fst (macho_get_commands e d st')"
  by (auto simp: macho_get_commands_def Let_def split: option.splits)

lemma macho_get_uuid_result:
  "fst (macho_get_uuid e cv st) = fst (macho_get_uuid e cv st')"
  by (auto simp: macho_get_uuid_def split: sum.splits prod.splits)

lemma candidate_uuid_state: "candidate_uuid e f st = candidate_uuid e f st'"
proof -
  have "fst (macho_get_commands e (env_open e f) st) = fst (macho_get_commands e (env_open e f) st')"
    by (rule macho_get_commands_result)
  then show ?thesis
    unfolding candidate_uuid_def
    by (cases "macho_get_commands e (env_open e f) st";
        cases "macho_get_commands e (env_open e f) st'")
       (auto split: option.splits intro: macho_get_uuid_result)
qed

lemma macho_try_dsym_loop_all_rejected:
  "\<forall>(d_name, is_reg) \<in> set entries.
      is_reg \<longrightarrow> candidate_uuid e (dir @ ''/'' @ d_name) st0 \<noteq> Some executable_uuid \<Longrightarrow>
   fst (macho_try_dsym_loop e executable_uuid base_address dir entries st) = 0
   \<and> st_dwarf (snd (macho_try_dsym_loop e executable_uuid base_address dir entries st))
       = st_dwarf st"
proof (induction entries arbitrary: st)
  case Nil
  then show ?case by simp
next
  case (Cons en entries)
  obtain d_name is_reg where en: "en = (d_name, is_reg)" by (cases en)
  show ?case
  proof (cases is_reg)
    case False
    with Cons en show ?thesis by simp
  next
    case True
    let ?r = "macho_try_dwarf e executable_uuid base_address (dir @ ''/'' @ d_name) st"
    have "candidate_uuid e (dir @ ''/'' @ d_name) st \<noteq> Some executable_uuid"
      using Cons.prems en True candidate_uuid_state [of e _ st st0] by simp
    then have r: "fst ?r = 0" "st_dwarf (snd ?r) = st_dwarf st"
      using macho_try_dwarf_rejects by blast+
    have "fst (macho_try_dsym_loop e executable_uuid base_address dir entries (snd ?r)) = 0
      \<and> st_dwarf (snd (macho_try_dsym_loop e executable_uuid base_address dir entries (snd ?r)))
          = st_dwarf (snd ?r)"
      using Cons.prems by (intro Cons.IH) simp
    with r en True show ?thesis by (simp add: split_beta)
  qed
qed

text \<open>Claim C4. A candidate file of a dSYM bundle's \<^verbatim>\<open>Contents/Resources/DWARF\<close>
  directory whose \<^verbatim>\<open>LC_UUID\<close> is not the executable's (or that has none) is never used:
  \<^verbatim>\<open>macho_try_dwarf\<close> returns 0 and registers no DWARF sections, and the search of
  \<^verbatim>\<open>macho_try_dsym\<close> goes on with the next directory entry from the state the
  rejected candidate left; when it is the only candidate the search returns 0 with
  nothing registered.\<close>

theorem macho_try_dwarf_uuid_gate:
  assumes "candidate_uuid e (dir @ ''/'' @ d_name) st \<noteq> Some executable_uuid"
  shows "fst (macho_try_dwarf e executable_uuid base_address (dir @ ''/'' @ d_name) st) = 0
     \<and> st_dwarf (snd (macho_try_dwarf e executable_uuid base_address (dir @ ''/'' @ d_name) st))
         = st_dwarf st
     \<and> macho_try_dsym_loop e executable_uuid base_address dir ((d_name, True) # entries) st
         = macho_try_dsym_loop e executable_uuid base_address dir entries
             (snd (macho_try_dwarf e executable_uuid base_address (dir @ ''/'' @ d_name) st))
     \<and> fst (macho_try_dsym_loop e executable_uuid base_address dir [(d_name, True)] st) = 0
     \<and> st_dwarf (snd (macho_try_dsym_loop e executable_uuid base_address dir [(d_name, True)] st))
         = st_dwarf st"
proof -
  let ?r = "macho_try_dwarf e executable_uuid base_address (dir @ ''/'' @ d_name) st"
  have r: "fst ?r = 0" "st_dwarf (snd ?r) = st_dwarf st"
    using macho_try_dwarf_rejects [OF assms] by blast+
  then have l: "\<And>es. macho_try_dsym_loop e executable_uuid base_address dir ((d_name, True) # es) st
         = macho_try_dsym_loop e executable_uuid base_address dir es (snd ?r)"
    by (simp add: split_beta)
  show ?thesis using r l by simp
qed

theorem macho_try_dwarf_uuid_gate_witness:
  "candidate_uuid (example_env (example_macho_file (example_uuid_command example_uuid_b)))
      (''x.dSYM/Contents/Resources/DWARF'' @ ''/'' @ ''a.out'') empty_state
     = Some example_uuid_b
   \<and> Some example_uuid_b \<noteq> Some example_uuid_a
   \<and> fst (macho_try_dwarf (example_env (example_macho_file (example_uuid_command example_uuid_b)))
           example_uuid_a 0x100000000
           (''x.dSYM/Contents/Resources/DWARF'' @ ''/'' @ ''a.out'') empty_state) = 0
   \<and> macho_try_dsym (example_env (example_macho_file (example_uuid_command example_uuid_b)))
        example_uuid_a 0x100000000 ''x.dSYM'' empty_state
      = (0, empty_state\<lparr>st_closed := [3]\<rparr>)"
proof -
  let ?e = "example_env (example_macho_file (example_uuid_command example_uuid_b))"
  have c: "candidate_uuid ?e (''x.dSYM/Contents/Resources/DWARF'' @ ''/'' @ ''a.out'') empty_state
     = Some example_uuid_b"
    by code_simp
  have n: "Some example_uuid_b \<noteq> Some example_uuid_a"
    by (simp add: example_uuid_a_def example_uuid_b_def)
  have d: "macho_try_dsym ?e example_uuid_a 0x100000000 ''x.dSYM'' empty_state
      = (0, empty_state\<lparr>st_closed := [3]\<rparr>)"
    by code_simp
  have "candidate_uuid ?e (''x.dSYM/Contents/Resources/DWARF'' @ ''/'' @ ''a.out'') empty_state
     \<noteq> Some example_uuid_a"
    using c n by simp
  from macho_try_dwarf_uuid_gate [OF this, where base_address = "0x100000000" and entries = "[]"]
    c n d
  show ?thesis by simp
qed

section \<open>PE/COFF reader: the search for the separate debug file\<close>

lemma coff_try_debugfile_eq:
  "coff_try_debugfile e prefix prefix2 name =
     (if env_alloc e (length (prefix @ prefix2 @ name) + 1)
      then (env_open e (prefix @ prefix2 @ name), [prefix @ prefix2 @ name]) else (- 1, []))"
  by (simp add: coff_try_debugfile_def add.assoc)

text \<open>Claim C6, as stated, does not hold in a build with \<^verbatim>\<open>HAVE_WINDOWS_H\<close>: for the file
  \<^verbatim>\<open>/opt/app/a.exe\<close> and the name \<^verbatim>\<open>a.debug\<close>, with no candidate present, the search
  probes two paths, the second under \<^verbatim>\<open>.debug\\\<close>, and never \<^verbatim>\<open>/usr/lib/debug/\<close>; the
  three candidates of the claim would all be probed.\<close>

theorem coff_find_debugfile_by_debuglink_windows_probes:
  "snd (coff_find_debugfile_by_debuglink True (file_env (\<lambda>name. - 1) (\<lambda>descriptor. []))
          ''/opt/app/a.exe'' ''a.debug'')
     = [''/opt/app/a.debug'', ''/opt/app/.debug'' @ [CHR 0x5C] @ ''a.debug'']
   \<and> probes_until_open (env_open (file_env (\<lambda>name. - 1) (\<lambda>descriptor. [])))
       (spec_debuglink_candidates (debuglink_prefix ''/opt/app/a.exe'') ''a.debug'')
     = [''/opt/app/a.debug'', ''/opt/app/.debug/a.debug'', ''/usr/lib/debug//opt/app/a.debug'']
   \<and> snd (coff_find_debugfile_by_debuglink True (file_env (\<lambda>name. - 1) (\<lambda>descriptor. []))
          ''/opt/app/a.exe'' ''a.debug'')
     \<noteq> probes_until_open (env_open (file_env (\<lambda>name. - 1) (\<lambda>descriptor. [])))
         (spec_debuglink_candidates (debuglink_prefix ''/opt/app/a.exe'') ''a.debug'')"
  by code_simp

text \<open>Claim C6, amended: for every primary file name and debuglink name, the search
  probes, in order and stopping at the first that opens, those candidates of the build
  whose path buffer can be allocated, and returns the descriptor of the first that opens,
  or \<open>-1\<close>. Without \<^verbatim>\<open>HAVE_WINDOWS_H\<close> the candidates are the three of the claim: the
  primary file's directory (the file name up to and including its last \<^verbatim>\<open>/\<close> or
  \<^verbatim>\<open>\\\<close>) joined with the name, that directory, \<^verbatim>\<open>.debug/\<close> and the name, and
  \<^verbatim>\<open>/usr/lib/debug/\<close>, the directory and the name. With \<^verbatim>\<open>HAVE_WINDOWS_H\<close> they are two:
  the directory joined with the name, and the directory, \<^verbatim>\<open>.debug\\\<close> and the name.\<close>

theorem coff_find_debugfile_by_debuglink_probe_order:
  "coff_find_debugfile_by_debuglink have_windows_h e filename debuglink_name =
     (first_open (env_open e)
        (filter (\<lambda>p. env_alloc e (length p + 1))
           (build_debuglink_candidates have_windows_h (debuglink_prefix filename)
              debuglink_name)),
      probes_until_open (env_open e)
        (filter (\<lambda>p. env_alloc e (length p + 1))
           (build_debuglink_candidates have_windows_h (debuglink_prefix filename)
              debuglink_name)))"
  by (simp add: coff_find_debugfile_by_debuglink_def coff_try_debugfile_eq
      build_debuglink_candidates_def spec_debuglink_candidates_def Let_def)

theorem coff_find_debugfile_by_debuglink_probe_order_witness:
  "coff_find_debugfile_by_debuglink False
      (file_env (\<lambda>name. if name = ''/opt/app/.debug/a.debug'' then 5 else - 1)
         (\<lambda>descriptor. []))
      ''/opt/app/a.exe'' ''a.debug''
     = (5, [''/opt/app/a.debug'', ''/opt/app/.debug/a.debug''])"
proof -
  have "first_open (env_open (file_env (\<lambda>name. if name = ''/opt/app/.debug/a.debug'' then 5 else - 1)
         (\<lambda>descriptor. [])))
        (filter (\<lambda>p. env_alloc (file_env (\<lambda>name. if name = ''/opt/app/.debug/a.debug'' then 5 else - 1)
         (\<lambda>descriptor. [])) (length p + 1))
           (build_debuglink_candidates False (debuglink_prefix ''/opt/app/a.exe'') ''a.debug'')) = 5"
    by code_simp
  moreover have "probes_until_open (env_open (file_env (\<lambda>name. if name = ''/opt/app/.debug/a.debug'' then 5 else - 1)
         (\<lambda>descriptor. [])))
        (filter (\<lambda>p. env_alloc (file_env (\<lambda>name. if name = ''/opt/app/.debug/a.debug'' then 5 else - 1)
         (\<lambda>descriptor. [])) (length p + 1))
           (build_debuglink_candidates False (debuglink_prefix ''/opt/app/a.exe'') ''a.debug''))
        = [''/opt/app/a.debug'', ''/opt/app/.debug/a.debug'']"
    by code_simp
  ultimately show ?thesis
    using coff_find_debugfile_by_debuglink_probe_order
      [of False "file_env (\<lambda>name. if name = ''/opt/app/.debug/a.debug'' then 5 else - 1)
         (\<lambda>descriptor. [])" "''/opt/app/a.exe''" "''a.debug''"]
    by simp
qed

section \<open>PE/COFF reader: rejected files and rejected debug files\<close>

lemma coff_fail_fields:
  "st_errors (coff_fail descriptor st) = st_errors st"
  "st_syminfo_data (coff_fail descriptor st) = st_syminfo_data st"
  "st_dwarf (coff_fail descriptor st) = st_dwarf st"
  "st_closed (coff_fail descriptor st)
     = st_closed st @ (if descriptor \<noteq> - 1 then [descriptor] else [])"
  by (simp_all add: coff_fail_def backtrace_close_def)

lemma error_callback_fields:
  "st_errors (error_callback msg errnum st) = st_errors st @ [(msg, errnum)]"
  "st_syminfo_data (error_callback msg errnum st) = st_syminfo_data st"
  "st_dwarf (error_callback msg errnum st) = st_dwarf st"
  "st_closed (error_callback msg errnum st) = st_closed st"
  by (simp_all add: error_callback_def)

lemma backtrace_close_fields:
  "st_errors (backtrace_close d st) = st_errors st"
  "st_syminfo_data (backtrace_close d st) = st_syminfo_data st"
  "st_dwarf (backtrace_close d st) = st_dwarf st"
  "st_closed (backtrace_close d st) = st_closed st @ [d]"
  by (simp_all add: backtrace_close_def)

lemma coff_add_scan_failed:
  "coff_scan_file e lay filename descriptor st = Some (Inl st1) \<Longrightarrow>
   coff_add have_windows_h e lay (Suc depth) filename descriptor outs module_handle st
     = Some (0, outs\<lparr>out_found_sym := False, out_found_dwarf := False\<rparr>,
             coff_fail descriptor st1)"
  by simp

lemma coff_read_file_header_bad_signature:
  assumes "env_view e descriptor 0 0x40 = Some vptr"
    and "fhdr_off = (if vptr ! 0 = 0x4D \<and> vptr ! 1 = 0x5A
                     then unat (coff_read4 (drop 0x3c vptr)) else 0)"
    and "env_view e descriptor fhdr_off 24 = Some fhdr_view"
    and "fhdr_off = 0 \<or> take 4 fhdr_view \<noteq> [0x50, 0x45, 0, 0]"
  shows "coff_read_file_header e descriptor st
           = Inl (error_callback ''executable file is not COFF'' 0 st)"
  using assms by (auto simp: coff_read_file_header_def Let_def)

lemma coff_read_file_header_good_signature:
  assumes "env_view e descriptor 0 0x40 = Some vptr"
    and "fhdr_off = (if vptr ! 0 = 0x4D \<and> vptr ! 1 = 0x5A
                     then unat (coff_read4 (drop 0x3c vptr)) else 0)"
    and "env_view e descriptor fhdr_off 24 = Some fhdr_view"
    and "fhdr_off \<noteq> 0" and "take 4 fhdr_view = [0x50, 0x45, 0, 0]"
  shows "coff_read_file_header e descriptor st
           = Inr (coff_file_header_of (drop 4 fhdr_view), fhdr_off + 4)"
  using assms by (auto simp: coff_read_file_header_def Let_def)

lemma coff_read_optional_header_bad_magic:
  assumes "env_view e descriptor (fhdr_off + 20)
             (unat (fh_size_of_optional_header fhdr) + unat (fh_number_of_sections fhdr) * 40)
           = Some sects_view"
    and "unat (fh_size_of_optional_header fhdr) > 32"
    and "coff_read2 sects_view \<noteq> 0x10b" and "coff_read2 sects_view \<noteq> 0x20b"
  shows "coff_read_optional_header e descriptor fhdr fhdr_off st
           = Inl (error_callback ''bad magic in PE optional header'' 0 st)"
  using assms by (simp add: coff_read_optional_header_def Let_def)

text \<open>Claim C8, as stated, does not hold for an optional header of at most 32 bytes,
  whose magic \<^verbatim>\<open>coff_add\<close> does not test: the example has a valid signature and an
  optional header of 32 bytes with the magic \<open>0x999\<close>, which is neither \<open>0x10b\<close> nor
  \<open>0x20b\<close>, and \<^verbatim>\<open>coff_add\<close> returns 1 without a call to the error callback.\<close>

theorem coff_add_accepts_bad_magic_in_small_optional_header:
  "take 4 (drop 0x40 example_small_optional_header) = [0x50, 0x45, 0, 0]
   \<and> fh_size_of_optional_header
       (coff_file_header_of (drop 0x44 example_small_optional_header)) = 32
   \<and> coff_read2 (drop 0x58 example_small_optional_header) = 0x999
   \<and> coff_add False (file_env (\<lambda>name. - 1) (\<lambda>descriptor. example_small_optional_header))
       example_layout 1 ''a.exe'' 3 example_outputs 0 empty_state
     = Some (1, example_outputs\<lparr>out_fileline_fn := Some Coff_nodebug\<rparr>,
             empty_state\<lparr>st_closed := [3]\<rparr>)
   \<and> st_errors ((empty_state :: uint64 state)\<lparr>st_closed := [3]\<rparr>) = []"
  by code_simp

text \<open>Claim C8, amended. When the first 64 bytes and the 24 bytes at the offset of the
  file header can be mapped, and the file has no valid PE signature (no \<^verbatim>\<open>MZ\<close> stub, a
  stub whose word at \<^verbatim>\<open>0x3c\<close> is 0, or no \<^verbatim>\<open>PE\\0\\0\<close> at that offset), \<^verbatim>\<open>coff_add\<close>
  reports \<^verbatim>\<open>executable file is not COFF\<close> with \<^verbatim>\<open>errnum\<close> 0 and returns 0; the symbol
  tables and the DWARF data of the state are unchanged, and the descriptor is closed.
  When the signature is valid, the optional header can be mapped and is larger than 32
  bytes, and its magic is neither \<open>0x10b\<close> nor \<open>0x20b\<close>, the report is
  \<^verbatim>\<open>bad magic in PE optional header\<close>, again with \<^verbatim>\<open>errnum\<close> 0 and the result 0, and
  again nothing is added to the state. When the optional header has at most 32 bytes its
  magic is not tested: the header is accepted as a 32-bit image with image base 0,
  whatever its bytes.\<close>

theorem coff_add_rejects_invalid_pe_header:
  assumes "env_view e descriptor 0 0x40 = Some vptr"
    and "fhdr_off = (if vptr ! 0 = 0x4D \<and> vptr ! 1 = 0x5A
                     then unat (coff_read4 (drop 0x3c vptr)) else 0)"
    and "env_view e descriptor fhdr_off 24 = Some fhdr_view"
  shows "(fhdr_off = 0 \<or> take 4 fhdr_view \<noteq> [0x50, 0x45, 0, 0] \<longrightarrow>
            (\<exists>st'. coff_add have_windows_h e lay (Suc depth) filename descriptor outs
                      module_handle st
                    = Some (0, outs\<lparr>out_found_sym := False, out_found_dwarf := False\<rparr>, st')
                  \<and> st_errors st' = st_errors st @ [(''executable file is not COFF'', 0)]
                  \<and> st_syminfo_data st' = st_syminfo_data st
                  \<and> st_dwarf st' = st_dwarf st
                  \<and> st_closed st'
                      = st_closed st @ (if descriptor \<noteq> - 1 then [descriptor] else [])))
       \<and> (fhdr_off \<noteq> 0 \<and> take 4 fhdr_view = [0x50, 0x45, 0, 0]
          \<and> fhdr = coff_file_header_of (drop 4 fhdr_view)
          \<and> env_view e descriptor (fhdr_off + 4 + 20)
               (unat (fh_size_of_optional_header fhdr)
                + unat (fh_number_of_sections fhdr) * 40) = Some sects_view
          \<and> unat (fh_size_of_optional_header fhdr) > 32
          \<and> coff_read2 sects_view \<noteq> 0x10b \<and> coff_read2 sects_view \<noteq> 0x20b \<longrightarrow>
            (\<exists>st'. coff_add have_windows_h e lay (Suc depth) filename descriptor outs
                      module_handle st
                    = Some (0, outs\<lparr>out_found_sym := False, out_found_dwarf := False\<rparr>, st')
                  \<and> st_errors st' = st_errors st @ [(''bad magic in PE optional header'', 0)]
                  \<and> st_syminfo_data st' = st_syminfo_data st
                  \<and> st_dwarf st' = st_dwarf st
                  \<and> st_closed st'
                      = st_closed st @ (if descriptor \<noteq> - 1 then [descriptor] else [])))
       \<and> (fhdr_off \<noteq> 0 \<and> take 4 fhdr_view = [0x50, 0x45, 0, 0]
          \<and> fhdr = coff_file_header_of (drop 4 fhdr_view)
          \<and> env_view e descriptor (fhdr_off + 4 + 20)
               (unat (fh_size_of_optional_header fhdr)
                + unat (fh_number_of_sections fhdr) * 40) = Some sects_view
          \<and> unat (fh_size_of_optional_header fhdr) \<le> 32 \<longrightarrow>
            coff_read_file_header e descriptor st = Inr (fhdr, fhdr_off + 4)
            \<and> coff_read_optional_header e descriptor fhdr (fhdr_off + 4) st
              = Inr (sects_view, False, 0))"
proof (intro conjI impI)
  assume bad: "fhdr_off = 0 \<or> take 4 fhdr_view \<noteq> [0x50, 0x45, 0, 0]"
  have "coff_read_file_header e descriptor st
          = Inl (error_callback ''executable file is not COFF'' 0 st)"
    using assms bad by (rule coff_read_file_header_bad_signature)
  then have "coff_scan_file e lay filename descriptor st
          = Some (Inl (error_callback ''executable file is not COFF'' 0 st))"
    by (simp add: coff_scan_file_def)
  then have "coff_add have_windows_h e lay (Suc depth) filename descriptor outs module_handle st
      = Some (0, outs\<lparr>out_found_sym := False, out_found_dwarf := False\<rparr>,
              coff_fail descriptor (error_callback ''executable file is not COFF'' 0 st))"
    by (rule coff_add_scan_failed)
  then show "\<exists>st'. coff_add have_windows_h e lay (Suc depth) filename descriptor outs
                      module_handle st
                    = Some (0, outs\<lparr>out_found_sym := False, out_found_dwarf := False\<rparr>, st')
                  \<and> st_errors st' = st_errors st @ [(''executable file is not COFF'', 0)]
                  \<and> st_syminfo_data st' = st_syminfo_data st
                  \<and> st_dwarf st' = st_dwarf st
                  \<and> st_closed st'
                      = st_closed st @ (if descriptor \<noteq> - 1 then [descriptor] else [])"
    by (simp add: coff_fail_fields error_callback_fields)
next
  assume good: "fhdr_off \<noteq> 0 \<and> take 4 fhdr_view = [0x50, 0x45, 0, 0]
          \<and> fhdr = coff_file_header_of (drop 4 fhdr_view)
          \<and> env_view e descriptor (fhdr_off + 4 + 20)
               (unat (fh_size_of_optional_header fhdr)
                + unat (fh_number_of_sections fhdr) * 40) = Some sects_view
          \<and> unat (fh_size_of_optional_header fhdr) > 32
          \<and> coff_read2 sects_view \<noteq> 0x10b \<and> coff_read2 sects_view \<noteq> 0x20b"
  have h: "coff_read_file_header e descriptor st = Inr (fhdr, fhdr_off + 4)"
    using coff_read_file_header_good_signature [OF assms, of st] good by simp
  have v: "env_view e descriptor (fhdr_off + 4 + 20)
             (unat (fh_size_of_optional_header fhdr) + unat (fh_number_of_sections fhdr) * 40)
           = Some sects_view"
    and sz: "unat (fh_size_of_optional_header fhdr) > 32"
    and m1: "coff_read2 sects_view \<noteq> 0x10b" and m2: "coff_read2 sects_view \<noteq> 0x20b"
    using good by blast+
  have o: "coff_read_optional_header e descriptor fhdr (fhdr_off + 4) st
          = Inl (error_callback ''bad magic in PE optional header'' 0 st)"
    using v sz m1 m2 by (rule coff_read_optional_header_bad_magic)
  have "coff_scan_file e lay filename descriptor st
          = Some (Inl (error_callback ''bad magic in PE optional header'' 0 st))"
    by (simp add: coff_scan_file_def h o)
  then have "coff_add have_windows_h e lay (Suc depth) filename descriptor outs module_handle st
      = Some (0, outs\<lparr>out_found_sym := False, out_found_dwarf := False\<rparr>,
              coff_fail descriptor (error_callback ''bad magic in PE optional header'' 0 st))"
    by (rule coff_add_scan_failed)
  then show "\<exists>st'. coff_add have_windows_h e lay (Suc depth) filename descriptor outs
                      module_handle st
                    = Some (0, outs\<lparr>out_found_sym := False, out_found_dwarf := False\<rparr>, st')
                  \<and> st_errors st' = st_errors st @ [(''bad magic in PE optional header'', 0)]
                  \<and> st_syminfo_data st' = st_syminfo_data st
                  \<and> st_dwarf st' = st_dwarf st
                  \<and> st_closed st'
                      = st_closed st @ (if descriptor \<noteq> - 1 then [descriptor] else [])"
    by (simp add: coff_fail_fields error_callback_fields)
next
  assume small: "fhdr_off \<noteq> 0 \<and> take 4 fhdr_view = [0x50, 0x45, 0, 0]
          \<and> fhdr = coff_file_header_of (drop 4 fhdr_view)
          \<and> env_view e descriptor (fhdr_off + 4 + 20)
               (unat (fh_size_of_optional_header fhdr)
                + unat (fh_number_of_sections fhdr) * 40) = Some sects_view
          \<and> unat (fh_size_of_optional_header fhdr) \<le> 32"
  show "coff_read_file_header e descriptor st = Inr (fhdr, fhdr_off + 4)"
    using coff_read_file_header_good_signature [OF assms, of st] small by simp
next
  assume small: "fhdr_off \<noteq> 0 \<and> take 4 fhdr_view = [0x50, 0x45, 0, 0]
          \<and> fhdr = coff_file_header_of (drop 4 fhdr_view)
          \<and> env_view e descriptor (fhdr_off + 4 + 20)
               (unat (fh_size_of_optional_header fhdr)
                + unat (fh_number_of_sections fhdr) * 40) = Some sects_view
          \<and> unat (fh_size_of_optional_header fhdr) \<le> 32"
  then have v: "env_view e descriptor (fhdr_off + 4 + 20)
             (unat (fh_size_of_optional_header fhdr) + unat (fh_number_of_sections fhdr) * 40)
           = Some sects_view"
    and sz: "unat (fh_size_of_optional_header fhdr) \<le> 32"
    by blast+
  show "coff_read_optional_header e descriptor fhdr (fhdr_off + 4) st
          = Inr (sects_view, False, 0)"
    using v sz by (simp add: coff_read_optional_header_def Let_def)
qed

theorem coff_add_rejects_invalid_pe_header_witness:
  "(\<exists>st'. coff_add False (file_env (\<lambda>name. - 1) (\<lambda>descriptor. example_bad_signature))
            example_layout 1 ''a.exe'' 3 example_outputs 0 empty_state
          = Some (0, example_outputs, st')
        \<and> st_errors st' = [(''executable file is not COFF'', 0)]
        \<and> st_syminfo_data st' = [] \<and> st_dwarf st' = [] \<and> st_closed st' = [3])
   \<and> (\<exists>st'. coff_add False (file_env (\<lambda>name. - 1) (\<lambda>descriptor. example_bad_magic))
            example_layout 1 ''a.exe'' 3 example_outputs 0 empty_state
          = Some (0, example_outputs, st')
        \<and> st_errors st' = [(''bad magic in PE optional header'', 0)]
        \<and> st_syminfo_data st' = [] \<and> st_dwarf st' = [] \<and> st_closed st' = [3])"
proof -
  let ?e1 = "file_env (\<lambda>name. - 1) (\<lambda>descriptor. example_bad_signature)"
  let ?e2 = "file_env (\<lambda>name. - 1) (\<lambda>descriptor. example_bad_magic)"
  have a1: "env_view ?e1 3 0 0x40 = Some example_dos_stub"
    by code_simp
  have a2: "(0x40 :: nat) = (if example_dos_stub ! 0 = 0x4D \<and> example_dos_stub ! 1 = 0x5A
                     then unat (coff_read4 (drop 0x3c example_dos_stub)) else 0)"
    by code_simp
  have a3: "env_view ?e1 3 0x40 24 = Some (replicate 24 0)"
    by code_simp
  have a4: "take 4 (replicate 24 (0 :: byte)) \<noteq> [0x50, 0x45, 0, 0]"
    by code_simp
  have b1: "env_view ?e2 3 0 0x40 = Some example_dos_stub"
    by code_simp
  have b3: "env_view ?e2 3 0x40 24 = Some (example_pe_header 0 0 0 40)"
    by code_simp
  have b4: "take 4 (example_pe_header 0 0 0 40) = [0x50, 0x45, 0, 0]"
    by code_simp
  have b5: "env_view ?e2 3 (0x40 + 4 + 20)
              (unat (fh_size_of_optional_header
                       (coff_file_header_of (drop 4 (example_pe_header 0 0 0 40))))
               + unat (fh_number_of_sections
                         (coff_file_header_of (drop 4 (example_pe_header 0 0 0 40)))) * 40)
            = Some (le16 0x999 @ replicate 38 0)"
    by code_simp
  have b6: "unat (fh_size_of_optional_header
                    (coff_file_header_of (drop 4 (example_pe_header 0 0 0 40)))) > 32"
    by code_simp
  have b7: "coff_read2 (le16 0x999 @ replicate 38 0) \<noteq> 0x10b"
    "coff_read2 (le16 0x999 @ replicate 38 0) \<noteq> 0x20b"
    by code_simp+
  have o: "example_outputs\<lparr>out_found_sym := False, out_found_dwarf := False\<rparr> = example_outputs"
    by (simp add: example_outputs_def)
  have e: "st_errors (empty_state :: uint64 state) = []"
    "st_syminfo_data (empty_state :: uint64 state) = []"
    "st_dwarf (empty_state :: uint64 state) = []"
    "st_closed (empty_state :: uint64 state) = []"
    by (simp_all add: empty_state_def)
  have "\<exists>st'. coff_add False ?e1 example_layout (Suc 0) ''a.exe'' 3 example_outputs 0 empty_state
          = Some (0, example_outputs, st')
        \<and> st_errors st' = [(''executable file is not COFF'', 0)]
        \<and> st_syminfo_data st' = [] \<and> st_dwarf st' = [] \<and> st_closed st' = [3]"
    using coff_add_rejects_invalid_pe_header
        [where have_windows_h = False and lay = example_layout and depth = 0
          and filename = "''a.exe''" and outs = example_outputs and module_handle = 0
          and st = empty_state, OF a1 a2 a3, THEN conjunct1]
      a4 by (simp add: o e)
  moreover have "\<exists>st'. coff_add False ?e2 example_layout (Suc 0) ''a.exe'' 3 example_outputs 0
            empty_state
          = Some (0, example_outputs, st')
        \<and> st_errors st' = [(''bad magic in PE optional header'', 0)]
        \<and> st_syminfo_data st' = [] \<and> st_dwarf st' = [] \<and> st_closed st' = [3]"
    using coff_add_rejects_invalid_pe_header
        [where have_windows_h = False and lay = example_layout and depth = 0
          and filename = "''a.exe''" and outs = example_outputs and module_handle = 0
          and st = empty_state
          and fhdr = "coff_file_header_of (drop 4 (example_pe_header 0 0 0 40))"
          and sects_view = "le16 0x999 @ replicate 38 0", OF b1 a2 b3, THEN conjunct2, THEN conjunct1]
      b4 b5 b6 b7 by (simp add: o e)
  ultimately show ?thesis by simp
qed

lemma coff_open_debugfile_by_debuglink_mismatch:
  assumes "fst (coff_find_debugfile_by_debuglink have_windows_h e filename debuglink_name) = d"
    and "d \<ge> 0" and "debuglink_crc \<noteq> 0"
    and "fst (coff_crc32_file e d st) \<noteq> debuglink_crc"
  shows "coff_open_debugfile_by_debuglink have_windows_h e filename debuglink_name debuglink_crc st
     = (- 1, backtrace_close d
               (error_callback
                  (take 255 (''CRC mismatch for '' @ filename @ '': got 0x''
                             @ hex8 (fst (coff_crc32_file e d st)) @ '' expected 0x''
                             @ hex8 debuglink_crc))
                  0 (snd (coff_crc32_file e d st))))"
  using assms
  by (cases "coff_crc32_file e d st")
    (simp add: coff_open_debugfile_by_debuglink_def Let_def)

lemma coff_crc32_file_fields:
  "st_syminfo_data (snd (coff_crc32_file e d st)) = st_syminfo_data st"
  "st_dwarf (snd (coff_crc32_file e d st)) = st_dwarf st"
  "st_closed (snd (coff_crc32_file e d st)) = st_closed st"
  by (simp_all add: coff_crc32_file_def error_callback_fields split: sum.splits option.splits)

lemma coff_add_scanned:
  "coff_scan_file e lay filename descriptor st = Some (Inr (sc, image_base, found_sym, st1)) \<Longrightarrow>
   coff_add have_windows_h e lay (Suc depth) filename descriptor outs module_handle st
     = coff_debuglink_stage
         (\<lambda>name d outs1 st2. coff_add have_windows_h e lay depth name d outs1 module_handle st2)
         have_windows_h e filename descriptor sc image_base
         (outs\<lparr>out_found_sym := found_sym, out_found_dwarf := False\<rparr>) module_handle st1"
  by simp

lemma coff_debuglink_stage_not_opened:
  assumes "sc_debuglink_name sc = Some debuglink_name"
    and "coff_open_debugfile_by_debuglink have_windows_h e filename debuglink_name
           (sc_debuglink_crc sc) st = (d, st1)"
    and "d < 0"
  shows "coff_debuglink_stage rec have_windows_h e filename descriptor sc image_base outs
           module_handle st
     = coff_debugaltlink_stage rec have_windows_h e filename descriptor sc image_base outs
         module_handle
         (error_callback
            (take 511
               (''Could not open/validate external debug file ''
                @ [CHR 0x27] @ debuglink_name @ [CHR 0x27]
                @ '' from .gnu_debuglink for '' @ filename
                @ ''; falling back to embedded DWARF if present''))
            0 st1)"
  using assms by (simp add: coff_debuglink_stage_def)

text \<open>What the check of the CRC does guarantee. When the CRC the reader took from the
  \<^verbatim>\<open>.gnu_debuglink\<close> section is not 0 and differs from the CRC it computes for the
  candidate (the CRC-32 of its full bytes, or 0 when \<^verbatim>\<open>fstat\<close> or the mapping fails),
  \<^verbatim>\<open>coff_open_debugfile_by_debuglink\<close> reports the mismatch with \<^verbatim>\<open>errnum\<close> 0, closes the
  candidate and returns \<open>-1\<close>. \<^verbatim>\<open>coff_add\<close> then reports that the file could not be opened
  or validated and goes on with the \<^verbatim>\<open>.gnu_debugaltlink\<close> stage, which is the processing
  of the primary file's embedded debug sections when the file has no
  \<^verbatim>\<open>.gnu_debugaltlink\<close> section. The symbol tables and the DWARF data that the state held
  after the scan of the primary file are unchanged.\<close>

theorem coff_add_rejects_debuglink_crc_mismatch:
  assumes "coff_scan_file e lay filename descriptor st
             = Some (Inr (sc, image_base, found_sym, st_scan))"
    and "sc_debuglink_name sc = Some debuglink_name"
    and "sc_debuglink_crc sc \<noteq> 0"
    and "fst (coff_find_debugfile_by_debuglink have_windows_h e filename debuglink_name) = d"
    and "d \<ge> 0"
    and "fst (coff_crc32_file e d st_scan) \<noteq> sc_debuglink_crc sc"
    and "mismatch = take 255 (''CRC mismatch for '' @ filename @ '': got 0x''
                              @ hex8 (fst (coff_crc32_file e d st_scan)) @ '' expected 0x''
                              @ hex8 (sc_debuglink_crc sc))"
    and "fallback = take 511 (''Could not open/validate external debug file ''
                              @ [CHR 0x27] @ debuglink_name @ [CHR 0x27]
                              @ '' from .gnu_debuglink for '' @ filename
                              @ ''; falling back to embedded DWARF if present'')"
    and "st_close = backtrace_close d (error_callback mismatch 0 (snd (coff_crc32_file e d st_scan)))"
    and "st_fall = error_callback fallback 0 st_close"
    and "outs_scan = outs\<lparr>out_found_sym := found_sym, out_found_dwarf := False\<rparr>"
  shows "coff_open_debugfile_by_debuglink have_windows_h e filename debuglink_name
           (sc_debuglink_crc sc) st_scan = (- 1, st_close)
       \<and> coff_add have_windows_h e lay (Suc depth) filename descriptor outs module_handle st
         = coff_debugaltlink_stage
             (\<lambda>name dd outs_in st_in.
                coff_add have_windows_h e lay depth name dd outs_in module_handle st_in)
             have_windows_h e filename descriptor sc image_base outs_scan module_handle st_fall
       \<and> (sc_debugaltlink_name sc = None \<longrightarrow>
            coff_add have_windows_h e lay (Suc depth) filename descriptor outs module_handle st
            = Some (coff_add_embedded have_windows_h e descriptor sc image_base outs_scan
                      module_handle st_fall))
       \<and> st_syminfo_data st_fall = st_syminfo_data st_scan
       \<and> st_dwarf st_fall = st_dwarf st_scan
       \<and> st_closed st_fall = st_closed st_scan @ [d]
       \<and> st_errors st_fall
         = st_errors (snd (coff_crc32_file e d st_scan)) @ [(mismatch, 0), (fallback, 0)]"
proof -
  have opn: "coff_open_debugfile_by_debuglink have_windows_h e filename debuglink_name
           (sc_debuglink_crc sc) st_scan = (- 1, st_close)"
    unfolding assms(9) assms(7)
    using assms(4) assms(5) assms(3) assms(6)
    by (rule coff_open_debugfile_by_debuglink_mismatch)
  have "coff_add have_windows_h e lay (Suc depth) filename descriptor outs module_handle st
     = coff_debuglink_stage
         (\<lambda>name dd outs_in st_in.
            coff_add have_windows_h e lay depth name dd outs_in module_handle st_in)
         have_windows_h e filename descriptor sc image_base outs_scan module_handle st_scan"
    unfolding assms(11) using assms(1) by (rule coff_add_scanned)
  also have "\<dots> = coff_debugaltlink_stage
             (\<lambda>name dd outs_in st_in.
                coff_add have_windows_h e lay depth name dd outs_in module_handle st_in)
             have_windows_h e filename descriptor sc image_base outs_scan module_handle st_fall"
    unfolding assms(10) assms(8)
    by (rule coff_debuglink_stage_not_opened [OF assms(2) opn]) simp
  finally have add: "coff_add have_windows_h e lay (Suc depth) filename descriptor outs
           module_handle st
         = coff_debugaltlink_stage
             (\<lambda>name dd outs_in st_in.
                coff_add have_windows_h e lay depth name dd outs_in module_handle st_in)
             have_windows_h e filename descriptor sc image_base outs_scan module_handle st_fall" .
  have emb: "sc_debugaltlink_name sc = None \<longrightarrow>
            coff_add have_windows_h e lay (Suc depth) filename descriptor outs module_handle st
            = Some (coff_add_embedded have_windows_h e descriptor sc image_base outs_scan
                      module_handle st_fall)"
    unfolding add by (simp add: coff_debugaltlink_stage_def)
  have fields: "st_syminfo_data st_fall = st_syminfo_data st_scan" "st_dwarf st_fall = st_dwarf st_scan"
    "st_closed st_fall = st_closed st_scan @ [d]"
    "st_errors st_fall
         = st_errors (snd (coff_crc32_file e d st_scan)) @ [(mismatch, 0), (fallback, 0)]"
    unfolding assms(10) assms(9)
    by (simp_all add: error_callback_fields backtrace_close_fields coff_crc32_file_fields)
  show ?thesis
    using opn add emb fields by blast
qed

theorem coff_add_rejects_debuglink_crc_mismatch_witness:
  "coff_open_debugfile_by_debuglink False (example_debuglink_env 0x12345678) ''a.exe''
       ''a.debug'' 0x12345678 example_debuglink_scanned
     = (- 1, example_debuglink_rejected
               \<lparr>st_errors := butlast (st_errors example_debuglink_rejected)\<rparr>)
   \<and> coff_add False (example_debuglink_env 0x12345678) example_layout (Suc 0) ''a.exe'' 3
       example_outputs 0 empty_state
     = Some (coff_add_embedded False (example_debuglink_env 0x12345678) 3
               (example_debuglink_scan 0x12345678) 0
               (example_outputs\<lparr>out_found_sym := True\<rparr>) 0 example_debuglink_rejected)
   \<and> st_syminfo_data example_debuglink_rejected = st_syminfo_data example_debuglink_scanned
   \<and> st_syminfo_data example_debuglink_scanned = [example_debuglink_sdata]"
proof -
  let ?e = "example_debuglink_env 0x12345678"
  let ?sc = "example_debuglink_scan 0x12345678"
  let ?closed = "example_debuglink_rejected
                   \<lparr>st_errors := butlast (st_errors example_debuglink_rejected)\<rparr>"
  have h1: "coff_scan_file ?e example_layout ''a.exe'' 3 empty_state
             = Some (Inr (?sc, 0, True, example_debuglink_scanned))"
    by code_simp
  have h2: "sc_debuglink_name ?sc = Some ''a.debug''"
    by (simp add: example_debuglink_scan_def)
  have h3: "sc_debuglink_crc ?sc \<noteq> 0"
    by (simp add: example_debuglink_scan_def)
  have h4: "fst (coff_find_debugfile_by_debuglink False ?e ''a.exe'' ''a.debug'') = 5"
    by code_simp
  have h5: "(0 :: int) \<le> 5"
    by simp
  have h6: "fst (coff_crc32_file ?e 5 example_debuglink_scanned) \<noteq> sc_debuglink_crc ?sc"
    by code_simp
  have h7: "''CRC mismatch for a.exe: got 0xe8b7be43 expected 0x12345678''
            = take 255 (''CRC mismatch for '' @ ''a.exe'' @ '': got 0x''
                        @ hex8 (fst (coff_crc32_file ?e 5 example_debuglink_scanned))
                        @ '' expected 0x'' @ hex8 (sc_debuglink_crc ?sc))"
    by code_simp
  have h8: "snd (last (st_errors example_debuglink_rejected)) = 0
            \<and> fst (last (st_errors example_debuglink_rejected))
            = take 511 (''Could not open/validate external debug file ''
                        @ [CHR 0x27] @ ''a.debug'' @ [CHR 0x27]
                        @ '' from .gnu_debuglink for '' @ ''a.exe''
                        @ ''; falling back to embedded DWARF if present'')"
    by code_simp
  have h9: "?closed = backtrace_close 5
              (error_callback ''CRC mismatch for a.exe: got 0xe8b7be43 expected 0x12345678'' 0
                 (snd (coff_crc32_file ?e 5 example_debuglink_scanned)))"
    by code_simp
  have h10: "example_debuglink_rejected
             = error_callback (fst (last (st_errors example_debuglink_rejected))) 0 ?closed"
    by code_simp
  have h11: "example_outputs\<lparr>out_found_sym := True\<rparr>
             = example_outputs\<lparr>out_found_sym := True, out_found_dwarf := False\<rparr>"
    by (simp add: example_outputs_def)
  have c: "sc_debuglink_crc ?sc = 0x12345678"
    by (simp add: example_debuglink_scan_def)
  have n: "sc_debugaltlink_name ?sc = None"
    by (simp add: example_debuglink_scan_def)
  note t = coff_add_rejects_debuglink_crc_mismatch
      [where have_windows_h = False and depth = 0 and module_handle = 0,
       OF h1 h2 h3 h4 h5 h6 h7 h8 [THEN conjunct2] h9 h10 h11]
  have "coff_open_debugfile_by_debuglink False ?e ''a.exe'' ''a.debug'' (sc_debuglink_crc ?sc)
          example_debuglink_scanned = (- 1, ?closed)"
    using t by (rule conjunct1)
  then have a: "coff_open_debugfile_by_debuglink False ?e ''a.exe'' ''a.debug'' 0x12345678
          example_debuglink_scanned = (- 1, ?closed)"
    by (simp only: c)
  have b: "coff_add False ?e example_layout (Suc 0) ''a.exe'' 3 example_outputs 0 empty_state
     = Some (coff_add_embedded False ?e 3 ?sc 0 (example_outputs\<lparr>out_found_sym := True\<rparr>) 0
               example_debuglink_rejected)"
    using t n by blast
  have d: "st_syminfo_data example_debuglink_rejected
           = st_syminfo_data example_debuglink_scanned"
    using t by blast
  have sd: "st_syminfo_data example_debuglink_scanned = [example_debuglink_sdata]"
    by (simp add: example_debuglink_scanned_def)
  show ?thesis
    using a b d sd by blast
qed

lemma coff_open_debugfile_by_debuglink_zero_crc:
  "coff_open_debugfile_by_debuglink have_windows_h e filename debuglink_name 0 st
     = (if fst (coff_find_debugfile_by_debuglink have_windows_h e filename debuglink_name) < 0
        then (- 1, st)
        else (fst (coff_find_debugfile_by_debuglink have_windows_h e filename debuglink_name),
              st))"
  by (simp add: coff_open_debugfile_by_debuglink_def Let_def)

lemma round_up_multiple_of_4: "4 dvd (n :: nat) \<Longrightarrow> (n + 3) div 4 * 4 = n"
  by (auto elim!: dvdE)

lemma takeWhile_name_then_nul:
  "0 \<notin> set name \<Longrightarrow> takeWhile (\<lambda>c. c \<noteq> (0 :: byte)) (name @ 0 # rest) = name"
  by (induction name) auto

text \<open>The slip in general: when the name in the section has a length that is a multiple
  of 4, the reader takes its CRC from the NUL and the padding that follow the name, that
  is 0, whatever CRC the section records after the padding.\<close>

lemma coff_read_debuglink_takes_padding:
  assumes "\<not> sc_debuglink_view_valid sc"
    and "coff_section_name_eq ''.gnu_debuglink'' str_off str_view (sh_name s) = Some True"
    and "env_view e descriptor (unat (sh_pointer_to_raw_data s)) (coff_section_size s)
           = Some (name @ [0, 0, 0, 0] @ crc_bytes)"
    and "coff_section_size s = length name + 8"
    and "0 \<notin> set name" and "4 dvd length name"
  shows "\<exists>st'. coff_read_debuglink e filename descriptor str_view s str_off sc st
           = Some (Inr (sc\<lparr>sc_debuglink_view_valid := True,
                            sc_debuglink_name := Some (map (\<lambda>b. char_of (unat b)) name),
                            sc_debuglink_crc := 0\<rparr>, st'))"
proof -
  define debuglink_data where "debuglink_data = name @ [0, 0, 0, 0] @ crc_bytes"
  have v: "env_view e descriptor (unat (sh_pointer_to_raw_data s)) (coff_section_size s)
           = Some debuglink_data"
    using assms(3) by (simp add: debuglink_data_def)
  have tw: "takeWhile (\<lambda>c. c \<noteq> 0) (take (coff_section_size s) debuglink_data) = name"
    using takeWhile_name_then_nul [OF assms(5), of "[0, 0, 0] @ take 4 crc_bytes"]
    by (simp add: debuglink_data_def assms(4))
  have cs: "c_string debuglink_data = map (\<lambda>b. char_of (unat b)) name"
    using takeWhile_name_then_nul [OF assms(5), of "[0, 0, 0] @ crc_bytes"]
    by (simp add: c_string_def debuglink_data_def)
  have off: "(length name + 3) div 4 * 4 = length name"
    using assms(6) by (rule round_up_multiple_of_4)
  have rd: "coff_read4 (drop (length name) debuglink_data) = 0"
    by (simp add: coff_read4_def debuglink_data_def)
  have le: "length name + 4 \<le> coff_section_size s"
    by (simp add: assms(4))
  show ?thesis
    using assms(1) assms(2)
    by (simp add: coff_read_debuglink_def v tw cs off rd le Let_def)
qed

text \<open>Claim C3, on the code as it is. The reader takes the CRC of a \<^verbatim>\<open>.gnu_debuglink\<close>
  section at the length of the name rounded up to a multiple of 4, and leaves the NUL of
  the name out of that length. On the example the section records the CRC
  \<open>0x12345678\<close> after the name \<^verbatim>\<open>main.dbg\<close>, its NUL and the padding; the reader takes 0
  from the NUL and the padding, and \<^verbatim>\<open>coff_open_debugfile_by_debuglink\<close> makes no check
  for the CRC 0. The candidate \<^verbatim>\<open>main.dbg\<close> has the CRC \<open>0xe7718a65\<close>, which differs
  from the recorded one; it is opened and returned, not closed, and \<^verbatim>\<open>coff_add\<close> returns
  what the candidate gives (no debug info) and never looks at the embedded sections of
  the primary file, where the claim requires the result \<open>-1\<close> and the fallback.\<close>

theorem coff_add_uses_debuglink_candidate_of_wrong_crc:
  "take 16 (drop 0x80 (example_debuglink_exe_8 0x12345678))
     = example_debuglink_section_8 0x12345678
   \<and> gnu_debuglink_recorded_crc (example_debuglink_section_8 0x12345678) = 0x12345678
   \<and> fst (coff_crc32_file (example_debuglink_env_8 0x12345678) 5 example_debuglink_scanned_8)
     = 0xe7718a65
   \<and> coff_scan_file (example_debuglink_env_8 0x12345678) example_layout ''a.exe'' 3 empty_state
     = Some (Inr (example_debuglink_scan_8, 0, False, example_debuglink_scanned_8))
   \<and> coff_open_debugfile_by_debuglink False (example_debuglink_env_8 0x12345678) ''a.exe''
       ''main.dbg'' (sc_debuglink_crc example_debuglink_scan_8) example_debuglink_scanned_8
     = (5, example_debuglink_scanned_8)
   \<and> coff_add False (example_debuglink_env_8 0x12345678) example_layout 2 ''a.exe'' 3
       example_outputs 0 empty_state
     = Some (1, example_outputs\<lparr>out_fileline_fn := Some Coff_nodebug\<rparr>,
             example_debuglink_used_8)"
  by code_simp

end
